(* ===== verification/Prelude.thy ===== *)
theory Prelude
  imports Complex_Main "HOL-Library.AList"
begin

text \<open>
  Shared vocabulary of the development: the names of the model's basic types, the
  collections of equations the component theories register, and generic lemmas on lists
  and association lists that the component proofs use through \<open>simp add:\<close> and
  \<open>auto simp:\<close>.
\<close>

section \<open>Names of the model's basic types\<close>

text \<open>
  Feature identifiers are the strings mapbox-gl-draw assigns; colours are the strings an
  HTML \<open><input type="color">\<close> yields (\<open>''#rrggbb''\<close>, or \<open>''''\<close> before any
  choice, as the initial \<open>useState('')\<close> of \<open>Map.tsx\<close> gives).
\<close>

type_synonym feature_id = string
type_synonym color = string

section \<open>Collections\<close>

text \<open>
  \<open>store_simps\<close>: the equations of the drawing store's operations (get, set, delete,
  set a property); \<open>handler_defs\<close>: the definitions of the event handlers, unfolded
  together when a proof follows a handler branch by branch.
\<close>

named_theorems store_simps "equations of the drawing store operations"
named_theorems handler_defs "definitions of the component handlers"

section \<open>Lists\<close>

text \<open>A projection that forgets what a map changes sees the list unchanged.\<close>

lemma map_proj_map_invariant [simp]:
  "(\<And>x. g (h x) = g x) \<Longrightarrow> map g (map h xs) = map g xs"
  by (induction xs) auto

text \<open>Filtering by a test that only reads the projection commutes with the projection.\<close>

lemma map_proj_filter:
  "(\<And>x. P x = Q (g x)) \<Longrightarrow> map g (filter P xs) = filter Q (map g xs)"
  by (induction xs) auto

lemma filter_proj_cong:
  assumes "map g xs = map g ys" and "\<And>x. P x = Q (g x)"
  shows "map g (filter P xs) = map g (filter P ys)"
  using assms by (simp add: map_proj_filter)

text \<open>A fold whose every step keeps a projection keeps it.\<close>

lemma fold_proj_invariant:
  "(\<And>x w. g (f x w) = g w) \<Longrightarrow> g (fold f xs w) = g w"
  by (induction xs arbitrary: w) auto

text \<open>Decoding every element of an encoded list gives the list back.\<close>

lemma those_map_inverse:
  "(\<And>x. x \<in> set xs \<Longrightarrow> d (e x) = Some x) \<Longrightarrow> those (map (d \<circ> e) xs) = Some xs"
  by (induction xs) auto

section \<open>Association lists\<close>

lemma map_of_update_same [simp]: "map_of (AList.update k v al) k = Some v"
  by (simp add: update_conv')

lemma map_of_update_other [simp]:
  "k' \<noteq> k \<Longrightarrow> map_of (AList.update k v al) k' = map_of al k'"
  by (simp add: update_conv')

end
