(* ===== verification/Geo.thy ===== *)
theory Geo
  imports Prelude
begin

text \<open>
  The data both components share: GeoJSON features as mapbox-gl-draw hands them out
  (\<open>draw.getAll().features\<close>), the drawing store's operations that \<open>Map.tsx\<close> calls
  (\<open>getAll\<close>, \<open>set\<close>, \<open>delete\<close>, \<open>deleteAll\<close>, \<open>setFeatureProperty\<close>) and the
  interactions of the drawing modes that change the store (draw, edit, trash), the area
  of \<open>@turf/turf\<close> and the rounding \<open>Math.round(area * 100) / 100\<close>.
  The store and turf are libraries the sources only call; they are modelled from their
  documented behaviour.
\<close>

section \<open>Features\<close>

text \<open>
  A coordinate is a JSON number written in decimal: \<open>Dec m k\<close> is \<open>m / 10^k\<close>.
  A position is \<open>[lng, lat]\<close>.
\<close>

datatype decimal = Dec int nat

type_synonym position = "decimal \<times> decimal"

text \<open>The two geometry kinds the draw control offers (\<open>line_string\<close>, \<open>polygon\<close>).\<close>

datatype geom = LineString "position list" | Polygon "position list list"

text \<open>
  A feature: the id the library assigns, its geometry and its properties bag (an ordered
  association list, as a JavaScript object keeps insertion order).
\<close>

record feature =
  feature_id :: feature_id
  geometry :: geom
  properties :: "(string \<times> string) list"

definition geom_type :: "geom \<Rightarrow> string" where
  "geom_type g = (case g of LineString _ \<Rightarrow> ''LineString'' | Polygon _ \<Rightarrow> ''Polygon'')"

text \<open>
  What identifies a drawing for the user, independently of its colours: its id and its
  geometry. The mirrors of the feature collection agree on this.
\<close>

definition shape :: "feature \<Rightarrow> feature_id \<times> geom" where
  "shape f = (feature_id f, geometry f)"

lemma shape_props_update [simp]: "shape (f\<lparr>properties := p\<rparr>) = shape f"
  by (simp add: shape_def)

section \<open>The drawing store\<close>

text \<open>
  The store of mapbox-gl-draw keeps its features in insertion order; \<open>getAll\<close> returns
  a fresh GeoJSON copy of them (\<open>feature.toGeoJSON()\<close>), so a later change of the store
  does not reach a collection read before it.
\<close>

type_synonym draw_store = "feature list"

definition draw_getAll :: "draw_store \<Rightarrow> feature list" where
  "draw_getAll w = w"

definition draw_set :: "feature list \<Rightarrow> draw_store \<Rightarrow> draw_store" where
  "draw_set fs w = fs"

definition draw_delete :: "feature_id \<Rightarrow> draw_store \<Rightarrow> draw_store" where
  "draw_delete i w = filter (\<lambda>f. feature_id f \<noteq> i) w"

definition draw_deleteAll :: "draw_store \<Rightarrow> draw_store" where
  "draw_deleteAll w = []"

definition draw_setFeatureProperty ::
  "feature_id \<Rightarrow> string \<Rightarrow> string \<Rightarrow> draw_store \<Rightarrow> draw_store" where
  "draw_setFeatureProperty i k v w =
     map (\<lambda>f. if feature_id f = i then f\<lparr>properties := AList.update k v (properties f)\<rparr> else f) w"

declare draw_getAll_def [store_simps] draw_set_def [store_simps]
  draw_delete_def [store_simps] draw_deleteAll_def [store_simps]

subsection \<open>Interactions of the drawing modes\<close>

text \<open>
  Completing a drawing adds a new feature with a fresh id and empty properties at the
  end of the store; editing moves vertices of one feature; the trash control deletes the
  selected features. Each then fires its event (\<open>draw.create\<close>, \<open>draw.update\<close>,
  \<open>draw.delete\<close>) with the features concerned.
\<close>

definition ui_create :: "feature \<Rightarrow> draw_store \<Rightarrow> draw_store" where
  "ui_create f w = w @ [f]"

definition ui_update :: "feature_id \<Rightarrow> geom \<Rightarrow> draw_store \<Rightarrow> draw_store" where
  "ui_update i g w = map (\<lambda>f. if feature_id f = i then f\<lparr>geometry := g\<rparr> else f) w"

definition ui_trash :: "feature_id list \<Rightarrow> draw_store \<Rightarrow> draw_store" where
  "ui_trash ids w = filter (\<lambda>f. feature_id f \<notin> set ids) w"

section \<open>Area\<close>

text \<open>
  \<open>turf.area\<close> sums the area of every feature of a collection; a line string has none,
  a polygon has the area of its outer ring less that of its holes. The geodesic area of
  one ring (turf's \<open>ringArea\<close>) is a parameter \<open>ra\<close> of the model.
\<close>

type_synonym ring_area = "position list \<Rightarrow> real"

fun polygon_area :: "ring_area \<Rightarrow> position list list \<Rightarrow> real" where
  "polygon_area ra [] = 0"
| "polygon_area ra (r # holes) = \<bar>ra r\<bar> - sum_list (map (\<lambda>h. \<bar>ra h\<bar>) holes)"

fun geom_area :: "ring_area \<Rightarrow> geom \<Rightarrow> real" where
  "geom_area ra (LineString _) = 0"
| "geom_area ra (Polygon rings) = polygon_area ra rings"

definition turf_area :: "ring_area \<Rightarrow> feature list \<Rightarrow> real" where
  "turf_area ra fs = sum_list (map (\<lambda>f. geom_area ra (geometry f)) fs)"

text \<open>\<open>Math.round\<close> rounds half-way cases up: \<open>Math.round x = \<lfloor>x + 1/2\<rfloor>\<close>.\<close>

definition js_round :: "real \<Rightarrow> int" where
  "js_round x = \<lfloor>x + 1 / 2\<rfloor>"

definition round2 :: "real \<Rightarrow> real" where
  "round2 a = real_of_int (js_round (a * 100)) / 100"

section \<open>Lemmas\<close>

subsection \<open>Store operations and shapes\<close>

lemma draw_setFeatureProperty_shape [simp]:
  "map shape (draw_setFeatureProperty i k v w) = map shape w"
  by (simp add: draw_setFeatureProperty_def)

lemma draw_setFeatureProperty_absent [simp]:
  "i \<notin> feature_id ` set w \<Longrightarrow> draw_setFeatureProperty i k v w = w"
  by (induction w) (auto simp: draw_setFeatureProperty_def)

lemma draw_setFeatureProperty_snoc [simp]:
  "draw_setFeatureProperty i k v (w @ [f]) =
     draw_setFeatureProperty i k v w @ draw_setFeatureProperty i k v [f]"
  by (simp add: draw_setFeatureProperty_def)

lemma draw_setFeatureProperty_single [simp]:
  "feature_id f = i \<Longrightarrow>
     draw_setFeatureProperty i k v [f] = [f\<lparr>properties := AList.update k v (properties f)\<rparr>]"
  by (simp add: draw_setFeatureProperty_def)

lemma draw_delete_Nil [simp]: "draw_delete i [] = []"
  by (simp add: draw_delete_def)

lemma draw_delete_absent:
  "i \<notin> feature_id ` set w \<Longrightarrow> draw_delete i w = w"
  by (induction w) (auto simp: draw_delete_def)

lemma draw_delete_shape:
  "map shape xs = map shape ys \<Longrightarrow> map shape (draw_delete i xs) = map shape (draw_delete i ys)"
  unfolding draw_delete_def
  by (rule filter_proj_cong [where Q = "\<lambda>p. fst p \<noteq> i"]) (auto simp: shape_def)

lemma ids_shape: "map feature_id xs = map fst (map shape xs)"
  by (simp add: shape_def comp_def)

lemma fst_comp_shape: "fst \<circ> shape = feature_id"
  by (simp add: fun_eq_iff shape_def)

subsection \<open>Area\<close>

text \<open>The area reads geometries only, so it agrees on lists of equal shapes.\<close>

lemma turf_area_via_shape:
  "turf_area ra xs = sum_list (map (\<lambda>p. geom_area ra (snd p)) (map shape xs))"
  by (simp add: turf_area_def shape_def comp_def)

lemma turf_area_shape:
  "map shape xs = map shape ys \<Longrightarrow> turf_area ra xs = turf_area ra ys"
  by (simp only: turf_area_via_shape)

lemma turf_area_Nil [simp]: "turf_area ra [] = 0"
  by (simp add: turf_area_def)

lemma turf_area_append: "turf_area ra (xs @ ys) = turf_area ra xs + turf_area ra ys"
  by (simp add: turf_area_def)

subsection \<open>Rounding\<close>

lemma round2_0 [simp]: "round2 0 = 0"
  by (simp add: round2_def js_round_def)

lemma round2_int: "round2 (real_of_int k / 100) = real_of_int k / 100"
proof -
  have "\<lfloor>real_of_int k + 1 / 2\<rfloor> = k" by linarith
  then show ?thesis by (simp add: round2_def js_round_def)
qed

text \<open>
  C8: The displayed area is within half a hundredth of the computed one:
  \<open>Math.round(area * 100) / 100\<close> moves a value by at most \<open>1/200\<close>.
\<close>

theorem round2_error: "\<bar>round2 a - a\<bar> \<le> 1 / 200"
proof -
  let ?k = "\<lfloor>a * 100 + 1 / 2\<rfloor>"
  have "real_of_int ?k \<le> a * 100 + 1 / 2" and "a * 100 + 1 / 2 < real_of_int ?k + 1"
    by linarith+
  then have "\<bar>real_of_int ?k - a * 100\<bar> \<le> 1 / 2" by linarith
  then have "\<bar>real_of_int ?k / 100 - a\<bar> \<le> 1 / 200" by (simp add: field_simps abs_le_iff)
  then show ?thesis by (simp add: round2_def js_round_def)
qed

lemma round2_nonneg: "0 \<le> a \<Longrightarrow> 0 \<le> round2 a"
  by (simp add: round2_def js_round_def)

end
