(* ===== verification/Json_Codec.thy ===== *)
theory Json_Codec
  imports Geo "HOL-Library.Monad_Syntax"
begin

text \<open>
  What the \<open>'user_drawings'\<close> entry of localStorage holds: the JSON value of the
  feature array, \<open>JSON.stringify(data.features)\<close>, each feature in the GeoJSON form
  that \<open>feature.toGeoJSON()\<close> of mapbox-gl-draw produces (keys \<open>id\<close>, \<open>type\<close>,
  \<open>properties\<close>, \<open>geometry\<close>). Reading it back is \<open>JSON.parse\<close> followed by the
  GeoJSON reading of \<open>draw.set\<close>; a value that is not a feature array makes that
  reading fail, which the model returns as \<open>None\<close>. The text layer of JSON is left to
  the JavaScript runtime: the stored value is the JSON value itself.
\<close>

datatype json =
    JNull
  | JBool bool
  | JNum decimal
  | JStr string
  | JArr "json list"
  | JObj "(string \<times> json) list"

section \<open>Encoding\<close>

definition encode_position :: "position \<Rightarrow> json" where
  "encode_position p = JArr [JNum (fst p), JNum (snd p)]"

definition encode_ring :: "position list \<Rightarrow> json" where
  "encode_ring r = JArr (map encode_position r)"

fun encode_geom :: "geom \<Rightarrow> json" where
  "encode_geom (LineString ps) =
     JObj [(''coordinates'', encode_ring ps), (''type'', JStr ''LineString'')]"
| "encode_geom (Polygon rs) =
     JObj [(''coordinates'', JArr (map encode_ring rs)), (''type'', JStr ''Polygon'')]"

definition encode_props :: "(string \<times> string) list \<Rightarrow> json" where
  "encode_props ps = JObj (map (\<lambda>(k, v). (k, JStr v)) ps)"

definition encode_feature :: "feature \<Rightarrow> json" where
  "encode_feature f =
     JObj [(''id'', JStr (feature_id f)), (''type'', JStr ''Feature''),
           (''properties'', encode_props (properties f)),
           (''geometry'', encode_geom (geometry f))]"

definition encode_features :: "feature list \<Rightarrow> json" where
  "encode_features fs = JArr (map encode_feature fs)"

section \<open>Decoding\<close>

fun json_str :: "json option \<Rightarrow> string option" where
  "json_str (Some (JStr s)) = Some s"
| "json_str _ = None"

fun json_arr :: "json option \<Rightarrow> json list option" where
  "json_arr (Some (JArr js)) = Some js"
| "json_arr _ = None"

fun decode_position :: "json \<Rightarrow> position option" where
  "decode_position (JArr [JNum x, JNum y]) = Some (x, y)"
| "decode_position _ = None"

fun decode_ring :: "json \<Rightarrow> position list option" where
  "decode_ring (JArr js) = those (map decode_position js)"
| "decode_ring _ = None"

fun decode_geom :: "json \<Rightarrow> geom option" where
  "decode_geom (JObj kvs) =
     do {
       t \<leftarrow> json_str (map_of kvs ''type'');
       c \<leftarrow> map_of kvs ''coordinates'';
       if t = ''LineString'' then map_option LineString (decode_ring c)
       else if t = ''Polygon'' then
         do { rs \<leftarrow> json_arr (Some c); map_option Polygon (those (map decode_ring rs)) }
       else None
     }"
| "decode_geom _ = None"

fun decode_prop :: "string \<times> json \<Rightarrow> (string \<times> string) option" where
  "decode_prop (k, JStr v) = Some (k, v)"
| "decode_prop _ = None"

fun decode_props :: "json \<Rightarrow> (string \<times> string) list option" where
  "decode_props (JObj kvs) = those (map decode_prop kvs)"
| "decode_props _ = None"

fun decode_feature :: "json \<Rightarrow> feature option" where
  "decode_feature (JObj kvs) =
     do {
       i \<leftarrow> json_str (map_of kvs ''id'');
       t \<leftarrow> json_str (map_of kvs ''type'');
       if t \<noteq> ''Feature'' then None
       else do {
         ps \<leftarrow> map_of kvs ''properties'' \<bind> decode_props;
         g \<leftarrow> map_of kvs ''geometry'' \<bind> decode_geom;
         Some \<lparr>feature_id = i, geometry = g, properties = ps\<rparr>
       }
     }"
| "decode_feature _ = None"

fun decode_features :: "json \<Rightarrow> feature list option" where
  "decode_features (JArr js) = those (map decode_feature js)"
| "decode_features _ = None"

section \<open>Round trip\<close>

lemma decode_encode_position [simp]: "decode_position (encode_position p) = Some p"
  by (cases p) (simp add: encode_position_def)

lemma decode_encode_ring [simp]: "decode_ring (encode_ring r) = Some r"
  by (simp add: encode_ring_def those_map_inverse [where d = decode_position])

lemma decode_encode_geom [simp]: "decode_geom (encode_geom g) = Some g"
  by (cases g) (simp_all add: those_map_inverse [where d = decode_ring])

lemma decode_encode_props [simp]: "decode_props (encode_props ps) = Some ps"
proof -
  have "those (map (decode_prop \<circ> (\<lambda>(k, v). (k, JStr v))) ps) = Some ps"
    by (rule those_map_inverse) auto
  then show ?thesis by (simp add: encode_props_def)
qed

lemma decode_encode_feature [simp]: "decode_feature (encode_feature f) = Some f"
  by (simp add: encode_feature_def)

text \<open>Reading back an encoded feature array gives the features, colours included.\<close>

lemma decode_encode_features [simp]: "decode_features (encode_features fs) = Some fs"
  by (simp add: encode_features_def those_map_inverse [where d = decode_feature])

end
