(* ===== verification/Map_Adapter.thy ===== *)
theory Map_Adapter
  imports Json_Codec
begin

text \<open>
  The drawing-surface adapter, \<open>src/src/components/Map.tsx\<close>: its React state and refs
  as a record, and one definition per handler (colour inputs and the effects that copy
  them into refs, \<open>storeDrawings\<close>, the imperative \<open>clearAll\<close> and
  \<open>deleteDrawing\<close>, the mount effect, the map's \<open>load\<close> handler, \<open>updateMap\<close> and
  the clean-up). A handler does not call its parent directly: it returns, besides its new
  state and the new localStorage entry, the argument it passed to
  \<open>props.mapDrawings\<close> (if it called it) and the alerts it raised. The controller
  (\<open>App_Controller\<close>) delivers the emitted list to its own state. The panel the
  component renders below the map is \<open>render_panel\<close>, with the colour inputs' displayed
  values; \<open>colour_features\<close> is a one-pass reference for the colouring \<open>forEach\<close>.
\<close>

section \<open>State\<close>

text \<open>
  The localStorage entry \<open>'user_drawings'\<close>: absent (\<open>getItem\<close> gives \<open>null\<close>) or
  the JSON of a feature array.
\<close>

type_synonym storage = "json option"

text \<open>
  What a reader of the entry gets: no entry reads as the empty collection (as the
  controller's initialiser treats it), a stored value as its decoding.
\<close>

definition stored_features :: "storage \<Rightarrow> feature list option" where
  "stored_features st = (case st of None \<Rightarrow> Some [] | Some j \<Rightarrow> decode_features j)"

text \<open>The two alerts of \<open>Map.tsx\<close> (lines 150 and 174).\<close>

definition msg_choose_color :: string where
  "msg_choose_color = ''Please Select a Color and add a line or a polygon''"

definition msg_draw :: string where
  "msg_draw = ''Click the map to draw a polygon.''"

text \<open>
  \<open>map.current\<close> is the Mapbox map (its rendering is not modelled: only whether it
  exists), \<open>draw.current\<close> the drawing store, \<open>roundedArea\<close> starts undefined
  (\<open>useState<number>()\<close>), the colours and their refs start as \<open>''''\<close>.
\<close>

record map_state =
  map_alive :: bool
  draw :: "draw_store option"
  rounded_area :: "real option"
  line_color :: color
  fill_color :: color
  line_color_ref :: color
  fill_color_ref :: color

definition map_initial :: map_state where
  "map_initial =
     \<lparr>map_alive = False, draw = None, rounded_area = None,
      line_color = '''', fill_color = '''', line_color_ref = '''', fill_color_ref = ''''\<rparr>"

text \<open>What a handler leaves behind.\<close>

record map_out =
  out_map :: map_state
  out_storage :: storage
  out_emit :: "feature list option"
  out_alerts :: "string list"

definition quiet :: "map_state \<Rightarrow> storage \<Rightarrow> map_out" where
  "quiet s st = \<lparr>out_map = s, out_storage = st, out_emit = None, out_alerts = []\<rparr>"

section \<open>Colour selection\<close>

definition handleLineColorChange :: "color \<Rightarrow> map_state \<Rightarrow> map_state" where
  "handleLineColorChange v s = s\<lparr>line_color := v\<rparr>"

definition handleFillColorChange :: "color \<Rightarrow> map_state \<Rightarrow> map_state" where
  "handleFillColorChange v s = s\<lparr>fill_color := v\<rparr>"

text \<open>The effects that run after the re-render a colour change causes.\<close>

definition sync_line_color_ref :: "map_state \<Rightarrow> map_state" where
  "sync_line_color_ref s = s\<lparr>line_color_ref := line_color s\<rparr>"

definition sync_fill_color_ref :: "map_state \<Rightarrow> map_state" where
  "sync_fill_color_ref s = s\<lparr>fill_color_ref := fill_color s\<rparr>"

section \<open>Persistence\<close>

text \<open>\<open>storeDrawings\<close>: an empty collection removes the entry, any other is written.\<close>

definition storeDrawings :: "feature list \<Rightarrow> storage" where
  "storeDrawings fs = (if fs = [] then None else Some (encode_features fs))"

section \<open>Commands offered to the parent (\<open>useImperativeHandle\<close>)\<close>

text \<open>
  \<open>clearAll\<close> empties the store and zeroes the area; it neither reports to the parent
  nor writes localStorage.
\<close>

definition clearAll :: "map_state \<Rightarrow> map_state" where
  "clearAll s =
     (case draw s of
        None \<Rightarrow> s
      | Some w \<Rightarrow> s\<lparr>draw := Some (draw_deleteAll w), rounded_area := Some 0\<rparr>)"

text \<open>
  \<open>deleteDrawing\<close> deletes by id, reads the remaining features, recomputes the area
  (zero when none is left), reports them and persists them.
\<close>

definition deleteDrawing ::
  "ring_area \<Rightarrow> feature_id \<Rightarrow> map_state \<Rightarrow> storage \<Rightarrow> map_out" where
  "deleteDrawing ra i s st =
     (case draw s of
        None \<Rightarrow> quiet s st
      | Some w \<Rightarrow>
          let w' = draw_delete i w;
              data = draw_getAll w';
              s' = s\<lparr>draw := Some w'\<rparr>
          in if data \<noteq> [] then
               \<lparr>out_map = s'\<lparr>rounded_area := Some (round2 (turf_area ra data))\<rparr>,
                out_storage = storeDrawings data, out_emit = Some data, out_alerts = []\<rparr>
             else
               \<lparr>out_map = s'\<lparr>rounded_area := Some 0\<rparr>,
                out_storage = storeDrawings data, out_emit = Some [], out_alerts = []\<rparr>)"

section \<open>Life cycle\<close>

text \<open>
  The mount effect: without a container element it returns at once; otherwise it creates
  the map and the drawing store and registers the handlers below. \<open>addControl\<close>
  (line 130) starts the control's default mode \<open>draw_line_string\<close>, which adds the
  line being drawn to the library's store. Here \<open>draw\<close> is the store of completed
  drawings, the collection every handler of the page sees once the line is finished or
  discarded; the store with the drawing in progress, and what happens to that drawing
  under \<open>draw.set\<close> and \<open>delete\<close>, is modelled in \<open>Draw_Modes\<close>.
\<close>

definition mount :: "bool \<Rightarrow> map_state \<Rightarrow> map_state" where
  "mount has_container s =
     (if \<not> has_container then s else s\<lparr>map_alive := True, draw := Some []\<rparr>)"

text \<open>The clean-up function of the mount effect removes the map.\<close>

definition teardown :: "map_state \<Rightarrow> map_state" where
  "teardown s = s\<lparr>map_alive := False\<rparr>"

text \<open>
  The map's \<open>load\<close> handler. A stored collection is put into the store with
  \<open>draw.set\<close>; the area is computed and the features reported only when there are
  some. Without a stored entry the user is prompted.

  The errors of the page. \<open>MalformedStorage\<close> is the exception \<open>JSON.parse\<close> throws on
  an entry that is not JSON text (lines 134-136 here, \<open>App.tsx\<close> line 19); the page
  does not catch it. It arises on the text of the entry (\<open>Entry_Text\<close>); at the level
  of parsed values of this theory it cannot. \<open>UnrepresentedEntry\<close> is not an exception of
  the program but the boundary of the model: the parsed entry is JSON the model does not
  represent as a feature list. On such a value \<open>draw.set\<close> throws for most inputs (a
  non-array, a feature without geometry such as \<open>[{}]\<close>) and accepts a few the model
  leaves out (features without ids, point geometries, non-string properties); the
  controller's initialiser keeps any parsed value as its state. No theorem of the
  development speaks of the states past this boundary.
\<close>

datatype error = MalformedStorage | UnrepresentedEntry

definition onLoad :: "ring_area \<Rightarrow> map_state \<Rightarrow> storage \<Rightarrow> error + map_out" where
  "onLoad ra s st =
     (case st of
        None \<Rightarrow> Inr ((quiet s st)\<lparr>out_alerts := [msg_choose_color]\<rparr>)
      | Some j \<Rightarrow>
          (case decode_features j of
             None \<Rightarrow> Inl UnrepresentedEntry
           | Some features \<Rightarrow>
               let s1 = s\<lparr>draw := map_option (draw_set features) (draw s)\<rparr>
               in (case map_option draw_getAll (draw s1) of
                     Some data \<Rightarrow>
                       if data \<noteq> [] then
                         Inr \<lparr>out_map = s1\<lparr>rounded_area := Some (round2 (turf_area ra data))\<rparr>,
                              out_storage = st, out_emit = Some data, out_alerts = []\<rparr>
                       else Inr (quiet s1 st)
                   | None \<Rightarrow> Inr (quiet s1 st))))"

section \<open>The rendered panel\<close>

text \<open>
  What the component renders below the map (\<open>Map.tsx\<close> lines 185-222): the area, and
  the two colour inputs, whose \<open>value\<close> attributes are the colour states. An
  \<open><input type="color"\<close> displays its value after the value sanitization of HTML: a
  valid simple colour (\<open>#\<close> and six hexadecimal digits) in lower case, any other string
  as \<open>#000000\<close>. The picker yields only lower-case simple colours.
\<close>

definition is_hex_digit :: "char \<Rightarrow> bool" where
  "is_hex_digit c \<longleftrightarrow>
     (let n = (of_char c :: nat) in 48 \<le> n \<and> n \<le> 57 \<or> 97 \<le> n \<and> n \<le> 102 \<or> 65 \<le> n \<and> n \<le> 70)"

definition valid_simple_color :: "color \<Rightarrow> bool" where
  "valid_simple_color c \<longleftrightarrow> length c = 7 \<and> hd c = CHR ''#'' \<and> (\<forall>h\<in>set (tl c). is_hex_digit h)"

definition ascii_lower :: "char \<Rightarrow> char" where
  "ascii_lower c = (let n = (of_char c :: nat) in if 65 \<le> n \<and> n \<le> 90 then char_of (n + 32) else c)"

definition color_input_value :: "color \<Rightarrow> color" where
  "color_input_value c = (if valid_simple_color c then map ascii_lower c else ''#000000'')"

definition picker_color :: "color \<Rightarrow> bool" where
  "picker_color c \<longleftrightarrow> valid_simple_color c \<and> map ascii_lower c = c"

record panel =
  panel_area :: "real option"
  panel_line :: color
  panel_fill :: color

definition render_panel :: "map_state \<Rightarrow> panel" where
  "render_panel s =
     \<lparr>panel_area = rounded_area s, panel_line = color_input_value (line_color s),
      panel_fill = color_input_value (fill_color s)\<rparr>"

section \<open>Drawing events\<close>

text \<open>The three events \<open>updateMap\<close> listens to, each with its \<open>e.features\<close>.\<close>

datatype draw_event =
    DrawCreate "feature list"
  | DrawDelete "feature list"
  | DrawUpdate "feature list"

fun is_delete :: "draw_event \<Rightarrow> bool" where
  "is_delete (DrawDelete _) = True"
| "is_delete _ = False"

text \<open>The \<open>forEach\<close> over the created features, setting both colour properties.\<close>

definition apply_colors :: "color \<Rightarrow> color \<Rightarrow> feature list \<Rightarrow> draw_store \<Rightarrow> draw_store" where
  "apply_colors lc fc fs w =
     fold (\<lambda>f w. draw_setFeatureProperty (feature_id f) ''fillColor'' fc
                   (draw_setFeatureProperty (feature_id f) ''lineColor'' lc w)) fs w"

text \<open>
  The colouring the \<open>forEach\<close> performs, written as one pass over the store: every
  feature whose id is among the created ones gets both colours. A reference for
  \<open>apply_colors\<close>, not a translation of code.
\<close>

definition colour_features :: "color \<Rightarrow> color \<Rightarrow> feature_id list \<Rightarrow> draw_store \<Rightarrow> draw_store" where
  "colour_features lc fc ids w =
     map (\<lambda>f. if feature_id f \<in> set ids
              then f\<lparr>properties := AList.update ''fillColor'' fc (AList.update ''lineColor'' lc (properties f))\<rparr>
              else f) w"

text \<open>
  \<open>updateMap\<close> reads the collection first, then sets the colours of created features in
  the store, so the collection it reports and persists is the one read before the
  colours were set. The handler is registered on the map after \<open>draw.current\<close> is set,
  so it never runs without a store; that branch leaves everything unchanged.
\<close>

definition updateMap :: "ring_area \<Rightarrow> draw_event \<Rightarrow> map_state \<Rightarrow> storage \<Rightarrow> map_out" where
  "updateMap ra e s st =
     (case draw s of
        None \<Rightarrow> quiet s st
      | Some w \<Rightarrow>
          let data = draw_getAll w;
              w' = (case e of
                      DrawCreate fs \<Rightarrow> apply_colors (line_color_ref s) (fill_color_ref s) fs w
                    | _ \<Rightarrow> w);
              s' = s\<lparr>draw := Some w'\<rparr>
          in if data \<noteq> [] then
               \<lparr>out_map = s'\<lparr>rounded_area := Some (round2 (turf_area ra data))\<rparr>,
                out_storage = storeDrawings data, out_emit = Some data, out_alerts = []\<rparr>
             else
               \<lparr>out_map = s'\<lparr>rounded_area := Some 0\<rparr>,
                out_storage = storeDrawings data, out_emit = Some data,
                out_alerts = (if is_delete e then [] else [msg_draw])\<rparr>)"

declare quiet_def [handler_defs] clearAll_def [handler_defs] deleteDrawing_def [handler_defs]
  onLoad_def [handler_defs] updateMap_def [handler_defs] mount_def [handler_defs]
  teardown_def [handler_defs]

section \<open>Lemmas\<close>

lemmas picker_defs = picker_color_def valid_simple_color_def is_hex_digit_def ascii_lower_def
  render_panel_def color_input_value_def

subsection \<open>Persistence\<close>

lemma stored_features_None [simp]: "stored_features None = Some []"
  by (simp add: stored_features_def)

lemma stored_features_encode [simp]: "stored_features (Some (encode_features fs)) = Some fs"
  by (simp add: stored_features_def)

lemma storeDrawings_Nil [simp]: "storeDrawings [] = None"
  by (simp add: storeDrawings_def)

lemma storeDrawings_Cons [simp]: "storeDrawings (f # fs) = Some (encode_features (f # fs))"
  by (simp add: storeDrawings_def)

subsection \<open>Colouring created features\<close>

lemma apply_colors_shape [simp]: "map shape (apply_colors lc fc fs w) = map shape w"
  unfolding apply_colors_def by (rule fold_proj_invariant) simp

lemma apply_colors_area: "turf_area ra (apply_colors lc fc fs w) = turf_area ra w"
  by (rule turf_area_shape) simp

text \<open>
  The one feature a drawing completes, appended with a fresh id, gets both colours; the
  features before it are untouched.
\<close>

lemma apply_colors_new:
  assumes "feature_id f \<notin> feature_id ` set w"
  shows "apply_colors lc fc [f] (w @ [f]) =
           w @ [f\<lparr>properties := AList.update ''fillColor'' fc
                                 (AList.update ''lineColor'' lc (properties f))\<rparr>]"
  using assms by (simp add: apply_colors_def)

subsection \<open>Characteristic equations of the handlers\<close>

text \<open>
  With a store present, both branches of \<open>deleteDrawing\<close> and \<open>updateMap\<close> are one
  equation: the empty branch sets the area to \<open>0\<close>, which is the rounded area of no
  features, and reports the empty collection it read.
\<close>

lemma deleteDrawing_Some:
  assumes "draw s = Some w"
  shows "deleteDrawing ra i s st =
     \<lparr>out_map = s\<lparr>draw := Some (draw_delete i w),
                   rounded_area := Some (round2 (turf_area ra (draw_delete i w)))\<rparr>,
      out_storage = storeDrawings (draw_delete i w), out_emit = Some (draw_delete i w),
      out_alerts = []\<rparr>"
  using assms
  by (cases "draw_delete i w = []") (simp_all add: deleteDrawing_def draw_getAll_def Let_def)

lemma updateMap_Some:
  assumes "draw s = Some w"
  shows "updateMap ra e s st =
     \<lparr>out_map = s\<lparr>draw := Some (case e of
                              DrawCreate fs \<Rightarrow> apply_colors (line_color_ref s) (fill_color_ref s) fs w
                            | _ \<Rightarrow> w),
                   rounded_area := Some (round2 (turf_area ra w))\<rparr>,
      out_storage = storeDrawings w, out_emit = Some w,
      out_alerts = (if w = [] \<and> \<not> is_delete e then [msg_draw] else [])\<rparr>"
proof (cases "w = []")
  case True
  with assms show ?thesis by (cases e) (simp_all add: updateMap_def draw_getAll_def)
next
  case False
  with assms show ?thesis by (simp add: updateMap_def draw_getAll_def Let_def)
qed

lemma clearAll_Some:
  "draw s = Some w \<Longrightarrow> clearAll s = s\<lparr>draw := Some [], rounded_area := Some 0\<rparr>"
  by (simp add: clearAll_def draw_deleteAll_def)


subsection \<open>Colours of a completed drawing\<close>

text \<open>
  C3: When a drawing is completed, the store gives the new feature the colours of the
  refs, but \<open>updateMap\<close> reports to the controller, and writes to localStorage, the
  collection it read before setting them: there the new feature has no colour
  properties.
\<close>

theorem updateMap_create_reports_uncoloured:
  assumes "draw s = Some (w @ [f])" and "feature_id f \<notin> feature_id ` set w"
    and "properties f = []"
  shows "out_emit (updateMap ra (DrawCreate [f]) s st) = Some (w @ [f]) \<and>
         out_storage (updateMap ra (DrawCreate [f]) s st) = Some (encode_features (w @ [f])) \<and>
         draw (out_map (updateMap ra (DrawCreate [f]) s st)) =
           Some (w @ [f\<lparr>properties := [(''lineColor'', line_color_ref s),
                                        (''fillColor'', fill_color_ref s)]\<rparr>])"
  using assms by (simp add: updateMap_Some apply_colors_new storeDrawings_def)

theorem updateMap_create_reports_uncoloured_witness:
  "out_emit (updateMap (\<lambda>_. 0) (DrawCreate [\<lparr>feature_id = ''x'', geometry = LineString [], properties = []\<rparr>])
       (map_initial\<lparr>draw := Some [\<lparr>feature_id = ''x'', geometry = LineString [], properties = []\<rparr>],
                    line_color_ref := ''#ff0000'', fill_color_ref := ''#00ff00''\<rparr>) None) =
     Some [\<lparr>feature_id = ''x'', geometry = LineString [], properties = []\<rparr>]"
  using updateMap_create_reports_uncoloured
          [of "map_initial\<lparr>draw := Some [\<lparr>feature_id = ''x'', geometry = LineString [], properties = []\<rparr>],
                           line_color_ref := ''#ff0000'', fill_color_ref := ''#00ff00''\<rparr>"
              "[]" "\<lparr>feature_id = ''x'', geometry = LineString [], properties = []\<rparr>"]
  by (simp add: map_initial_def)

lemma colour_twice:
  "AList.update ''fillColor'' fc (AList.update ''lineColor'' lc
     (AList.update ''fillColor'' fc (AList.update ''lineColor'' lc p))) =
   AList.update ''fillColor'' fc (AList.update ''lineColor'' lc p)"
  by (simp add: update_triv map_of_update_other)

lemma set_both_colours:
  "draw_setFeatureProperty i ''fillColor'' fc (draw_setFeatureProperty i ''lineColor'' lc w) =
     colour_features lc fc [i] w"
  by (induction w) (simp_all add: draw_setFeatureProperty_def colour_features_def)

lemma apply_colors_Cons:
  "apply_colors lc fc (f # fs) w =
     apply_colors lc fc fs (colour_features lc fc [feature_id f] w)"
  by (simp add: apply_colors_def set_both_colours)

lemma colour_features_Cons:
  "colour_features lc fc ids (colour_features lc fc [i] w) = colour_features lc fc (i # ids) w"
  by (simp add: colour_features_def colour_twice)

text \<open>
  C19: The \<open>forEach\<close> of \<open>updateMap\<close>, which calls \<open>setFeatureProperty\<close> twice per
  created feature, each call a pass over the store, colours the store as one pass does:
  every feature whose id is among the created ones gets both colours, whatever the
  order and repetition of those ids, and every other feature is left as it was.
\<close>

theorem apply_colors_one_pass:
  "apply_colors lc fc fs w = colour_features lc fc (map feature_id fs) w"
proof (induction fs arbitrary: w)
  case Nil then show ?case by (simp add: apply_colors_def colour_features_def)
next
  case (Cons f fs) then show ?case by (simp add: apply_colors_Cons colour_features_Cons)
qed

end
