(* ===== verification/App_Controller.thy ===== *)
theory App_Controller
  imports Map_Adapter
begin

text \<open>
  The list/controller view, \<open>src/src/App.tsx\<close>, together with what it shares with the
  adapter: its state \<open>drawData\<close>, the adapter instance it reaches through
  \<open>mapRef.current\<close>, the localStorage entry both write, and the alerts raised so far.
  The adapter's report \<open>props.mapDrawings(fs)\<close> is \<open>handleDataChange\<close> (line 53), so
  delivering a handler's outcome (\<open>deliver\<close>) replaces \<open>drawData\<close> by the emitted list.
  React applies the state updates of one handler in the order they were made, the last
  one winning; the model applies them in that order.
\<close>

section \<open>State\<close>

text \<open>
  \<open>map_loaded\<close> is the environment's record of whether the Mapbox map has fired its
  \<open>load\<close> event (it does so once, after the mount effect created it).
\<close>

record world =
  drawData :: "feature list"
  mapRef :: "map_state option"
  local_storage :: storage
  alerts :: "string list"
  map_loaded :: bool

text \<open>
  The initialiser of \<open>drawData\<close> (lines 15-22) on the parsed entry: the parsed value,
  or \<open>[]\<close> without an entry. It does not throw on a parsed value (its only exception is
  the \<open>JSON.parse\<close> of the text, \<open>Entry_Text.initial_drawData_text\<close>); a parsed value
  that is not a feature list of the model is the model's boundary
  \<open>UnrepresentedEntry\<close> (see \<open>Map_Adapter.error\<close>), where the program would render
  with that value as its state.
\<close>

definition initial_drawData :: "storage \<Rightarrow> error + feature list" where
  "initial_drawData st =
     (case st of
        None \<Rightarrow> Inr []
      | Some j \<Rightarrow> (case decode_features j of None \<Rightarrow> Inl UnrepresentedEntry | Some fs \<Rightarrow> Inr fs))"

definition world_init :: "storage \<Rightarrow> error + world" where
  "world_init st =
     (case initial_drawData st of
        Inl e \<Rightarrow> Inl e
      | Inr dd \<Rightarrow> Inr \<lparr>drawData = dd, mapRef = None, local_storage = st, alerts = [],
                       map_loaded = False\<rparr>)"

section \<open>Handlers\<close>

definition handleDataChange :: "feature list \<Rightarrow> world \<Rightarrow> world" where
  "handleDataChange fs w = w\<lparr>drawData := fs\<rparr>"

text \<open>The outcome of an adapter handler, delivered to the page.\<close>

definition deliver :: "world \<Rightarrow> map_out \<Rightarrow> world" where
  "deliver w r =
     (let w1 = w\<lparr>mapRef := Some (out_map r), local_storage := out_storage r,
                 alerts := alerts w @ out_alerts r\<rparr>
      in case out_emit r of None \<Rightarrow> w1 | Some fs \<Rightarrow> handleDataChange fs w1)"

text \<open>
  \<open>deleteDrawing\<close> of \<open>App.tsx\<close> (lines 29-39): the adapter's command first (whose
  report updates \<open>drawData\<close> and whose \<open>storeDrawings\<close> writes the entry), then the
  controller's own filter of the \<open>drawData\<close> its closure captured, which overrides
  both: \<open>setDrawData\<close> with the filtered list and \<open>setItem\<close> of its JSON, even when it
  is empty.
\<close>

definition app_deleteDrawing :: "ring_area \<Rightarrow> feature_id \<Rightarrow> world \<Rightarrow> world" where
  "app_deleteDrawing ra i w =
     (let w1 = (case mapRef w of
                  None \<Rightarrow> w
                | Some m \<Rightarrow> deliver w (deleteDrawing ra i m (local_storage w)));
          updatedDrawings = filter (\<lambda>d. feature_id d \<noteq> i) (drawData w)
      in w1\<lparr>drawData := updatedDrawings,
            local_storage := Some (encode_features updatedDrawings)\<rparr>)"

text \<open>\<open>handleClearList\<close> (lines 41-49): the adapter's \<open>clearAll\<close>, then the list and the entry are cleared.\<close>

definition handleClearList :: "world \<Rightarrow> world" where
  "handleClearList w =
     (let w1 = (case mapRef w of None \<Rightarrow> w | Some m \<Rightarrow> w\<lparr>mapRef := Some (clearAll m)\<rparr>)
      in w1\<lparr>drawData := [], local_storage := None\<rparr>)"

section \<open>Rendering the list\<close>

text \<open>
  Lines 57-68: the heading counts the drawings; an empty list shows a notice, otherwise
  one card per drawing with its ordinal (from 1), geometry type and id.
\<close>

datatype list_view = EmptyNotice | Cards "(nat \<times> string \<times> feature_id) list"

definition render_list :: "feature list \<Rightarrow> nat \<times> list_view" where
  "render_list dd =
     (length dd,
      if length dd = 0 then EmptyNotice
      else Cards (map (\<lambda>(index, d). (index + 1, geom_type (geometry d), feature_id d))
                    (zip [0..<length dd] dd)))"

declare handleDataChange_def [handler_defs] deliver_def [handler_defs]
  app_deleteDrawing_def [handler_defs] handleClearList_def [handler_defs]

section \<open>Lemmas\<close>

lemma world_init_Inr:
  "world_init st = Inr w \<longleftrightarrow>
     stored_features st = Some (drawData w) \<and> mapRef w = None \<and> local_storage w = st \<and>
     alerts w = [] \<and> \<not> map_loaded w"
  by (cases w) (auto simp: world_init_def initial_drawData_def stored_features_def
                      split: option.splits sum.splits)

lemma deliver_fields [simp]:
  "mapRef (deliver w r) = Some (out_map r)"
  "local_storage (deliver w r) = out_storage r"
  "alerts (deliver w r) = alerts w @ out_alerts r"
  "map_loaded (deliver w r) = map_loaded w"
  "drawData (deliver w r) = (case out_emit r of None \<Rightarrow> drawData w | Some fs \<Rightarrow> fs)"
  by (simp_all add: deliver_def handleDataChange_def Let_def split: option.split)

lemma app_deleteDrawing_fields [simp]:
  "drawData (app_deleteDrawing ra i w) = filter (\<lambda>d. feature_id d \<noteq> i) (drawData w)"
  "local_storage (app_deleteDrawing ra i w) =
     Some (encode_features (filter (\<lambda>d. feature_id d \<noteq> i) (drawData w)))"
  "map_loaded (app_deleteDrawing ra i w) = map_loaded w"
  by (simp_all add: app_deleteDrawing_def Let_def split: option.split)

lemma app_deleteDrawing_mapRef:
  "mapRef (app_deleteDrawing ra i w) =
     map_option (\<lambda>m. out_map (deleteDrawing ra i m (local_storage w))) (mapRef w)"
  by (simp add: app_deleteDrawing_def Let_def split: option.split)

lemma handleClearList_fields [simp]:
  "drawData (handleClearList w) = []"
  "local_storage (handleClearList w) = None"
  "map_loaded (handleClearList w) = map_loaded w"
  "alerts (handleClearList w) = alerts w"
  "mapRef (handleClearList w) = map_option clearAll (mapRef w)"
  by (simp_all add: handleClearList_def Let_def split: option.split)


text \<open>
  C12: The rendered list numbers the drawings \<open>1, 2, \<dots>\<close> in list order, shows each
  drawing's id in that order, and its heading counts the cards.
\<close>

theorem render_list_numbering:
  assumes "render_list dd = (n, Cards cs)"
  shows "n = length cs \<and> map fst cs = [1..<n + 1] \<and> map (\<lambda>c. snd (snd c)) cs = map feature_id dd"
proof -
  from assms have n: "n = length dd" and ne: "dd \<noteq> []"
    and cs: "cs = map (\<lambda>(index, d). (index + 1, geom_type (geometry d), feature_id d))
                     (zip [0..<length dd] dd)"
    by (auto simp: render_list_def split: if_splits)
  have "map fst cs = map (\<lambda>x. Suc (fst x)) (zip [0..<length dd] dd)"
    by (simp add: cs case_prod_beta)
  also have "\<dots> = map Suc (map fst (zip [0..<length dd] dd))"
    by (simp only: map_map comp_def)
  also have "\<dots> = map Suc [0..<length dd]" by simp
  also have "\<dots> = [1..<n + 1]" by (simp add: n map_Suc_upt)
  finally have k: "map fst cs = [1..<n + 1]" .
  have "map (\<lambda>c. snd (snd c)) cs = map (\<lambda>x. feature_id (snd x)) (zip [0..<length dd] dd)"
    by (simp add: cs case_prod_beta)
  also have "\<dots> = map feature_id (map snd (zip [0..<length dd] dd))"
    by (simp only: map_map comp_def)
  finally have i: "map (\<lambda>c. snd (snd c)) cs = map feature_id dd" by simp
  from cs n have "n = length cs" by simp
  with k i show ?thesis by blast
qed

theorem render_list_numbering_witness:
  "1 = length [(1::nat, ''LineString'', ''x'')] \<and> map fst [(1::nat, ''LineString'', ''x'')] = [1..<1 + 1] \<and>
   map (\<lambda>c. snd (snd c)) [(1::nat, ''LineString'', ''x'')] =
     map feature_id [\<lparr>feature_id = ''x'', geometry = LineString [], properties = []\<rparr>]"
  by (rule render_list_numbering) (simp add: render_list_def geom_type_def)

end
