(* ===== verification/System.thy ===== *)
theory System
  imports App_Controller
begin

text \<open>
  The page as a whole: the events that reach it (the mount effect, the map's
  \<open>load\<close>, the drawing interactions of the user, the colour inputs, the two buttons of
  the list, the unmount), which of them the environment can deliver in a state
  (\<open>enabled\<close>), the step each causes (\<open>world_step\<close>, an error when an uncaught
  exception ends the page), the reachable states from a given localStorage entry, and
  the invariant that the three mirrors of the feature collection (the drawing store,
  \<open>drawData\<close>, localStorage) agree at every reachable state.
\<close>

section \<open>Events and steps\<close>

datatype event =
    Mount bool
  | MapLoad
  | UserDraw feature
  | UserEdit feature_id geom
  | UserTrash "feature_id list"
  | LineColorInput color
  | FillColorInput color
  | ListDelete feature_id
  | ListClear
  | Unmount

definition on_map :: "(map_state \<Rightarrow> map_state) \<Rightarrow> world \<Rightarrow> world" where
  "on_map f w = w\<lparr>mapRef := map_option f (mapRef w)\<rparr>"

text \<open>
  A drawing interaction changes the store first and then fires its event, whose
  \<open>e.features\<close> are the features concerned, to \<open>updateMap\<close>.
\<close>

definition interact :: "ring_area \<Rightarrow> (draw_store \<Rightarrow> draw_store) \<Rightarrow> (draw_store \<Rightarrow> draw_event) \<Rightarrow> world \<Rightarrow> world" where
  "interact ra change ev w =
     (case mapRef w of
        None \<Rightarrow> w
      | Some m \<Rightarrow>
          (case draw m of
             None \<Rightarrow> w
           | Some ws \<Rightarrow> deliver w (updateMap ra (ev ws) (m\<lparr>draw := Some (change ws)\<rparr>) (local_storage w))))"

fun world_step :: "ring_area \<Rightarrow> event \<Rightarrow> world \<Rightarrow> error + world" where
  "world_step ra (Mount c) w = Inr (w\<lparr>mapRef := Some (mount c map_initial)\<rparr>)"
| "world_step ra MapLoad w =
     (case mapRef w of
        None \<Rightarrow> Inr w
      | Some m \<Rightarrow>
          (case onLoad ra m (local_storage w) of
             Inl e \<Rightarrow> Inl e
           | Inr r \<Rightarrow> Inr ((deliver w r)\<lparr>map_loaded := True\<rparr>)))"
| "world_step ra (UserDraw f) w = Inr (interact ra (ui_create f) (\<lambda>_. DrawCreate [f]) w)"
| "world_step ra (UserEdit i g) w =
     Inr (interact ra (ui_update i g)
            (\<lambda>ws. DrawUpdate (filter (\<lambda>f. feature_id f = i) (ui_update i g ws))) w)"
| "world_step ra (UserTrash ids) w =
     Inr (interact ra (ui_trash ids) (\<lambda>ws. DrawDelete (filter (\<lambda>f. feature_id f \<in> set ids) ws)) w)"
| "world_step ra (LineColorInput c) w =
     Inr (on_map (\<lambda>m. sync_line_color_ref (handleLineColorChange c m)) w)"
| "world_step ra (FillColorInput c) w =
     Inr (on_map (\<lambda>m. sync_fill_color_ref (handleFillColorChange c m)) w)"
| "world_step ra (ListDelete i) w = Inr (app_deleteDrawing ra i w)"
| "world_step ra ListClear w = Inr (handleClearList w)"
| "world_step ra Unmount w = Inr (on_map teardown w)"

text \<open>
  What the environment can deliver: the mount effect once; the map's \<open>load\<close> once,
  after the map exists; drawing interactions on a loaded, live map, a new drawing with a
  fresh id and no properties, an edit or a trash of existing features; the colour inputs
  once the component is mounted, each with a colour the picker yields that differs from
  the one the input shows (the browser fires no input event otherwise); a list delete
  from one of the rendered cards; the clear button at any time; the unmount of a live
  map.
\<close>

definition live_store :: "world \<Rightarrow> draw_store option" where
  "live_store w =
     (case mapRef w of
        None \<Rightarrow> None
      | Some m \<Rightarrow> if map_loaded w \<and> map_alive m then draw m else None)"

fun enabled :: "event \<Rightarrow> world \<Rightarrow> bool" where
  "enabled (Mount c) w = (mapRef w = None)"
| "enabled MapLoad w =
     (case mapRef w of None \<Rightarrow> False | Some m \<Rightarrow> map_alive m \<and> \<not> map_loaded w)"
| "enabled (UserDraw f) w =
     (case live_store w of
        None \<Rightarrow> False
      | Some ws \<Rightarrow> feature_id f \<notin> feature_id ` set ws \<and> properties f = [])"
| "enabled (UserEdit i g) w =
     (case live_store w of None \<Rightarrow> False | Some ws \<Rightarrow> i \<in> feature_id ` set ws)"
| "enabled (UserTrash ids) w =
     (case live_store w of
        None \<Rightarrow> False
      | Some ws \<Rightarrow> ids \<noteq> [] \<and> set ids \<subseteq> feature_id ` set ws)"
| "enabled (LineColorInput c) w =
     (case mapRef w of
        None \<Rightarrow> False
      | Some m \<Rightarrow> picker_color c \<and> c \<noteq> panel_line (render_panel m))"
| "enabled (FillColorInput c) w =
     (case mapRef w of
        None \<Rightarrow> False
      | Some m \<Rightarrow> picker_color c \<and> c \<noteq> panel_fill (render_panel m))"
| "enabled (ListDelete i) w = (i \<in> feature_id ` set (drawData w))"
| "enabled ListClear w = True"
| "enabled Unmount w = (case mapRef w of None \<Rightarrow> False | Some m \<Rightarrow> map_alive m)"

text \<open>A run applies the events the environment can deliver, in order, and stops at an error.\<close>

fun run :: "ring_area \<Rightarrow> event list \<Rightarrow> world \<Rightarrow> error + world" where
  "run ra [] w = Inr w"
| "run ra (e # es) w =
     (if enabled e w then
        (case world_step ra e w of Inl err \<Rightarrow> Inl err | Inr w' \<Rightarrow> run ra es w')
      else run ra es w)"

section \<open>Reachable states\<close>

inductive reachable :: "ring_area \<Rightarrow> world \<Rightarrow> bool" for ra where
  init: "world_init st = Inr w \<Longrightarrow> reachable ra w"
| step: "reachable ra w \<Longrightarrow> enabled e w \<Longrightarrow> world_step ra e w = Inr w' \<Longrightarrow> reachable ra w'"

section \<open>The invariant\<close>

text \<open>
  The displayed area is the rounded area of the store, or still undefined while the
  store is empty and no handler has set it.
\<close>

definition area_ok :: "ring_area \<Rightarrow> map_state \<Rightarrow> bool" where
  "area_ok ra m \<longleftrightarrow>
     (case draw m of
        None \<Rightarrow> True
      | Some ws \<Rightarrow> rounded_area m = Some (round2 (turf_area ra ws)) \<or> rounded_area m = None \<and> ws = [])"

text \<open>
  Before the map has loaded, the store is the empty one the mount effect created; after
  it, the store holds the drawings of \<open>drawData\<close>, feature by feature with the same id and
  geometry. A missing store goes with a missing map.
\<close>

definition store_ok :: "world \<Rightarrow> map_state \<Rightarrow> bool" where
  "store_ok w m \<longleftrightarrow>
     (case draw m of
        None \<Rightarrow> \<not> map_alive m
      | Some ws \<Rightarrow> (if map_loaded w then map shape ws = map shape (drawData w) else ws = []))"

definition sys_inv :: "ring_area \<Rightarrow> world \<Rightarrow> bool" where
  "sys_inv ra w \<longleftrightarrow>
     stored_features (local_storage w) = Some (drawData w) \<and>
     (case mapRef w of None \<Rightarrow> \<not> map_loaded w | Some m \<Rightarrow> store_ok w m \<and> area_ok ra m)"

section \<open>The abstract collection\<close>

text \<open>
  What the page promises its user, independently of how the three mirrors hold it: an
  ordered collection of drawings, each an id and a geometry. A completed drawing is
  appended, an edit replaces one geometry, the trash and the list's delete remove by id,
  clear-all empties it; the other events leave it alone.
\<close>

type_synonym abs_collection = "(feature_id \<times> geom) list"

fun abs_step :: "event \<Rightarrow> abs_collection \<Rightarrow> abs_collection" where
  "abs_step (UserDraw f) c = c @ [shape f]"
| "abs_step (UserEdit i g) c = map (\<lambda>(j, h). if j = i then (j, g) else (j, h)) c"
| "abs_step (UserTrash ids) c = filter (\<lambda>(j, _). j \<notin> set ids) c"
| "abs_step (ListDelete i) c = filter (\<lambda>(j, _). j \<noteq> i) c"
| "abs_step ListClear c = []"
| "abs_step _ c = c"

section \<open>Lemmas\<close>

subsection \<open>Runs\<close>

lemma reachable_run: "reachable ra w \<Longrightarrow> run ra es w = Inr w' \<Longrightarrow> reachable ra w'"
proof (induction es arbitrary: w)
  case Nil
  then show ?case by simp
next
  case (Cons e es)
  show ?case
  proof (cases "enabled e w")
    case True
    with Cons.prems obtain w1 where w1: "world_step ra e w = Inr w1" and "run ra es w1 = Inr w'"
      by (auto split: sum.splits)
    moreover from Cons.prems(1) True w1 have "reachable ra w1" by (rule reachable.step)
    ultimately show ?thesis by (rule_tac Cons.IH)
  next
    case False
    with Cons show ?thesis by simp
  qed
qed


subsection \<open>The invariant\<close>

lemmas inv_defs = sys_inv_def store_ok_def area_ok_def

subsection \<open>Each event keeps it\<close>

lemma sys_inv_init: "world_init st = Inr w \<Longrightarrow> sys_inv ra w"
  by (simp add: world_init_Inr inv_defs)

lemma event_store_shape [simp]:
  "map shape (case e of DrawCreate fs \<Rightarrow> apply_colors lc fc fs ws | DrawDelete _ \<Rightarrow> ws
              | DrawUpdate _ \<Rightarrow> ws) = map shape ws"
  by (cases e) simp_all

text \<open>
  After \<open>updateMap\<close> on a loaded map the three mirrors agree whatever the state before:
  the handler reports and persists exactly what it read from the store.
\<close>

lemma sys_inv_updateMap:
  assumes "map_loaded w" and "draw m = Some ws"
  shows "sys_inv ra (deliver w (updateMap ra e m st))"
proof -
  let ?ws' = "case e of DrawCreate fs \<Rightarrow> apply_colors (line_color_ref m) (fill_color_ref m) fs ws
              | DrawDelete _ \<Rightarrow> ws | DrawUpdate _ \<Rightarrow> ws"
  have "turf_area ra ?ws' = turf_area ra ws"
    by (rule turf_area_shape) simp
  with assms show ?thesis
    by (simp add: updateMap_Some inv_defs storeDrawings_def)
qed

lemma sys_inv_interact:
  assumes "sys_inv ra w" and "map_loaded w"
  shows "sys_inv ra (interact ra change ev w)"
  using assms by (auto simp: interact_def intro!: sys_inv_updateMap split: option.split)

lemma sys_inv_on_map:
  assumes "sys_inv ra w"
    and "\<And>m. draw (f m) = draw m" and "\<And>m. rounded_area (f m) = rounded_area m"
    and "\<And>m. map_alive (f m) \<Longrightarrow> map_alive m"
  shows "sys_inv ra (on_map f w)"
  using assms by (auto simp: on_map_def inv_defs split: option.splits)

lemma sys_inv_mount:
  "sys_inv ra w \<Longrightarrow> mapRef w = None \<Longrightarrow> sys_inv ra (w\<lparr>mapRef := Some (mount c map_initial)\<rparr>)"
  by (simp add: inv_defs mount_def map_initial_def)

lemma sys_inv_load:
  assumes inv: "sys_inv ra w" and en: "enabled MapLoad w" and st: "world_step ra MapLoad w = Inr w'"
  shows "sys_inv ra w'"
proof -
  from en obtain m where m: "mapRef w = Some m" and "map_alive m" and nl: "\<not> map_loaded w"
    by (auto split: option.splits)
  with inv have ws: "draw m = Some []" and ar: "area_ok ra m"
    and sf: "stored_features (local_storage w) = Some (drawData w)"
    by (auto simp: sys_inv_def store_ok_def split: option.splits if_splits)
  show ?thesis
  proof (cases "local_storage w")
    case None
    with sf st m ws ar show ?thesis
      by (auto simp: onLoad_def quiet_def inv_defs stored_features_def)
  next
    case (Some j)
    with sf have dec: "decode_features j = Some (drawData w)"
      by (simp add: stored_features_def)
    with Some sf st m ws ar show ?thesis
      by (auto simp: onLoad_def quiet_def inv_defs draw_set_def draw_getAll_def Let_def
               split: if_splits)
  qed
qed


lemma sys_inv_list_delete:
  assumes inv: "sys_inv ra w"
  shows "sys_inv ra (app_deleteDrawing ra i w)"
proof (cases "mapRef w")
  case None
  with inv show ?thesis by (simp add: inv_defs app_deleteDrawing_mapRef)
next
  case (Some m)
  show ?thesis
  proof (cases "draw m")
    case None
    with inv Some show ?thesis
      by (simp add: inv_defs app_deleteDrawing_mapRef deleteDrawing_def quiet_def)
  next
    case (Some ws)
    from inv \<open>mapRef w = Some m\<close> Some
    have sh: "if map_loaded w then map shape ws = map shape (drawData w) else ws = []"
      by (simp add: sys_inv_def store_ok_def)
    have "if map_loaded w
          then map shape (draw_delete i ws) = map shape (filter (\<lambda>d. feature_id d \<noteq> i) (drawData w))
          else draw_delete i ws = []"
      using sh draw_delete_shape [of ws "drawData w" i]
      by (auto simp: draw_delete_def split: if_splits)
    with inv \<open>mapRef w = Some m\<close> Some show ?thesis
      by (simp add: inv_defs app_deleteDrawing_mapRef deleteDrawing_Some)
  qed
qed

lemma sys_inv_clear:
  assumes "sys_inv ra w"
  shows "sys_inv ra (handleClearList w)"
  using assms by (auto simp: inv_defs clearAll_def draw_deleteAll_def split: option.splits)

subsection \<open>Every reachable state satisfies it\<close>

lemma enabled_interaction_loaded:
  "live_store w = Some ws \<Longrightarrow> map_loaded w"
  by (auto simp: live_store_def split: option.splits if_splits)

theorem sys_inv_step:
  assumes "sys_inv ra w" and "enabled e w" and "world_step ra e w = Inr w'"
  shows "sys_inv ra w'"
  using assms
proof (cases e)
  case (Mount c)
  with assms show ?thesis by (auto intro: sys_inv_mount)
next
  case MapLoad
  with assms show ?thesis by (blast intro: sys_inv_load)
next
  case (UserDraw f)
  with assms show ?thesis
    by (auto simp: sys_inv_interact enabled_interaction_loaded split: option.splits)
next
  case (UserEdit i g)
  with assms show ?thesis
    by (auto simp: sys_inv_interact enabled_interaction_loaded split: option.splits)
next
  case (UserTrash ids)
  with assms show ?thesis
    by (auto simp: sys_inv_interact enabled_interaction_loaded split: option.splits)
next
  case (LineColorInput c)
  with assms show ?thesis
    by (auto intro!: sys_inv_on_map simp: handleLineColorChange_def sync_line_color_ref_def)
next
  case (FillColorInput c)
  with assms show ?thesis
    by (auto intro!: sys_inv_on_map simp: handleFillColorChange_def sync_fill_color_ref_def)
next
  case (ListDelete i)
  with assms show ?thesis by (auto intro: sys_inv_list_delete)
next
  case ListClear
  with assms show ?thesis by (auto intro: sys_inv_clear)
next
  case Unmount
  with assms show ?thesis by (auto intro!: sys_inv_on_map simp: teardown_def)
qed

lemma reachable_sys_inv: "reachable ra w \<Longrightarrow> sys_inv ra w"
proof (induction rule: reachable.induct)
  case (init st w)
  then show ?case by (rule sys_inv_init)
next
  case (step w e w')
  then show ?case by (blast intro: sys_inv_step)
qed


subsection \<open>Reloading the page\<close>

text \<open>
  A fresh page whose entry reads back as \<open>dd\<close>, mounted and loaded, holds \<open>dd\<close> in its
  store and in \<open>drawData\<close>: the run of the two events always returns.
\<close>

lemma reload_run:
  assumes "stored_features st = Some dd"
  shows "\<exists>w' m. run ra [Mount True, MapLoad]
                   \<lparr>drawData = dd, mapRef = None, local_storage = st, alerts = [], map_loaded = False\<rparr>
                 = Inr w' \<and> mapRef w' = Some m \<and> draw m = Some dd \<and> drawData w' = dd \<and> map_loaded w'"
  using assms
  by (cases st) (auto simp: stored_features_def mount_def map_initial_def onLoad_def quiet_def
                            draw_set_def draw_getAll_def Let_def)

subsection \<open>The list follows the abstract collection\<close>

lemma shape_ui_update: "map shape (ui_update i g ws) = map (\<lambda>(j, h). if j = i then (j, g) else (j, h)) (map shape ws)"
  by (simp add: ui_update_def shape_def)

lemma shape_ui_trash: "map shape (ui_trash ids ws) = filter (\<lambda>(j, _). j \<notin> set ids) (map shape ws)"
  by (simp add: ui_trash_def map_proj_filter shape_def case_prod_beta)

lemma shape_filter_id: "map shape (filter (\<lambda>d. feature_id d \<noteq> i) xs) = filter (\<lambda>(j, _). j \<noteq> i) (map shape xs)"
  by (simp add: map_proj_filter shape_def case_prod_beta)

text \<open>Loading reports, if anything, the list the controller already holds.\<close>

lemma load_keeps_drawData:
  assumes inv: "sys_inv ra w" and st: "world_step ra MapLoad w = Inr w'"
  shows "drawData w' = drawData w"
proof (cases "mapRef w")
  case None
  with st show ?thesis by simp
next
  case (Some m)
  from inv have sf: "stored_features (local_storage w) = Some (drawData w)"
    by (simp add: sys_inv_def)
  show ?thesis
  proof (cases "local_storage w")
    case None
    with st Some show ?thesis by (auto simp: onLoad_def quiet_def)
  next
    case (Some j)
    with sf have "decode_features j = Some (drawData w)" by (simp add: stored_features_def)
    with Some st \<open>mapRef w = Some m\<close> show ?thesis
      by (auto simp: onLoad_def quiet_def draw_set_def draw_getAll_def Let_def
               split: option.splits if_splits)
  qed
qed

text \<open>After a drawing interaction, \<open>drawData\<close> is the store as the interaction left it.\<close>

lemma interact_drawData:
  "mapRef w = Some m \<Longrightarrow> draw m = Some ws \<Longrightarrow> drawData (interact ra change ev w) = change ws"
  by (simp add: interact_def updateMap_Some)

text \<open>On a live store, the invariant says the store has the list's shapes.\<close>

lemma live_store_shape:
  assumes "sys_inv ra w" and "live_store w = Some ws"
  obtains m where "mapRef w = Some m" and "draw m = Some ws"
    and "map shape ws = map shape (drawData w)"
proof -
  from assms(2) obtain m where m: "mapRef w = Some m" and ws: "draw m = Some ws"
    and "map_loaded w"
    by (auto simp: live_store_def split: option.splits if_splits)
  with assms(1) have "map shape ws = map shape (drawData w)"
    by (simp add: sys_inv_def store_ok_def)
  with m ws show ?thesis by (rule that)
qed

lemma list_refines_collection:
  assumes "sys_inv ra w" and "enabled e w" and "world_step ra e w = Inr w'"
  shows "map shape (drawData w') = abs_step e (map shape (drawData w))"
proof (cases e)
  case (UserDraw f)
  with assms obtain ws where "live_store w = Some ws" by (auto split: option.splits)
  with assms(1) obtain m where "mapRef w = Some m" "draw m = Some ws"
    and "map shape ws = map shape (drawData w)" by (rule live_store_shape)
  with assms(3) UserDraw show ?thesis by (auto simp: interact_drawData ui_create_def)
next
  case (UserEdit i g)
  with assms obtain ws where "live_store w = Some ws" by (auto split: option.splits)
  with assms(1) obtain m where "mapRef w = Some m" "draw m = Some ws"
    and "map shape ws = map shape (drawData w)" by (rule live_store_shape)
  with assms(3) UserEdit show ?thesis by (auto simp: interact_drawData shape_ui_update)
next
  case (UserTrash ids)
  with assms obtain ws where "live_store w = Some ws" by (auto split: option.splits)
  with assms(1) obtain m where "mapRef w = Some m" "draw m = Some ws"
    and "map shape ws = map shape (drawData w)" by (rule live_store_shape)
  with assms(3) UserTrash show ?thesis by (auto simp: interact_drawData shape_ui_trash)
next
  case MapLoad
  from assms(3) have "world_step ra MapLoad w = Inr w'" unfolding MapLoad .
  with assms(1) have "drawData w' = drawData w" by (rule load_keeps_drawData)
  with MapLoad show ?thesis by simp
next
  case (Mount c)
  with assms show ?thesis by auto
next
  case (LineColorInput c)
  with assms show ?thesis by (auto simp: on_map_def)
next
  case (FillColorInput c)
  with assms show ?thesis by (auto simp: on_map_def)
next
  case (ListDelete i)
  with assms show ?thesis by (auto simp: shape_filter_id)
next
  case ListClear
  with assms show ?thesis by auto
next
  case Unmount
  with assms show ?thesis by (auto simp: on_map_def)
qed

subsection \<open>Ids stay distinct\<close>

lemma abs_step_distinct:
  assumes "distinct (map fst c)"
    and "\<And>f. e = UserDraw f \<Longrightarrow> feature_id f \<notin> fst ` set c"
  shows "distinct (map fst (abs_step e c))"
proof (cases e)
  case (UserDraw f)
  with assms show ?thesis by (simp add: shape_def)
next
  case (UserEdit i g)
  have "map fst (abs_step e c) = map fst c"
    using UserEdit by (induction c) auto
  then show ?thesis using assms(1) by (simp only:)
next
  case (UserTrash ids)
  with assms show ?thesis by (simp add: distinct_map_filter)
next
  case (ListDelete i)
  with assms show ?thesis by (simp add: distinct_map_filter)
qed (use assms(1) in simp_all)

lemma step_distinct:
  assumes inv: "sys_inv ra w" and d: "distinct (map feature_id (drawData w))"
    and en: "enabled e w" and st: "world_step ra e w = Inr w'"
  shows "distinct (map feature_id (drawData w'))"
proof -
  have fresh: "feature_id f \<notin> fst ` set (map shape (drawData w))" if "e = UserDraw f" for f
  proof -
    from en that obtain ws where ls: "live_store w = Some ws" and "feature_id f \<notin> feature_id ` set ws"
      by (auto split: option.splits)
    moreover from inv ls obtain m where "map shape ws = map shape (drawData w)"
      by (rule live_store_shape)
    then have "feature_id ` set ws = fst ` set (map shape (drawData w))"
      by (metis ids_shape list.set_map)
    ultimately show ?thesis by simp
  qed
  from d have "distinct (map fst (map shape (drawData w)))" by (simp add: fst_comp_shape)
  then have "distinct (map fst (abs_step e (map shape (drawData w))))"
    using fresh by (rule abs_step_distinct)
  moreover have "map fst (map shape (drawData w')) = map fst (abs_step e (map shape (drawData w)))"
    by (simp only: list_refines_collection [OF inv en st])
  ultimately have "distinct (map fst (map shape (drawData w')))" by (simp only:)
  then show ?thesis by (simp add: fst_comp_shape)
qed

lemma run_distinct:
  "sys_inv ra w \<Longrightarrow> distinct (map feature_id (drawData w)) \<Longrightarrow> run ra es w = Inr w' \<Longrightarrow>
   sys_inv ra w' \<and> distinct (map feature_id (drawData w'))"
proof (induction es arbitrary: w)
  case Nil
  then show ?case by simp
next
  case (Cons e es)
  show ?case
  proof (cases "enabled e w")
    case True
    with Cons.prems obtain w1 where w1: "world_step ra e w = Inr w1" and r: "run ra es w1 = Inr w'"
      by (auto split: sum.splits)
    from Cons.prems(1) True w1 have "sys_inv ra w1" by (rule sys_inv_step)
    moreover from Cons.prems(1,2) True w1 have "distinct (map feature_id (drawData w1))"
      by (rule step_distinct)
    ultimately show ?thesis using r by (rule Cons.IH)
  next
    case False
    with Cons show ?thesis by simp
  qed
qed

end
