(* ===== verification/Json_Text.thy ===== *)
theory Json_Text
  imports Json_Codec
begin

text \<open>
  The text layer of the \<open>'user_drawings'\<close> entry, left to the JavaScript runtime by
  \<open>Json_Codec\<close>: \<open>JSON.stringify\<close> as a printer of JSON values (numbers as
  ECMAScript's \<open>Number::toString\<close>, strings as \<open>QuoteJSONString\<close>), \<open>JSON.parse\<close> as a
  fuel-bounded recursive descent, and the feature list an entry's text denotes.
  The lemmas prove that parsing what was printed gives the value back, with every number
  in the form of a JavaScript number, and that the fuel \<open>json_parse\<close> gives is enough.
\<close>

section \<open>Numbers\<close>

definition is_digit :: "char \<Rightarrow> bool" where
  "is_digit c \<longleftrightarrow> 48 \<le> (of_char c :: nat) \<and> (of_char c :: nat) \<le> 57"

definition digit_char :: "nat \<Rightarrow> char" where
  "digit_char d = char_of (48 + d)"

fun nat_digits :: "nat \<Rightarrow> string" where
  "nat_digits n = (if n < 10 then [digit_char n] else nat_digits (n div 10) @ [digit_char (n mod 10)])"

definition digits_value :: "string \<Rightarrow> nat" where
  "digits_value ds = foldl (\<lambda>n c. 10 * n + (of_char c - 48)) 0 ds"

fun strip_zeros :: "nat \<Rightarrow> nat \<times> nat" where
  "strip_zeros a =
     (if a \<noteq> 0 \<and> a mod 10 = 0 then (let (s, z) = strip_zeros (a div 10) in (s, Suc z)) else (a, 0))"

fun canon_aux :: "int \<Rightarrow> nat \<Rightarrow> decimal" where
  "canon_aux m 0 = Dec m 0"
| "canon_aux m (Suc e) = (if m mod 10 = 0 then canon_aux (m div 10) e else Dec m (Suc e))"

definition canon_dec :: "decimal \<Rightarrow> decimal" where
  "canon_dec d = (case d of Dec m e \<Rightarrow> canon_aux m e)"

definition mk_dec :: "int \<Rightarrow> nat \<Rightarrow> int \<Rightarrow> decimal" where
  "mk_dec sg M t =
     (if 0 \<le> t then Dec (sg * int M * 10 ^ nat t) 0 else Dec (sg * int M) (nat (- t)))"

text \<open>
  \<open>Number::toString\<close> in radix 10 (ECMA-262, 6.1.6.1.20), which \<open>JSON.stringify\<close> uses
  for a finite number: with \<open>s\<close> the digits without trailing zeros (\<open>k\<close> of them) and
  \<open>n\<close> the position of the decimal point, plain digits up to \<open>21\<close> integer digits,
  \<open>0.000ddd\<close> down to \<open>10^-6\<close>, the exponent form otherwise.
\<close>

definition exp_form :: "string \<Rightarrow> int \<Rightarrow> string" where
  "exp_form sd x =
     hd sd # (if tl sd = [] then [] else CHR ''.'' # tl sd) @
     CHR ''e'' # (if x < 0 then CHR ''-'' else CHR ''+'') # nat_digits (nat \<bar>x\<bar>)"

definition print_magnitude :: "nat \<Rightarrow> nat \<Rightarrow> string" where
  "print_magnitude a e =
     (if a = 0 then ''0'' else
      let sd = nat_digits (fst (strip_zeros a)); ks = int (length sd);
          n = int (length (nat_digits a)) - int e
      in if ks \<le> n \<and> n \<le> 21 then sd @ replicate (nat (n - ks)) (CHR ''0'')
         else if 0 < n \<and> n \<le> 21 then take (nat n) sd @ CHR ''.'' # drop (nat n) sd
         else if -6 < n \<and> n \<le> 0 then ''0.'' @ replicate (nat (- n)) (CHR ''0'') @ sd
         else exp_form sd (n - 1))"

definition print_number :: "decimal \<Rightarrow> string" where
  "print_number d =
     (case d of Dec m e \<Rightarrow> (if m < 0 then ''-'' else []) @ print_magnitude (nat \<bar>m\<bar>) e)"

text \<open>
  The number grammar of \<open>JSON.parse\<close>: \<open>-? (0 | [1-9][0-9]*) (. [0-9]+)? ([eE] [+-]? [0-9]+)?\<close>.
  The digits \<open>M\<close> with the exponent \<open>t\<close> of their last digit are read into the
  decimal \<open>M * 10^t\<close>, which \<open>canon_dec\<close> puts in the form of a JavaScript number
  (no trailing zeros after the point).
\<close>

definition parse_frac :: "string \<Rightarrow> (string \<times> string) option" where
  "parse_frac s =
     (case s of
        c # r \<Rightarrow>
          if c = CHR ''.'' then
            (let fp = takeWhile is_digit r in if fp = [] then None else Some (fp, dropWhile is_digit r))
          else Some ([], s)
      | [] \<Rightarrow> Some ([], []))"

definition parse_exp :: "string \<Rightarrow> (int \<times> string) option" where
  "parse_exp s =
     (case s of
        c # r \<Rightarrow>
          if c = CHR ''e'' \<or> c = CHR ''E'' then
            (let (sg, r1) = (case r of
                               d # r' \<Rightarrow> if d = CHR ''+'' then (1, r')
                                         else if d = CHR ''-'' then (-1, r') else (1, r)
                             | [] \<Rightarrow> (1, r));
                 ds = takeWhile is_digit r1
             in if ds = [] then None else Some (sg * int (digits_value ds), dropWhile is_digit r1))
          else Some (0, s)
      | [] \<Rightarrow> Some (0, []))"

definition parse_unsigned :: "string \<Rightarrow> (nat \<times> int \<times> string) option" where
  "parse_unsigned s =
     (let ip = takeWhile is_digit s in
      if ip = [] \<or> (hd ip = CHR ''0'' \<and> tl ip \<noteq> []) then None
      else do {
        (fp, s3) \<leftarrow> parse_frac (dropWhile is_digit s);
        (x, s4) \<leftarrow> parse_exp s3;
        Some (digits_value (ip @ fp), x - int (length fp), s4)
      })"

definition parse_number :: "string \<Rightarrow> (decimal \<times> string) option" where
  "parse_number s =
     (let (sg, s1) = (case s of c # r \<Rightarrow> if c = CHR ''-'' then (-1, r) else (1, s) | [] \<Rightarrow> (1, s))
      in map_option (\<lambda>(M, t, r). (canon_dec (mk_dec sg M t), r)) (parse_unsigned s1))"

definition number_end :: "string \<Rightarrow> bool" where
  "number_end r =
     (case r of [] \<Rightarrow> True | c # _ \<Rightarrow> \<not> is_digit c \<and> c \<noteq> CHR ''.'' \<and> c \<noteq> CHR ''e'' \<and> c \<noteq> CHR ''E'')"

section \<open>Strings\<close>

text \<open>
  \<open>QuoteJSONString\<close> (ECMA-262, 25.5.2.3): the seven characters with a short escape,
  the other control characters as \<open>\u00xx\<close> in lower-case hexadecimal, every other
  character as itself. Characters are the 8-bit \<open>char\<close> of HOL: a JavaScript string
  of code units beyond 255 is outside the model.
\<close>

definition short_escape :: "char \<Rightarrow> char option" where
  "short_escape c =
     (if c = CHR 0x22 then Some (CHR 0x22) else if c = CHR 0x5C then Some (CHR 0x5C)
      else if c = CHR 0x08 then Some (CHR ''b'') else if c = CHR 0x09 then Some (CHR ''t'')
      else if c = CHR 0x0A then Some (CHR ''n'') else if c = CHR 0x0C then Some (CHR ''f'')
      else if c = CHR 0x0D then Some (CHR ''r'') else None)"

definition hex_digit :: "nat \<Rightarrow> char" where
  "hex_digit d = (if d < 10 then char_of (48 + d) else char_of (87 + d))"

definition escape_char :: "char \<Rightarrow> string" where
  "escape_char c =
     (case short_escape c of
        Some e \<Rightarrow> [CHR 0x5C, e]
      | None \<Rightarrow>
          if (of_char c :: nat) < 32
          then [CHR 0x5C, CHR ''u'', CHR ''0'', CHR ''0'',
                hex_digit (of_char c div 16), hex_digit (of_char c mod 16)]
          else [c])"

definition print_string :: "string \<Rightarrow> string" where
  "print_string s = CHR 0x22 # concat (map escape_char s) @ [CHR 0x22]"

text \<open>
  The string grammar of \<open>JSON.parse\<close>: no raw control character, the escapes
  \<open>\" \\ \/ \b \f \n \r \t\<close> and \<open>\uXXXX\<close> (either case of hexadecimal).
\<close>

definition unescape :: "char \<Rightarrow> char option" where
  "unescape e =
     (if e = CHR 0x22 then Some (CHR 0x22) else if e = CHR 0x5C then Some (CHR 0x5C)
      else if e = CHR ''/'' then Some (CHR ''/'')
      else if e = CHR ''b'' then Some (CHR 0x08) else if e = CHR ''t'' then Some (CHR 0x09)
      else if e = CHR ''n'' then Some (CHR 0x0A) else if e = CHR ''f'' then Some (CHR 0x0C)
      else if e = CHR ''r'' then Some (CHR 0x0D) else None)"

definition hex_value :: "char \<Rightarrow> nat option" where
  "hex_value c =
     (let n = of_char c in
      if 48 \<le> n \<and> n \<le> 57 then Some (n - 48)
      else if 97 \<le> n \<and> n \<le> 102 then Some (n - 87)
      else if 65 \<le> n \<and> n \<le> 70 then Some (n - 55) else None)"

definition hex4 :: "char \<Rightarrow> char \<Rightarrow> char \<Rightarrow> char \<Rightarrow> nat option" where
  "hex4 h1 h2 h3 h4 = do {
     v1 \<leftarrow> hex_value h1; v2 \<leftarrow> hex_value h2; v3 \<leftarrow> hex_value h3; v4 \<leftarrow> hex_value h4;
     Some (((v1 * 16 + v2) * 16 + v3) * 16 + v4) }"

definition cons_char :: "char \<Rightarrow> (string \<times> string) option \<Rightarrow> (string \<times> string) option" where
  "cons_char c = map_option (\<lambda>(s, r). (c # s, r))"

fun parse_chars :: "string \<Rightarrow> (string \<times> string) option" where
  "parse_chars [] = None"
| "parse_chars (c # r) =
     (if c = CHR 0x22 then Some ([], r)
      else if c = CHR 0x5C then
        (case r of
           [] \<Rightarrow> None
         | e # r' \<Rightarrow>
             if e = CHR ''u'' then
               (case r' of
                  h1 # h2 # h3 # h4 # r'' \<Rightarrow>
                    (case hex4 h1 h2 h3 h4 of
                       Some v \<Rightarrow> if v < 256 then cons_char (char_of v) (parse_chars r'') else None
                     | None \<Rightarrow> None)
                | _ \<Rightarrow> None)
             else (case unescape e of Some d \<Rightarrow> cons_char d (parse_chars r') | None \<Rightarrow> None))
      else if (of_char c :: nat) < 32 then None
      else cons_char c (parse_chars r))"

section \<open>Values\<close>

text \<open>\<open>JSON.stringify\<close> without indentation: elements and members joined by commas.\<close>

definition comma_list :: "string list \<Rightarrow> string" where
  "comma_list xs = (case xs of [] \<Rightarrow> [] | x # ys \<Rightarrow> x @ concat (map (\<lambda>y. CHR '','' # y) ys))"

fun print_json :: "json \<Rightarrow> string" where
  "print_json JNull = ''null''"
| "print_json (JBool b) = (if b then ''true'' else ''false'')"
| "print_json (JNum d) = print_number d"
| "print_json (JStr s) = print_string s"
| "print_json (JArr js) = CHR ''['' # comma_list (map print_json js) @ '']''"
| "print_json (JObj kvs) =
     CHR ''{'' # comma_list (map (\<lambda>(k, v). print_string k @ CHR '':'' # print_json v) kvs) @ ''}''"

text \<open>
  \<open>JSON.parse\<close> as a recursive descent over the text with the whitespace JSON allows
  between tokens. A member whose key was seen before replaces the earlier value in its
  place (\<open>AList.update\<close>), as a JavaScript object does. The descent is bounded by a fuel
  argument, one unit per value, element and member; \<open>json_parse\<close> gives it one more
  unit than the text has characters.
\<close>

definition print_member :: "string \<times> json \<Rightarrow> string" where
  "print_member m = (case m of (k, v) \<Rightarrow> print_string k @ CHR '':'' # print_json v)"

definition is_ws :: "char \<Rightarrow> bool" where
  "is_ws c \<longleftrightarrow> c = CHR '' '' \<or> c = CHR 0x09 \<or> c = CHR 0x0A \<or> c = CHR 0x0D"

fun skip_ws :: "string \<Rightarrow> string" where
  "skip_ws [] = []"
| "skip_ws (c # r) = (if is_ws c then skip_ws r else c # r)"

fun parse_value :: "nat \<Rightarrow> string \<Rightarrow> (json \<times> string) option"
and parse_elems :: "nat \<Rightarrow> string \<Rightarrow> (json list \<times> string) option"
and parse_members :: "nat \<Rightarrow> (string \<times> json) list \<Rightarrow> string \<Rightarrow> ((string \<times> json) list \<times> string) option"
where
  "parse_value 0 s = None"
| "parse_value (Suc n) s =
     (case skip_ws s of
        [] \<Rightarrow> None
      | c # r \<Rightarrow>
          if c = CHR ''n'' then (if take 3 r = ''ull'' then Some (JNull, drop 3 r) else None)
          else if c = CHR ''t'' then (if take 3 r = ''rue'' then Some (JBool True, drop 3 r) else None)
          else if c = CHR ''f'' then (if take 4 r = ''alse'' then Some (JBool False, drop 4 r) else None)
          else if c = CHR 0x22 then map_option (\<lambda>(str, r'). (JStr str, r')) (parse_chars r)
          else if c = CHR ''['' then
            (case skip_ws r of
               [] \<Rightarrow> None
             | c' # r' \<Rightarrow>
                 if c' = CHR '']'' then Some (JArr [], r')
                 else map_option (\<lambda>(js, r''). (JArr js, r'')) (parse_elems n r))
          else if c = CHR ''{'' then
            (case skip_ws r of
               [] \<Rightarrow> None
             | c' # r' \<Rightarrow>
                 if c' = CHR ''}'' then Some (JObj [], r')
                 else map_option (\<lambda>(kvs, r''). (JObj kvs, r'')) (parse_members n [] r))
          else map_option (\<lambda>(d, r'). (JNum d, r')) (parse_number (c # r)))"
| "parse_elems 0 s = None"
| "parse_elems (Suc n) s =
     (case parse_value n s of
        None \<Rightarrow> None
      | Some (j, r) \<Rightarrow>
          (case skip_ws r of
             [] \<Rightarrow> None
           | c # r' \<Rightarrow>
               if c = CHR '','' then map_option (\<lambda>(js, r''). (j # js, r'')) (parse_elems n r')
               else if c = CHR '']'' then Some ([j], r')
               else None))"
| "parse_members 0 acc s = None"
| "parse_members (Suc n) acc s =
     (case skip_ws s of
        [] \<Rightarrow> None
      | c # r \<Rightarrow>
          if c \<noteq> CHR 0x22 then None
          else
            (case parse_chars r of
               None \<Rightarrow> None
             | Some (k, r1) \<Rightarrow>
                 (case skip_ws r1 of
                    [] \<Rightarrow> None
                  | c1 # r2 \<Rightarrow>
                      if c1 \<noteq> CHR '':'' then None
                      else
                        (case parse_value n r2 of
                           None \<Rightarrow> None
                         | Some (v, r3) \<Rightarrow>
                             (case skip_ws r3 of
                                [] \<Rightarrow> None
                              | c3 # r4 \<Rightarrow>
                                  if c3 = CHR '','' then parse_members n (AList.update k v acc) r4
                                  else if c3 = CHR ''}'' then Some (AList.update k v acc, r4)
                                  else None)))))"

definition json_parse :: "string \<Rightarrow> json option" where
  "json_parse s =
     (case parse_value (Suc (length s)) s of
        None \<Rightarrow> None
      | Some (j, r) \<Rightarrow> if skip_ws r = [] then Some j else None)"

text \<open>
  What the round trip preserves: numbers come back in the form of a JavaScript number
  (\<open>canon_json\<close>), and every object has distinct keys (\<open>json_wf\<close>), as a JavaScript
  object has. \<open>jsize\<close> counts the values, elements and members: the fuel a value needs.
\<close>

fun canon_json :: "json \<Rightarrow> json" where
  "canon_json (JNum d) = JNum (canon_dec d)"
| "canon_json (JArr js) = JArr (map canon_json js)"
| "canon_json (JObj kvs) = JObj (map (\<lambda>(k, v). (k, canon_json v)) kvs)"
| "canon_json j = j"

fun json_wf :: "json \<Rightarrow> bool" where
  "json_wf (JArr js) = (\<forall>j \<in> set js. json_wf j)"
| "json_wf (JObj kvs) = (distinct (map fst kvs) \<and> (\<forall>(k, v) \<in> set kvs. json_wf v))"
| "json_wf j = True"

fun jsize :: "json \<Rightarrow> nat" where
  "jsize (JArr js) = Suc (sum_list (map (\<lambda>j. Suc (jsize j)) js))"
| "jsize (JObj kvs) = Suc (sum_list (map (\<lambda>(k, v). Suc (jsize v)) kvs))"
| "jsize j = 1"

definition value_end :: "string \<Rightarrow> bool" where
  "value_end r = (case r of [] \<Rightarrow> True | c # _ \<Rightarrow> c = CHR '','' \<or> c = CHR '']'' \<or> c = CHR ''}'')"

section \<open>Numeric values and canonical features\<close>

text \<open>
  The number a decimal denotes; \<open>canon_feature\<close> is a drawing with every coordinate
  in the form a JavaScript number prints in, which is what reading the entry back gives.
\<close>

definition dec_value :: "decimal \<Rightarrow> real" where
  "dec_value d = (case d of Dec m e \<Rightarrow> of_int m / 10 ^ e)"

definition canon_position :: "position \<Rightarrow> position" where
  "canon_position p = (canon_dec (fst p), canon_dec (snd p))"

fun canon_geom :: "geom \<Rightarrow> geom" where
  "canon_geom (LineString ps) = LineString (map canon_position ps)"
| "canon_geom (Polygon rs) = Polygon (map (map canon_position) rs)"

definition canon_feature :: "feature \<Rightarrow> feature" where
  "canon_feature f = f\<lparr>geometry := canon_geom (geometry f)\<rparr>"

definition position_value :: "position \<Rightarrow> real \<times> real" where
  "position_value p = (dec_value (fst p), dec_value (snd p))"

fun geom_values :: "geom \<Rightarrow> (real \<times> real) list list" where
  "geom_values (LineString ps) = [map position_value ps]"
| "geom_values (Polygon rs) = map (map position_value) rs"

section \<open>The entry as text\<close>

text \<open>
  The feature list the text of the \<open>'user_drawings'\<close> entry denotes, with which the
  round trips of the text are stated: a missing entry and the empty string (falsy for
  both components) denote no drawings; any other text goes through \<open>JSON.parse\<close> and
  is read as a feature list of the model (\<open>decode_features\<close>), \<open>None\<close> when either
  fails. It is not a handler of the page: the handlers over the text are
  \<open>Entry_Text.initial_drawData_text\<close> and \<open>Entry_Text.onLoad_text\<close>.
  \<open>feature_view\<close> is what a drawing is up to the notation of its numbers.
\<close>

definition read_entry_text :: "string option \<Rightarrow> feature list option" where
  "read_entry_text st =
     (case st of
        None \<Rightarrow> Some []
      | Some s \<Rightarrow> if s = [] then Some [] else Option.bind (json_parse s) decode_features)"

definition feature_view :: "feature \<Rightarrow> feature_id \<times> (real \<times> real) list list \<times> (string \<times> string) list" where
  "feature_view f = (feature_id f, geom_values (geometry f), properties f)"

section \<open>Lemmas\<close>

declare nat_digits.simps [simp del]

lemma digits_value_append:
  "digits_value (xs @ ys) = digits_value xs * 10 ^ length ys + digits_value ys"
proof (induction ys rule: rev_induct)
  case Nil show ?case by (simp add: digits_value_def)
next
  case (snoc y ys) then show ?case by (simp add: digits_value_def algebra_simps)
qed

lemma digits_value_zeros [simp]: "digits_value (replicate k (CHR ''0'')) = 0"
  by (induction k) (simp_all add: digits_value_def replicate_append_same [symmetric] del: replicate_append_same)

lemma digit_char_value [simp]: "d < 10 \<Longrightarrow> of_char (digit_char d) - 48 = d"
  by (simp add: digit_char_def)

lemma digit_char_is_digit [simp]: "d < 10 \<Longrightarrow> is_digit (digit_char d)"
  by (simp add: digit_char_def is_digit_def)

lemma digits_value_single [simp]: "d < 10 \<Longrightarrow> digits_value [digit_char d] = d"
  by (simp add: digits_value_def)

lemma nat_digits_value [simp]: "digits_value (nat_digits n) = n"
proof (induction n rule: nat_digits.induct)
  case (1 n)
  show ?case
  proof (cases "n < 10")
    case True then show ?thesis by (subst nat_digits.simps) simp
  next
    case False
    then have "digits_value (nat_digits (n div 10)) = n div 10" using "1.IH" by blast
    with False show ?thesis by (subst nat_digits.simps) (simp add: digits_value_append)
  qed
qed

lemma nat_digits_is_digit: "c \<in> set (nat_digits n) \<Longrightarrow> is_digit c"
proof (induction n rule: nat_digits.induct)
  case (1 n)
  show ?case
  proof (cases "n < 10")
    case True with "1.prems" show ?thesis by (subst (asm) nat_digits.simps) simp
  next
    case False with 1 show ?thesis by (subst (asm) nat_digits.simps) auto
  qed
qed

lemma nat_digits_ne [simp]: "nat_digits n \<noteq> []"
  by (subst nat_digits.simps) simp

lemma nat_digits_hd_zero: "nat_digits n = CHR ''0'' # r \<Longrightarrow> n = 0"
proof (induction n arbitrary: r rule: nat_digits.induct)
  case (1 n)
  show ?case
  proof (cases "n < 10")
    case True
    with "1.prems" have "of_char (digit_char n) = (of_char (CHR ''0'') :: nat)"
      by (subst (asm) nat_digits.simps) simp
    with True show ?thesis by (simp add: digit_char_def)
  next
    case False
    with "1.prems" obtain r' where "nat_digits (n div 10) = CHR ''0'' # r'"
      by (subst (asm) nat_digits.simps) (cases "nat_digits (n div 10)"; simp)
    with "1.IH" False have "n div 10 = 0" by blast
    with False show ?thesis by simp
  qed
qed

declare strip_zeros.simps [simp del]

lemma strip_zeros_mult: "strip_zeros a = (s, z) \<Longrightarrow> a = s * 10 ^ z"
proof (induction a arbitrary: s z rule: strip_zeros.induct)
  case (1 a) then show ?case
    by (subst (asm) (2) strip_zeros.simps)
       (auto split: if_splits prod.splits simp: Let_def)
qed

lemma strip_zeros_last: "strip_zeros a = (s, z) \<Longrightarrow> a \<noteq> 0 \<Longrightarrow> s mod 10 \<noteq> 0"
proof (induction a arbitrary: s z rule: strip_zeros.induct)
  case (1 a) then show ?case
    by (subst (asm) (2) strip_zeros.simps)
       (auto split: if_splits prod.splits simp: Let_def)
qed

lemma canon_aux_shift: "canon_aux (m * 10 ^ j) (e + j) = canon_aux m e"
  by (induction j) (simp_all add: mult.assoc [symmetric])

lemma digits_split_hd:
  "\<forall>c\<in>set ds. is_digit c \<Longrightarrow> r \<noteq> [] \<Longrightarrow> \<not> is_digit (hd r) \<Longrightarrow>
   takeWhile is_digit (ds @ r) = ds \<and> dropWhile is_digit (ds @ r) = r"
  by (cases r) (simp_all add: takeWhile_append2 dropWhile_append2)

lemma digit_char_0 [simp]: "digit_char 0 = CHR ''0''"
  by (simp add: digit_char_def) code_simp

lemma nat_digits_times10: "0 < x \<Longrightarrow> nat_digits (x * 10) = nat_digits x @ [CHR ''0'']"
  by (subst nat_digits.simps) simp

lemma nat_digits_pow10:
  "0 < s \<Longrightarrow> nat_digits (s * 10 ^ z) = nat_digits s @ replicate z (CHR ''0'')"
proof (induction z)
  case (Suc z)
  have "nat_digits (s * 10 ^ Suc z) = nat_digits (s * 10 ^ z * 10)" by (simp add: ac_simps)
  also have "\<dots> = nat_digits (s * 10 ^ z) @ [CHR ''0'']" using Suc.prems by (simp add: nat_digits_times10)
  finally show ?case using Suc by (simp add: replicate_append_same [symmetric] del: replicate_append_same)
qed simp

lemma digits_split:
  "\<forall>c\<in>set ds. is_digit c \<Longrightarrow> (case r of [] \<Rightarrow> True | c # _ \<Rightarrow> \<not> is_digit c) \<Longrightarrow>
   takeWhile is_digit (ds @ r) = ds \<and> dropWhile is_digit (ds @ r) = r"
  by (cases r) (simp_all add: takeWhile_append2 dropWhile_append2)

lemma digits_value_zeros_left [simp]:
  "digits_value (replicate k (CHR ''0'') @ ds) = digits_value ds"
  by (simp add: digits_value_append)

lemma digits_value_zeros_right [simp]:
  "digits_value (ds @ replicate k (CHR ''0'')) = digits_value ds * 10 ^ k"
  by (simp add: digits_value_append)

lemma zero_char_is_digit [simp]: "is_digit (CHR ''0'')"
  by (simp add: is_digit_def)

lemma punct_not_digit [simp]:
  "\<not> is_digit (CHR ''.'')" "\<not> is_digit (CHR ''e'')" "\<not> is_digit (CHR ''-'')"
  "\<not> is_digit (CHR ''+'')"
  by (simp_all add: is_digit_def)

lemma number_end_digit_end:
  "number_end r \<Longrightarrow> (case r of [] \<Rightarrow> True | c # _ \<Rightarrow> \<not> is_digit c)"
  by (cases r) (simp_all add: number_end_def)

lemma number_end_frac_exp:
  "number_end r \<Longrightarrow> parse_frac r = Some ([], r) \<and> parse_exp r = Some (0, r)"
  by (cases r) (simp_all add: number_end_def parse_frac_def parse_exp_def)

lemma nat_digits_hd: "0 < s \<Longrightarrow> hd (nat_digits s) \<noteq> CHR ''0''"
  using nat_digits_hd_zero [of s "tl (nat_digits s)"] nat_digits_ne [of s]
  by (cases "nat_digits s") auto

lemma nat_digits_all_digits: "\<forall>c\<in>set (nat_digits n). is_digit c"
  using nat_digits_is_digit by blast

lemma parse_plain_digits:
  assumes "0 < s" "number_end r"
  shows "parse_unsigned (nat_digits s @ replicate j (CHR ''0'') @ r) = Some (s * 10 ^ j, 0, r)"
proof -
  let ?P = "nat_digits s @ replicate j (CHR ''0'')"
  have "takeWhile is_digit (?P @ r) = ?P \<and> dropWhile is_digit (?P @ r) = r"
    using nat_digits_all_digits [of s] number_end_digit_end [OF assms(2)]
    by (intro digits_split) auto
  with nat_digits_hd [OF assms(1)] number_end_frac_exp [OF assms(2)] show ?thesis
    by (simp add: parse_unsigned_def)
qed

lemma parse_point_digits:
  assumes "0 < s" "0 < i" "i < length (nat_digits s)" "number_end r"
  shows "parse_unsigned (take i (nat_digits s) @ CHR ''.'' # drop i (nat_digits s) @ r) =
           Some (s, - int (length (nat_digits s) - i), r)"
proof -
  let ?sd = "nat_digits s"
  have ip: "takeWhile is_digit (take i ?sd @ CHR ''.'' # drop i ?sd @ r) = take i ?sd \<and>
            dropWhile is_digit (take i ?sd @ CHR ''.'' # drop i ?sd @ r) = CHR ''.'' # drop i ?sd @ r"
    using nat_digits_all_digits [of s] by (intro digits_split) (auto dest: in_set_takeD)
  have fp: "takeWhile is_digit (drop i ?sd @ r) = drop i ?sd \<and> dropWhile is_digit (drop i ?sd @ r) = r"
    using nat_digits_all_digits [of s] number_end_digit_end [OF assms(4)]
    by (intro digits_split) (auto dest: in_set_dropD)
  have "take i ?sd \<noteq> []" "hd (take i ?sd) \<noteq> CHR ''0''"
    using assms(2) nat_digits_hd [OF assms(1)] by simp_all
  moreover have "drop i ?sd \<noteq> []" using assms(3) by simp
  ultimately show ?thesis using ip fp number_end_frac_exp [OF assms(4)] assms(3)
    by (simp add: parse_unsigned_def parse_frac_def)
qed

lemma parse_small_digits:
  assumes "0 < s" "number_end r"
  shows "parse_unsigned (''0.'' @ replicate j (CHR ''0'') @ nat_digits s @ r) =
           Some (s, - int (j + length (nat_digits s)), r)"
proof -
  let ?F = "replicate j (CHR ''0'') @ nat_digits s"
  have fp: "takeWhile is_digit (?F @ r) = ?F \<and> dropWhile is_digit (?F @ r) = r"
    using nat_digits_all_digits [of s] number_end_digit_end [OF assms(2)]
    by (intro digits_split) auto
  have "?F \<noteq> []" by simp
  moreover have "digits_value (CHR ''0'' # ?F) = s"
    using digits_value_zeros_left [of "Suc j" "nat_digits s"] by simp
  ultimately show ?thesis using fp number_end_frac_exp [OF assms(2)]
    by (simp add: parse_unsigned_def parse_frac_def)
qed

lemma parse_exp_digits:
  assumes "number_end r" "c = CHR ''-'' \<or> c = CHR ''+''"
  shows "parse_exp (CHR ''e'' # c # nat_digits y @ r) =
           Some ((if c = CHR ''-'' then -1 else 1) * int y, r)"
proof -
  have d: "takeWhile is_digit (nat_digits y @ r) = nat_digits y \<and>
           dropWhile is_digit (nat_digits y @ r) = r"
    using nat_digits_all_digits number_end_digit_end [OF assms(1)] by (intro digits_split) auto
  from assms(2) show ?thesis
  proof
    assume "c = CHR ''-''" with d show ?thesis by (simp add: parse_exp_def)
  next
    assume "c = CHR ''+''" with d show ?thesis by (simp add: parse_exp_def)
  qed
qed

lemma parse_exp_signed:
  assumes "number_end r"
  shows "parse_exp (CHR ''e'' # (if x < 0 then CHR ''-'' else CHR ''+'') # nat_digits (nat \<bar>x\<bar>) @ r) =
           Some (x, r)"
  using parse_exp_digits [OF assms, of "if x < 0 then CHR ''-'' else CHR ''+''" "nat \<bar>x\<bar>"]
  by (cases "x < 0") simp_all

lemma parse_exp_form:
  assumes "0 < s" "number_end r"
  shows "parse_unsigned (exp_form (nat_digits s) x @ r) =
           Some (s, x - int (length (nat_digits s) - 1), r)"
proof -
  let ?sd = "nat_digits s"
  define E where "E = CHR ''e'' # (if x < 0 then CHR ''-'' else CHR ''+'') # nat_digits (nat \<bar>x\<bar>) @ r"
  define FR where "FR = (if tl ?sd = [] then [] else CHR ''.'' # tl ?sd)"
  have sd: "?sd = hd ?sd # tl ?sd" using nat_digits_ne [of s] by simp
  have hd: "is_digit (hd ?sd)" using nat_digits_all_digits [of s] nat_digits_ne [of s] by simp
  have str: "exp_form ?sd x @ r = [hd ?sd] @ (FR @ E)" by (simp add: exp_form_def E_def FR_def)
  have E: "hd E = CHR ''e''" "E \<noteq> []" by (simp_all add: E_def)
  have FRE: "FR @ E \<noteq> [] \<and> \<not> is_digit (hd (FR @ E))" using E by (simp add: FR_def)
  have ip: "takeWhile is_digit ([hd ?sd] @ (FR @ E)) = [hd ?sd]"
       "dropWhile is_digit ([hd ?sd] @ (FR @ E)) = FR @ E"
    using hd FRE digits_split_hd [of "[hd ?sd]" "FR @ E"] by auto
  have fr: "parse_frac (FR @ E) = Some (tl ?sd, E)"
  proof (cases "tl ?sd = []")
    case True then show ?thesis using E by (auto simp: parse_frac_def FR_def neq_Nil_conv)
  next
    case False
    have "takeWhile is_digit (tl ?sd @ E) = tl ?sd \<and> dropWhile is_digit (tl ?sd @ E) = E"
      using nat_digits_all_digits [of s] E by (intro digits_split) (cases ?sd; auto simp: neq_Nil_conv)+
    with False show ?thesis by (simp add: parse_frac_def FR_def)
  qed
  have pe: "parse_exp E = Some (x, r)" unfolding E_def by (rule parse_exp_signed [OF assms(2)])
  have v: "digits_value ([hd ?sd] @ tl ?sd) = s" using sd nat_digits_value [of s] by simp
  have l: "int (length (tl ?sd)) = int (length ?sd - 1)" by simp
  show ?thesis
    unfolding str parse_unsigned_def Let_def ip
    using fr pe v l by simp
qed

lemma parse_magnitude:
  assumes "0 < a" "strip_zeros a = (s, z)" "number_end r"
  shows "\<exists>M t. parse_unsigned (print_magnitude a e @ r) = Some (M, t, r) \<and>
               (\<forall>sg. mk_dec sg M t = mk_dec sg s (int z - int e))"
proof -
  have a: "a = s * 10 ^ z" by (rule strip_zeros_mult [OF assms(2)])
  with assms(1) have s: "0 < s" by (cases s) auto
  define sd where "sd = nat_digits s"
  define ks where "ks = int (length sd)"
  define n where "n = int (length (nat_digits a)) - int e"
  have n_eq: "n = ks + int z - int e"
    using nat_digits_pow10 [OF s, of z] by (simp add: n_def ks_def sd_def a)
  have ks_pos: "0 < ks" by (simp add: ks_def sd_def)
  have pm: "print_magnitude a e =
      (if ks \<le> n \<and> n \<le> 21 then sd @ replicate (nat (n - ks)) (CHR ''0'')
       else if 0 < n \<and> n \<le> 21 then take (nat n) sd @ CHR ''.'' # drop (nat n) sd
       else if -6 < n \<and> n \<le> 0 then ''0.'' @ replicate (nat (- n)) (CHR ''0'') @ sd
       else exp_form sd (n - 1))"
    using assms(1,2) by (simp add: print_magnitude_def Let_def sd_def ks_def n_def)
  consider (A) "ks \<le> n \<and> n \<le> 21" | (B) "\<not> (ks \<le> n \<and> n \<le> 21)" "0 < n \<and> n \<le> 21"
    | (C) "\<not> (ks \<le> n \<and> n \<le> 21)" "\<not> (0 < n \<and> n \<le> 21)" "-6 < n \<and> n \<le> 0"
    | (D) "\<not> (ks \<le> n \<and> n \<le> 21)" "\<not> (0 < n \<and> n \<le> 21)" "\<not> (-6 < n \<and> n \<le> 0)"
    by blast
  then show ?thesis
  proof cases
    case A
    then have j: "nat (n - ks) = z - e" "e \<le> z" using n_eq by simp_all
    have "parse_unsigned (print_magnitude a e @ r) = Some (s * 10 ^ (z - e), 0, r)"
      using A parse_plain_digits [OF s assms(3), of "z - e"] by (simp add: pm j sd_def)
    moreover have "mk_dec sg (s * 10 ^ (z - e)) 0 = mk_dec sg s (int z - int e)" for sg
      using j(2) by (simp add: mk_dec_def nat_diff_distrib)
    ultimately show ?thesis by blast
  next
    case B
    have "0 < n" "n < ks" using B by auto
    then have i: "0 < nat n" "nat n < length sd" by (simp_all add: ks_def nat_less_iff)
    have "parse_unsigned (print_magnitude a e @ r) = Some (s, - int (length sd - nat n), r)"
      using B parse_point_digits [OF s i [unfolded sd_def] assms(3)] by (simp add: pm sd_def)
    moreover have "- int (length sd - nat n) = int z - int e" using B i n_eq by (simp add: ks_def)
    ultimately show ?thesis by auto
  next
    case C
    have "parse_unsigned (print_magnitude a e @ r) = Some (s, - int (nat (- n) + length sd), r)"
      using C parse_small_digits [OF s assms(3), of "nat (- n)"] by (simp add: pm sd_def)
    moreover have "- int (nat (- n) + length sd) = int z - int e" using C n_eq by (simp add: ks_def)
    ultimately show ?thesis by auto
  next
    case D
    have "print_magnitude a e = exp_form sd (n - 1)" unfolding pm by (simp only: D if_False)
    then have "parse_unsigned (print_magnitude a e @ r) = Some (s, (n - 1) - int (length sd - 1), r)"
      using parse_exp_form [OF s assms(3), of "n - 1"] by (simp add: sd_def)
    moreover have "int (length sd - 1) = ks - 1" using ks_pos by (cases sd) (simp_all add: ks_def)
    then have "(n - 1) - int (length sd - 1) = int z - int e" using n_eq by simp
    ultimately show ?thesis by auto
  qed
qed

lemma canon_mk_dec:
  "canon_dec (mk_dec sg s (int z - int e)) = canon_dec (Dec (sg * int (s * 10 ^ z)) e)"
proof (cases "e \<le> z")
  case True
  have "canon_aux (sg * int s * 10 ^ (z - e) * 10 ^ e) (0 + e) = canon_aux (sg * int s * 10 ^ (z - e)) 0"
    by (rule canon_aux_shift)
  moreover have "sg * int s * 10 ^ (z - e) * 10 ^ e = sg * int (s * 10 ^ z)"
    using True by (simp add: mult.assoc power_add [symmetric])
  ultimately show ?thesis using True by (simp add: mk_dec_def canon_dec_def nat_diff_distrib)
next
  case False
  have "canon_aux (sg * int s * 10 ^ z) ((e - z) + z) = canon_aux (sg * int s) (e - z)"
    by (rule canon_aux_shift)
  moreover have "nat (- (int z - int e)) = e - z" using False by simp
  ultimately show ?thesis using False by (simp add: mk_dec_def canon_dec_def mult.assoc)
qed

lemma canon_aux_zero [simp]: "canon_aux 0 e = Dec 0 0"
  by (induction e) simp_all

lemma parse_unsigned_Some_digit: "parse_unsigned s = Some x \<Longrightarrow> s \<noteq> [] \<and> is_digit (hd s)"
  by (cases s) (auto simp: parse_unsigned_def Let_def split: if_splits)

lemma parse_number_unsigned:
  "parse_unsigned s = Some (M, t, r) \<Longrightarrow> parse_number s = Some (canon_dec (mk_dec 1 M t), r)"
  using parse_unsigned_Some_digit [of s "(M, t, r)"]
  by (cases s) (auto simp: parse_number_def)

lemma parse_number_neg:
  "parse_unsigned s = Some (M, t, r) \<Longrightarrow>
   parse_number (CHR ''-'' # s) = Some (canon_dec (mk_dec (-1) M t), r)"
  by (simp add: parse_number_def)

lemma parse_zero: "number_end r \<Longrightarrow> parse_unsigned (''0'' @ r) = Some (0, 0, r)"
  using digits_split [of "''0''" r] number_end_digit_end [of r] number_end_frac_exp [of r]
  by (simp add: parse_unsigned_def digits_value_def)

lemma parse_print_number:
  assumes "number_end r"
  shows "parse_number (print_number d @ r) = Some (canon_dec d, r)"
proof (cases d)
  case (Dec m e)
  show ?thesis
  proof (cases "m = 0")
    case True
    then show ?thesis using parse_number_unsigned [OF parse_zero [OF assms]]
      by (simp add: Dec print_number_def print_magnitude_def mk_dec_def canon_dec_def)
  next
    case False
    obtain s z where sz: "strip_zeros (nat \<bar>m\<bar>) = (s, z)" by fastforce
    have "nat \<bar>m\<bar> = s * 10 ^ z" by (rule strip_zeros_mult [OF sz])
    then have a: "\<bar>m\<bar> = int (s * 10 ^ z)" using arg_cong [of _ _ int] by fastforce
    from False obtain M t where
      p: "parse_unsigned (print_magnitude (nat \<bar>m\<bar>) e @ r) = Some (M, t, r)" and
      mk: "\<And>sg. mk_dec sg M t = mk_dec sg s (int z - int e)"
      using parse_magnitude [OF _ sz assms, of e] by auto
    show ?thesis
    proof (cases "m < 0")
      case True
      have "m = -1 * int (s * 10 ^ z)" using True a by simp
      then show ?thesis using True parse_number_neg [OF p]
        by (simp add: Dec print_number_def mk canon_mk_dec)
    next
      case False
      have "m = 1 * int (s * 10 ^ z)" using False a by simp
      then show ?thesis using False parse_number_unsigned [OF p]
        by (simp add: Dec print_number_def mk canon_mk_dec)
    qed
  qed
qed

lemma short_escape_unescape:
  "short_escape c = Some e \<Longrightarrow> unescape e = Some c \<and> e \<noteq> CHR ''u''"
  by (auto simp: short_escape_def unescape_def split: if_splits)

lemma short_escape_None: "short_escape c = None \<Longrightarrow> c \<noteq> CHR 0x22 \<and> c \<noteq> CHR 0x5C"
  by (auto simp: short_escape_def split: if_splits)

lemma hex_value_digit: "d < 16 \<Longrightarrow> hex_value (hex_digit d) = Some d"
  by (simp add: hex_value_def hex_digit_def)

lemma hex_value_0 [simp]: "hex_value (CHR ''0'') = Some 0"
  by (simp add: hex_value_def)

lemma parse_escape_char: "parse_chars (escape_char c @ rest) = cons_char c (parse_chars rest)"
proof (cases "short_escape c")
  case (Some e)
  then show ?thesis using short_escape_unescape [OF Some] by (simp add: escape_char_def)
next
  case None
  note nq = short_escape_None [OF None]
  show ?thesis
  proof (cases "(of_char c :: nat) < 32")
    case True
    let ?n = "of_char c :: nat"
    have "hex4 (CHR ''0'') (CHR ''0'') (hex_digit (?n div 16)) (hex_digit (?n mod 16)) = Some ?n"
      using True by (simp add: hex4_def hex_value_digit)
    with True None show ?thesis by (simp add: escape_char_def)
  next
    case False
    with None nq show ?thesis by (simp add: escape_char_def)
  qed
qed

lemma parse_print_chars:
  "parse_chars (concat (map escape_char s) @ CHR 0x22 # r) = Some (s, r)"
  by (induction s) (simp_all add: parse_escape_char cons_char_def)

lemma punct_not_ws [simp]:
  "\<not> is_ws (CHR '']'')" "\<not> is_ws (CHR ''}'')" "\<not> is_ws (CHR '','')" "\<not> is_ws (CHR '':'')"
  "\<not> is_ws (CHR ''['')" "\<not> is_ws (CHR ''{'')" "\<not> is_ws (CHR 0x22)" "\<not> is_ws (CHR ''n'')"
  "\<not> is_ws (CHR ''t'')" "\<not> is_ws (CHR ''f'')"
  by (simp_all add: is_ws_def)

lemma digit_not_punct:
  "is_digit c \<Longrightarrow> \<not> is_ws c \<and> c \<noteq> CHR '']'' \<and> c \<noteq> CHR ''}'' \<and> c \<noteq> CHR ''n'' \<and>
     c \<noteq> CHR ''t'' \<and> c \<noteq> CHR ''f'' \<and> c \<noteq> CHR 0x22 \<and> c \<noteq> CHR ''['' \<and> c \<noteq> CHR ''{''"
  by (auto simp: is_digit_def is_ws_def)

lemma value_end_number_end: "value_end r \<Longrightarrow> number_end r"
  by (cases r) (auto simp: value_end_def number_end_def is_digit_def)

lemma value_end_skip [simp]: "value_end r \<Longrightarrow> skip_ws r = r"
  by (cases r) (auto simp: value_end_def is_ws_def)

lemma print_magnitude_start: "\<exists>c t. print_magnitude a e = c # t \<and> is_digit c"
proof (cases "a = 0")
  case True then show ?thesis by (simp add: print_magnitude_def)
next
  case False
  obtain s z where sz: "strip_zeros a = (s, z)" by fastforce
  from False parse_magnitude [OF _ sz, of "[]" e] obtain x
    where "parse_unsigned (print_magnitude a e @ []) = Some x" by (auto simp: number_end_def)
  from parse_unsigned_Some_digit [OF this] show ?thesis by (cases "print_magnitude a e") auto
qed

lemma print_number_start: "\<exists>c t. print_number d = c # t \<and> (c = CHR ''-'' \<or> is_digit c)"
proof (cases d)
  case (Dec m e)
  obtain c t where "print_magnitude (nat \<bar>m\<bar>) e = c # t" "is_digit c"
    using print_magnitude_start by blast
  then show ?thesis by (simp add: Dec print_number_def)
qed

lemma print_json_start:
  "\<exists>c t. print_json j = c # t \<and> \<not> is_ws c \<and> c \<noteq> CHR '']'' \<and> c \<noteq> CHR ''}''"
proof (cases j)
  case (JNum d)
  obtain c t where "print_number d = c # t" "c = CHR ''-'' \<or> is_digit c"
    using print_number_start by blast
  with JNum show ?thesis using digit_not_punct [of c] by (auto simp: is_ws_def)
qed (simp_all add: is_ws_def print_string_def)

lemma skip_print_json [simp]: "skip_ws (print_json j @ r) = print_json j @ r"
  using print_json_start [of j] by auto

lemma parse_value_number:
  assumes "value_end r"
  shows "parse_value (Suc n) (print_number d @ r) = Some (JNum (canon_dec d), r)"
proof -
  obtain c t where ct: "print_number d = c # t" "c = CHR ''-'' \<or> is_digit c"
    using print_number_start by blast
  have "\<not> is_ws c \<and> c \<noteq> CHR ''n'' \<and> c \<noteq> CHR ''t'' \<and> c \<noteq> CHR ''f'' \<and>
        c \<noteq> CHR 0x22 \<and> c \<noteq> CHR ''['' \<and> c \<noteq> CHR ''{''"
    using ct(2) by (elim disjE) (simp add: is_ws_def, use digit_not_punct in blast)
  then have ne: "\<not> is_ws c" "c \<noteq> CHR ''n''" "c \<noteq> CHR ''t''" "c \<noteq> CHR ''f''"
    "c \<noteq> CHR 0x22" "c \<noteq> CHR ''[''" "c \<noteq> CHR ''{''" by simp_all
  have p: "parse_number (c # t @ r) = Some (canon_dec d, r)"
    using parse_print_number [OF value_end_number_end [OF assms], of d] ct(1) by simp
  have "parse_value (Suc n) (c # t @ r) = map_option (\<lambda>(d, r'). (JNum d, r')) (parse_number (c # t @ r))"
    using ne by simp
  with p ct(1) show ?thesis by simp
qed

lemma parse_print_elems:
  assumes "\<And>x n r. x \<in> set (y # ys) \<Longrightarrow> jsize x \<le> n \<Longrightarrow> value_end r \<Longrightarrow>
             parse_value n (print_json x @ r) = Some (canon_json x, r)"
    and "sum_list (map (\<lambda>j. Suc (jsize j)) (y # ys)) \<le> n"
  shows "parse_elems n (print_json y @ concat (map (\<lambda>z. CHR '','' # print_json z) ys) @ CHR '']'' # r) =
           Some (map canon_json (y # ys), r)"
  using assms
proof (induction ys arbitrary: y n)
  case Nil
  then obtain n' where n: "n = Suc n'" "jsize y \<le> n'" by (cases n) auto
  have "parse_value n' (print_json y @ CHR '']'' # r) = Some (canon_json y, CHR '']'' # r)"
    using Nil.prems(1) [of y n' "CHR '']'' # r"] n(2) by (simp add: value_end_def)
  then show ?case by (simp add: n(1) value_end_def)
next
  case (Cons z zs)
  then obtain n' where n: "n = Suc n'" "jsize y \<le> n'"
    "sum_list (map (\<lambda>j. Suc (jsize j)) (z # zs)) \<le> n'" by (cases n) auto
  let ?R = "print_json z @ concat (map (\<lambda>z. CHR '','' # print_json z) zs) @ CHR '']'' # r"
  have "parse_value n' (print_json y @ CHR '','' # ?R) = Some (canon_json y, CHR '','' # ?R)"
    using Cons.prems(1) [of y n' "CHR '','' # ?R"] n(2) by (simp add: value_end_def)
  moreover have "parse_elems n' ?R = Some (map canon_json (z # zs), r)"
    using Cons.IH [of z n'] Cons.prems(1) n(3) by simp
  ultimately show ?case by (simp add: n(1) value_end_def)
qed

lemma print_json_JObj:
  "print_json (JObj kvs) = CHR ''{'' # comma_list (map print_member kvs) @ ''}''"
proof -
  have "(\<lambda>(k, v). print_string k @ CHR '':'' # print_json v) = print_member"
    by (auto simp: print_member_def)
  then show ?thesis by simp
qed

lemma update_append_new: "k \<notin> set (map fst al) \<Longrightarrow> AList.update k v al = al @ [(k, v)]"
  by (induction al) auto

lemma parse_print_members:
  assumes "\<And>k v n r. (k, v) \<in> set (m # ms) \<Longrightarrow> jsize v \<le> n \<Longrightarrow> value_end r \<Longrightarrow>
             parse_value n (print_json v @ r) = Some (canon_json v, r)"
    and "distinct (map fst (acc @ m # ms))"
    and "sum_list (map (\<lambda>(k, v). Suc (jsize v)) (m # ms)) \<le> n"
  shows "parse_members n acc (print_member m @ concat (map (\<lambda>z. CHR '','' # print_member z) ms) @ CHR ''}'' # r) =
           Some (acc @ map (\<lambda>(k, v). (k, canon_json v)) (m # ms), r)"
  using assms
proof (induction ms arbitrary: m n acc)
  case Nil
  obtain k v where m: "m = (k, v)" by fastforce
  from Nil.prems(3) obtain n' where n: "n = Suc n'" "jsize v \<le> n'" by (cases n) (auto simp: m)
  have pv: "parse_value n' (print_json v @ CHR ''}'' # r) = Some (canon_json v, CHR ''}'' # r)"
    using Nil.prems(1) [of k v n' "CHR ''}'' # r"] n(2) by (simp add: m value_end_def)
  have "k \<notin> set (map fst acc)" using Nil.prems(2) by (simp add: m)
  then show ?case using pv
    by (simp add: n(1) m print_member_def print_string_def parse_print_chars update_append_new)
next
  case (Cons m2 ms2)
  obtain k v where m: "m = (k, v)" by fastforce
  from Cons.prems(3) obtain n' where n: "n = Suc n'" "jsize v \<le> n'"
    "sum_list (map (\<lambda>(k, v). Suc (jsize v)) (m2 # ms2)) \<le> n'" by (cases n) (auto simp: m)
  let ?R = "print_member m2 @ concat (map (\<lambda>z. CHR '','' # print_member z) ms2) @ CHR ''}'' # r"
  have pv: "parse_value n' (print_json v @ CHR '','' # ?R) = Some (canon_json v, CHR '','' # ?R)"
    using Cons.prems(1) [of k v n' "CHR '','' # ?R"] n(2) by (simp add: m value_end_def)
  have "k \<notin> set (map fst acc)" using Cons.prems(2) by (simp add: m)
  moreover have "parse_members n' (acc @ [(k, canon_json v)]) ?R =
      Some ((acc @ [(k, canon_json v)]) @ map (\<lambda>(k, v). (k, canon_json v)) (m2 # ms2), r)"
    using Cons.IH [of m2 "acc @ [(k, canon_json v)]" n'] Cons.prems(1,2) n(3) by (auto simp: m)
  ultimately show ?case using pv
    by (simp add: n(1) m print_member_def print_string_def parse_print_chars update_append_new)
qed

lemma comma_list_Cons:
  "comma_list (map f (y # ys)) = f y @ concat (map (\<lambda>z. CHR '','' # f z) ys)"
  by (simp add: comma_list_def comp_def)

lemma parse_print_value:
  "json_wf j \<Longrightarrow> jsize j \<le> n \<Longrightarrow> value_end r \<Longrightarrow>
   parse_value n (print_json j @ r) = Some (canon_json j, r)"
proof (induction j arbitrary: n r rule: print_json.induct)
  case (3 d)
  then obtain n' where n: "n = Suc n'" by (cases n) auto
  show ?case
    unfolding n print_json.simps canon_json.simps by (rule parse_value_number [OF "3.prems"(3)])
next
  case (5 js)
  then obtain n' where n: "n = Suc n'" "sum_list (map (\<lambda>j. Suc (jsize j)) js) \<le> n'" by (cases n) auto
  show ?case
  proof (cases js)
    case Nil then show ?thesis by (simp add: n(1) comma_list_def)
  next
    case (Cons y ys)
    let ?X = "print_json y @ concat (map (\<lambda>z. CHR '','' # print_json z) ys) @ CHR '']'' # r"
    obtain c t where ct: "print_json y = c # t" "\<not> is_ws c" "c \<noteq> CHR '']''"
      using print_json_start [of y] by blast
    have "parse_elems n' ?X = Some (map canon_json (y # ys), r)"
    proof (rule parse_print_elems)
      fix x k r' assume "x \<in> set (y # ys)" "jsize x \<le> k" "value_end r'"
      then show "parse_value k (print_json x @ r') = Some (canon_json x, r')"
        using "5.IH" [of x k r'] "5.prems"(1) Cons by auto
    qed (use n(2) Cons in simp)
    with ct show ?thesis by (simp add: n(1) Cons comma_list_def comp_def)
  qed
next
  case (6 kvs)
  then obtain n' where n: "n = Suc n'" "sum_list (map (\<lambda>(k, v). Suc (jsize v)) kvs) \<le> n'"
    by (cases n) auto
  show ?case
  proof (cases kvs)
    case Nil then show ?thesis by (simp add: n(1) comma_list_def)
  next
    case (Cons m ms)
    let ?X = "print_member m @ concat (map (\<lambda>z. CHR '','' # print_member z) ms) @ CHR ''}'' # r"
    have hd: "\<exists>t. print_member m = CHR 0x22 # t" by (simp add: print_member_def print_string_def split: prod.split)
    have "parse_members n' [] ?X = Some ([] @ map (\<lambda>(k, v). (k, canon_json v)) (m # ms), r)"
    proof (rule parse_print_members)
      fix k v k' r' assume "(k, v) \<in> set (m # ms)" "jsize v \<le> k'" "value_end r'"
      then show "parse_value k' (print_json v @ r') = Some (canon_json v, r')"
        using "6.IH" [of "(k, v)" k v k' r'] "6.prems"(1) Cons by auto
    qed (use n(2) Cons "6.prems"(1) in simp_all)
    with hd show ?thesis unfolding print_json_JObj by (auto simp: n(1) Cons comma_list_def comp_def)
  qed
qed (auto simp: print_string_def parse_print_chars dest!: Suc_le_D)

lemma comma_list_length:
  "xs \<noteq> [] \<Longrightarrow> Suc (length (comma_list xs)) = sum_list (map (\<lambda>x. Suc (length x)) xs)"
  by (cases xs) (simp_all add: comma_list_def length_concat comp_def)

lemma jsize_le_print: "jsize j \<le> length (print_json j)"
proof (induction j rule: print_json.induct)
  case (3 d) then show ?case using print_number_start [of d] by auto
next
  case (5 js)
  show ?case
  proof (cases "js = []")
    case False
    have "sum_list (map (\<lambda>j. Suc (jsize j)) js) \<le> sum_list (map (\<lambda>x. Suc (length x)) (map print_json js))"
      using "5.IH" by (simp add: comp_def sum_list_mono)
    with False show ?thesis using comma_list_length [of "map print_json js"] by simp
  qed simp
next
  case (6 kvs)
  show ?case
  proof (cases "kvs = []")
    case False
    have "sum_list (map (\<lambda>(k, v). Suc (jsize v)) kvs) \<le> sum_list (map (\<lambda>x. Suc (length x)) (map print_member kvs))"
    proof (simp add: comp_def, intro sum_list_mono)
      fix m assume "m \<in> set kvs"
      moreover obtain k v where "m = (k, v)" by fastforce
      ultimately have "jsize v \<le> length (print_json v)" using "6.IH" by blast
      then show "(case m of (k, v) \<Rightarrow> Suc (jsize v)) \<le> Suc (length (print_member m))"
        by (simp add: \<open>m = (k, v)\<close> print_member_def print_string_def)
    qed
    with False show ?thesis using comma_list_length [of "map print_member kvs"]
      unfolding print_json_JObj by simp
  qed (simp add: print_json_JObj comma_list_def)
qed (simp_all add: print_string_def)

lemma json_parse_print: "json_wf j \<Longrightarrow> json_parse (print_json j) = Some (canon_json j)"
  using parse_print_value [of j "Suc (length (print_json j))" "[]"] jsize_le_print [of j]
  by (simp add: json_parse_def value_end_def)

lemma canon_aux_value: "dec_value (canon_aux m e) = of_int m / 10 ^ e"
proof (induction e arbitrary: m)
  case (Suc e)
  show ?case
  proof (cases "m mod 10 = 0")
    case True
    then obtain q where q: "m = 10 * q" by (auto simp: mod_eq_0_iff_dvd dvd_def)
    then have "of_int m / 10 ^ Suc e = (of_int (m div 10) :: real) / 10 ^ e" by simp
    with True Suc show ?thesis by simp
  qed (simp add: dec_value_def)
qed (simp add: dec_value_def)

lemma canon_dec_value [simp]: "dec_value (canon_dec d) = dec_value d"
  by (cases d) (simp only: canon_dec_def decimal.case canon_aux_value, simp add: dec_value_def)

lemma canon_geom_values [simp]: "geom_values (canon_geom g) = geom_values g"
  by (cases g) (simp_all add: position_value_def canon_position_def comp_def)

lemma canon_encode_features:
  "canon_json (encode_features fs) = encode_features (map canon_feature fs)"
proof -
  have g: "canon_json (encode_geom g) = encode_geom (canon_geom g)" for g
    by (cases g) (simp_all add: encode_ring_def encode_position_def canon_position_def comp_def)
  have "canon_json (encode_feature f) = encode_feature (canon_feature f)" for f
    by (simp add: encode_feature_def encode_props_def canon_feature_def g comp_def case_prod_beta)
  then show ?thesis by (simp add: encode_features_def comp_def)
qed

lemma wf_encode_features:
  assumes "\<forall>f\<in>set fs. distinct (map fst (properties f))"
  shows "json_wf (encode_features fs)"
proof -
  have g: "json_wf (encode_geom g)" for g
    by (cases g) (auto simp: encode_ring_def encode_position_def)
  have p: "distinct (map fst ps) \<Longrightarrow> json_wf (encode_props ps)" for ps
    by (auto simp: encode_props_def comp_def case_prod_beta)
  show ?thesis using assms by (auto simp: encode_features_def encode_feature_def g p)
qed

lemma canon_feature_view [simp]: "feature_view (canon_feature f) = feature_view f"
  by (simp add: feature_view_def canon_feature_def)

lemma read_entry_encode:
  assumes "\<forall>f\<in>set fs. distinct (map fst (properties f))"
  shows "read_entry_text (Some (print_json (encode_features fs))) = Some (map canon_feature fs)"
proof -
  have "print_json (encode_features fs) \<noteq> []" by (simp add: encode_features_def)
  then show ?thesis
    using json_parse_print [OF wf_encode_features [OF assms]]
    by (simp add: read_entry_text_def canon_encode_features)
qed

section \<open>Fuel\<close>


lemma skip_ws_length: "length (skip_ws s) \<le> length s"
  by (induction s) auto

lemma dropWhile_length: "length (dropWhile P s) \<le> length s"
  by (induction s) auto

lemma parse_chars_length: "parse_chars s = Some (x, r) \<Longrightarrow> length r < length s"
proof (induction s arbitrary: x r rule: parse_chars.induct)
  case (2 c r0)
  then show ?case
    by (auto simp: cons_char_def split: if_splits list.splits option.splits) fastforce+
qed simp

lemma parse_frac_length: "parse_frac s = Some (fp, r) \<Longrightarrow> length r \<le> length s"
  using dropWhile_length [of is_digit]
  by (auto simp: parse_frac_def Let_def split: list.splits if_splits)
     (metis dropWhile_length le_SucI)

lemma parse_exp_length: "parse_exp s = Some (x, r) \<Longrightarrow> length r \<le> length s"
  by (auto simp: parse_exp_def Let_def split: list.splits if_splits prod.splits)
     (metis dropWhile_length le_SucI le_Suc_eq)+

lemma dropWhile_length_less: "takeWhile P s \<noteq> [] \<Longrightarrow> length (dropWhile P s) < length s"
  by (induction s) (auto simp: less_Suc_eq_le dropWhile_length split: if_splits)

lemma parse_unsigned_length: "parse_unsigned s = Some (M, t, r) \<Longrightarrow> length r < length s"
proof -
  assume a: "parse_unsigned s = Some (M, t, r)"
  then have ip: "takeWhile is_digit s \<noteq> []" by (auto simp: parse_unsigned_def Let_def split: if_splits)
  from a obtain fp s3 x where
    f: "parse_frac (dropWhile is_digit s) = Some (fp, s3)" and e: "parse_exp s3 = Some (x, r)"
    by (auto simp: parse_unsigned_def Let_def bind_eq_Some_conv split: if_splits)
  show ?thesis
    using parse_frac_length [OF f] parse_exp_length [OF e] dropWhile_length_less [OF ip] by simp
qed

lemma parse_number_length: "parse_number s = Some (d, r) \<Longrightarrow> length r < length s"
  by (auto simp: parse_number_def split: list.splits if_splits prod.splits
           dest!: parse_unsigned_length)

lemma skip_ws_Cons_length: "skip_ws s = c # t \<Longrightarrow> length t < length s"
  using skip_ws_length [of s] by simp

lemma parse_elems_step:
  assumes IHv: "\<And>s j r k. parse_value n s = Some (j, r) \<Longrightarrow> length s - length r \<le> k \<Longrightarrow>
                   length r < length s \<and> parse_value k s = Some (j, r)"
    and IHe: "\<And>s js r k. parse_elems n s = Some (js, r) \<Longrightarrow> length s - length r \<le> k \<Longrightarrow>
                   length r < length s \<and> parse_elems k s = Some (js, r)"
    and a: "parse_elems (Suc n) s = Some (js, r)" and m: "length s - length r \<le> m"
  shows "length r < length s \<and> parse_elems m s = Some (js, r)"
proof -
  from a obtain j r1 where v: "parse_value n s = Some (j, r1)"
    by (auto split: option.splits)
  have l1: "length r1 < length s" using IHv [OF v, of "length s"] by simp
  from a v obtain c r1' where sk: "skip_ws r1 = c # r1'" by (cases "skip_ws r1") auto
  have l2: "length r1' < length r1" by (rule skip_ws_Cons_length [OF sk])
  show ?thesis
  proof (cases "c = CHR '',''")
    case True
    with a v sk obtain js' where e: "parse_elems n r1' = Some (js', r)" and js: "js = j # js'"
      by auto
    have l3: "length r < length r1'" using IHe [OF e, of "length r1'"] by simp
    obtain m' where m': "m = Suc m'" using m l1 l2 l3 by (cases m) auto
    have "parse_value m' s = Some (j, r1)" using IHv [OF v] m m' l2 l3 by simp
    moreover have "parse_elems m' r1' = Some (js', r)" using IHe [OF e] m m' l1 l2 by simp
    ultimately show ?thesis using True sk js m' l1 l2 l3 by simp
  next
    case False
    with a v sk have c: "c = CHR '']''" and js: "js = [j]" and r: "r = r1'"
      by (auto split: if_splits)
    obtain m' where m': "m = Suc m'" using m l1 l2 r by (cases m) auto
    have "parse_value m' s = Some (j, r1)" using IHv [OF v] m m' l2 r by simp
    then show ?thesis using c sk js r m' l1 l2 by simp
  qed
qed

lemma parse_members_step:
  assumes IHv: "\<And>s j r k. parse_value n s = Some (j, r) \<Longrightarrow> length s - length r \<le> k \<Longrightarrow>
                   length r < length s \<and> parse_value k s = Some (j, r)"
    and IHm: "\<And>acc s kvs r k. parse_members n acc s = Some (kvs, r) \<Longrightarrow> length s - length r \<le> k \<Longrightarrow>
                   length r < length s \<and> parse_members k acc s = Some (kvs, r)"
    and a: "parse_members (Suc n) acc s = Some (kvs, r)" and m: "length s - length r \<le> m"
  shows "length r < length s \<and> parse_members m acc s = Some (kvs, r)"
proof -
  from a obtain t where st: "skip_ws s = CHR 0x22 # t"
    by (cases "skip_ws s") (auto split: if_splits)
  from a st obtain k r1 where pc: "parse_chars t = Some (k, r1)" by (auto split: option.splits)
  from a st pc obtain r2 where sk1: "skip_ws r1 = CHR '':'' # r2"
    by (cases "skip_ws r1") (auto split: if_splits)
  from a st pc sk1 obtain v r3 where v: "parse_value n r2 = Some (v, r3)"
    by (auto split: option.splits)
  from a st pc sk1 v obtain c3 r4 where sk3: "skip_ws r3 = c3 # r4"
    by (cases "skip_ws r3") auto
  have l: "length t < length s" "length r1 < length t" "length r2 < length r1" "length r4 < length r3"
    using skip_ws_Cons_length [OF st] parse_chars_length [OF pc] skip_ws_Cons_length [OF sk1]
      skip_ws_Cons_length [OF sk3] by simp_all
  have l3: "length r3 < length r2" using IHv [OF v, of "length r2"] by simp
  show ?thesis
  proof (cases "c3 = CHR '',''")
    case True
    with a st pc sk1 v sk3 have e: "parse_members n (AList.update k v acc) r4 = Some (kvs, r)"
      by simp
    have l5: "length r < length r4" using IHm [OF e, of "length r4"] by simp
    obtain m' where m': "m = Suc m'" using m l l3 l5 by (cases m) auto
    have "parse_value m' r2 = Some (v, r3)" using IHv [OF v] m m' l l3 l5 by simp
    moreover have "parse_members m' (AList.update k v acc) r4 = Some (kvs, r)"
      using IHm [OF e] m m' l l3 by simp
    ultimately show ?thesis using True st pc sk1 sk3 m' l l3 l5 by simp
  next
    case False
    with a st pc sk1 v sk3 have c: "c3 = CHR ''}''" and kvs: "kvs = AList.update k v acc" and r: "r = r4"
      by (auto split: if_splits)
    obtain m' where m': "m = Suc m'" using m l l3 r by (cases m) auto
    have "parse_value m' r2 = Some (v, r3)" using IHv [OF v] m m' l l3 r by simp
    then show ?thesis using c st pc sk1 sk3 kvs r m' l l3 by simp
  qed
qed

lemma drop_take_less: "take k t = xs \<Longrightarrow> xs \<noteq> [] \<Longrightarrow> length (drop k t) < length t"
  by (cases t; cases k) auto

lemma parse_value_leaf:
  assumes "skip_ws s = c # t" "c \<noteq> CHR ''[''" "c \<noteq> CHR ''{''"
  shows "parse_value (Suc k) s = parse_value (Suc n) s"
  using assms by simp

lemma parse_value_leaf_length:
  assumes "parse_value (Suc n) s = Some (j, r)" "skip_ws s = c # t" "c \<noteq> CHR ''[''" "c \<noteq> CHR ''{''"
  shows "length r < length s"
proof -
  have "length r < length (c # t)"
    using assms by (auto split: if_splits dest!: parse_chars_length parse_number_length drop_take_less)
  then show ?thesis using skip_ws_length [of s] assms(2) by simp
qed

lemma parse_value_step:
  assumes IHe: "\<And>s js r k. parse_elems n s = Some (js, r) \<Longrightarrow> length s - length r \<le> k \<Longrightarrow>
                   length r < length s \<and> parse_elems k s = Some (js, r)"
    and IHm: "\<And>acc s kvs r k. parse_members n acc s = Some (kvs, r) \<Longrightarrow> length s - length r \<le> k \<Longrightarrow>
                   length r < length s \<and> parse_members k acc s = Some (kvs, r)"
    and a: "parse_value (Suc n) s = Some (j, r)" and m: "length s - length r \<le> m"
  shows "length r < length s \<and> parse_value m s = Some (j, r)"
proof -
  from a obtain c t where st: "skip_ws s = c # t" by (cases "skip_ws s") auto
  have lt: "length t < length s" by (rule skip_ws_Cons_length [OF st])
  consider (arr) "c = CHR ''[''" | (obj) "c = CHR ''{''" | (leaf) "c \<noteq> CHR ''[''" "c \<noteq> CHR ''{''"
    by blast
  then show ?thesis
  proof cases
    case leaf
    have l: "length r < length s" by (rule parse_value_leaf_length [OF a st leaf])
    then obtain m' where "m = Suc m'" using m by (cases m) auto
    with a l show ?thesis using parse_value_leaf [OF st leaf, of m' n] by simp
  next
    case arr
    from a st arr obtain c' t' where st': "skip_ws t = c' # t'" by (cases "skip_ws t") auto
    show ?thesis
    proof (cases "c' = CHR '']''")
      case True
      with a st arr st' have r: "r = t'" and j: "j = JArr []" by auto
      have l: "length r < length s" using skip_ws_Cons_length [OF st'] lt r by simp
      then obtain m' where "m = Suc m'" using m by (cases m) auto
      with True st arr st' r j l show ?thesis by simp
    next
      case False
      with a st arr st' obtain js where e: "parse_elems n t = Some (js, r)" and j: "j = JArr js"
        by auto
      have l: "length r < length t" using IHe [OF e, of "length t"] by simp
      obtain m' where m': "m = Suc m'" using m l lt by (cases m) auto
      have "parse_elems m' t = Some (js, r)" using IHe [OF e] m m' lt l by simp
      with False st arr st' j m' l lt show ?thesis by simp
    qed
  next
    case obj
    from a st obj obtain c' t' where st': "skip_ws t = c' # t'" by (cases "skip_ws t") auto
    show ?thesis
    proof (cases "c' = CHR ''}''")
      case True
      with a st obj st' have r: "r = t'" and j: "j = JObj []" by auto
      have l: "length r < length s" using skip_ws_Cons_length [OF st'] lt r by simp
      then obtain m' where "m = Suc m'" using m by (cases m) auto
      with True st obj st' r j l show ?thesis by simp
    next
      case False
      with a st obj st' obtain kvs where e: "parse_members n [] t = Some (kvs, r)" and j: "j = JObj kvs"
        by auto
      have l: "length r < length t" using IHm [OF e, of "length t"] by simp
      obtain m' where m': "m = Suc m'" using m l lt by (cases m) auto
      have "parse_members m' [] t = Some (kvs, r)" using IHm [OF e] m m' lt l by simp
      with False st obj st' j m' l lt show ?thesis by simp
    qed
  qed
qed

lemma parse_fuel_adequate:
  "(\<forall>s j r m. parse_value n s = Some (j, r) \<longrightarrow> length s - length r \<le> m \<longrightarrow>
      length r < length s \<and> parse_value m s = Some (j, r)) \<and>
   (\<forall>s js r m. parse_elems n s = Some (js, r) \<longrightarrow> length s - length r \<le> m \<longrightarrow>
      length r < length s \<and> parse_elems m s = Some (js, r)) \<and>
   (\<forall>acc s kvs r m. parse_members n acc s = Some (kvs, r) \<longrightarrow> length s - length r \<le> m \<longrightarrow>
      length r < length s \<and> parse_members m acc s = Some (kvs, r))"
proof (induction n)
  case (Suc n)
  then have v: "\<And>s j r k. parse_value n s = Some (j, r) \<Longrightarrow> length s - length r \<le> k \<Longrightarrow>
                   length r < length s \<and> parse_value k s = Some (j, r)"
    and e: "\<And>s js r k. parse_elems n s = Some (js, r) \<Longrightarrow> length s - length r \<le> k \<Longrightarrow>
                   length r < length s \<and> parse_elems k s = Some (js, r)"
    and m: "\<And>acc s kvs r k. parse_members n acc s = Some (kvs, r) \<Longrightarrow> length s - length r \<le> k \<Longrightarrow>
                   length r < length s \<and> parse_members k acc s = Some (kvs, r)"
    by blast+
  show ?case
    using parse_value_step [OF e m] parse_elems_step [OF v e] parse_members_step [OF v m] by blast
qed simp

lemma json_parse_complete:
  "json_parse s = Some j \<longleftrightarrow> (\<exists>n r. parse_value n s = Some (j, r) \<and> skip_ws r = [])"
proof
  assume a: "json_parse s = Some j"
  obtain x where x: "parse_value (Suc (length s)) s = Some x"
    using a unfolding json_parse_def
    by (cases "parse_value (Suc (length s)) s") (simp_all del: parse_value.simps)
  obtain j' r where "x = (j', r)" by fastforce
  with a x have "parse_value (Suc (length s)) s = Some (j, r) \<and> skip_ws r = []"
    unfolding json_parse_def by (simp split: if_splits del: parse_value.simps)
  then show "\<exists>n r. parse_value n s = Some (j, r) \<and> skip_ws r = []" by blast
next
  assume "\<exists>n r. parse_value n s = Some (j, r) \<and> skip_ws r = []"
  then obtain n r where p: "parse_value n s = Some (j, r)" and w: "skip_ws r = []" by blast
  have "parse_value (Suc (length s)) s = Some (j, r)"
  proof -
    have "length s - length r \<le> Suc (length s)" by simp
    then show ?thesis using parse_fuel_adequate [of n] p by blast
  qed
  with w show "json_parse s = Some j" unfolding json_parse_def by simp
qed

subsection \<open>Unclosed collections\<close>

lemma parse_value_deterministic:
  assumes "parse_value a s = Some (j, r)" and "parse_value b s = Some (j', r')"
  shows "j' = j \<and> r' = r"
proof -
  have v: "\<And>n j r. parse_value n s = Some (j, r) \<Longrightarrow> parse_value (length s) s = Some (j, r)"
    using conjunct1 [OF parse_fuel_adequate] diff_le_self by blast
  show ?thesis using v [OF assms(1)] v [OF assms(2)] by simp
qed

lemma parse_elems_after_value:
  assumes "json_wf y" and "value_end t" and "parse_value k (print_json y @ t) = Some (j, r)"
  shows "r = t"
proof -
  have "parse_value (jsize y) (print_json y @ t) = Some (canon_json y, t)"
    using parse_print_value [OF assms(1) order.refl assms(2)] .
  then show ?thesis using parse_value_deterministic [OF assms(3)] by blast
qed

lemma parse_elems_unclosed:
  assumes "\<forall>x\<in>set (y # ys). json_wf x"
  shows "parse_elems k (print_json y @ concat (map (\<lambda>z. CHR '','' # print_json z) ys)) = None"
  using assms
proof (induction ys arbitrary: y k)
  case Nil
  show ?case
  proof (cases k)
    case (Suc k')
    show ?thesis
    proof (cases "parse_value k' (print_json y)")
      case (Some x)
      obtain j r where x: "x = (j, r)" by (cases x)
      have "r = []"
        using parse_elems_after_value [of y "[]" k' j r] Nil.prems Some x by (simp add: value_end_def)
      with Some x Suc show ?thesis by (simp del: parse_value.simps)
    qed (simp add: Suc del: parse_value.simps)
  qed simp
next
  case (Cons z zs)
  let ?T = "CHR '','' # print_json z @ concat (map (\<lambda>z. CHR '','' # print_json z) zs)"
  show ?case
  proof (cases k)
    case (Suc k')
    have rest: "parse_elems k' (print_json z @ concat (map (\<lambda>z. CHR '','' # print_json z) zs)) = None"
      using Cons.IH [of z k'] Cons.prems by (simp del: parse_elems.simps)
    show ?thesis
    proof (cases "parse_value k' (print_json y @ ?T)")
      case (Some x)
      obtain j r where x: "x = (j, r)" by (cases x)
      have "r = ?T"
        using parse_elems_after_value [of y ?T k' j r] Cons.prems Some x by (simp add: value_end_def)
      with Some x Suc rest show ?thesis by (simp del: parse_value.simps parse_elems.simps(1))
    qed (simp add: Suc del: parse_value.simps)
  qed simp
qed

lemma print_encode_feature_hd: "\<exists>t. print_json (encode_feature f) = CHR ''{'' # t"
  by (simp add: encode_feature_def)

text \<open>
  A collection whose text lost its closing bracket does not parse, whatever the fuel: each
  element parses to the same value and remainder at every fuel that succeeds, and the list
  then ends without \<open>]\<close>.
\<close>

lemma json_parse_unclosed:
  assumes "\<forall>f\<in>set fs. distinct (map fst (properties f))"
  shows "json_parse (butlast (print_json (encode_features fs))) = None"
proof (cases fs)
  case Nil
  then show ?thesis by (simp add: json_parse_def encode_features_def comma_list_def)
next
  case (Cons f fs')
  let ?E = "print_json (encode_feature f) @ concat (map (\<lambda>z. CHR '','' # print_json z) (map encode_feature fs'))"
  have wf: "\<forall>x\<in>set (encode_feature f # map encode_feature fs'). json_wf x"
    using wf_encode_features [OF assms] Cons by (simp add: encode_features_def)
  have b: "butlast (print_json (encode_features fs)) = CHR ''['' # ?E"
    using Cons by (simp add: encode_features_def comma_list_def butlast_append comp_def)
  obtain t where t: "print_json (encode_feature f) = CHR ''{'' # t"
    using print_encode_feature_hd by blast
  obtain u where u: "?E = CHR ''{'' # u" using t by simp
  have pe: "parse_elems m (CHR ''{'' # u) = None" for m
    using parse_elems_unclosed [OF wf, of m] u by simp
  have "parse_value n (CHR ''['' # CHR ''{'' # u) = None" for n
    by (cases n) (simp_all add: pe del: parse_elems.simps)
  then have "parse_value n (butlast (print_json (encode_features fs))) = None" for n
    by (simp only: b u)
  then show ?thesis unfolding json_parse_def by simp
qed

end
