(* ===== verification/Entry_Text.thy ===== *)
theory Entry_Text
  imports System Json_Text
begin

text \<open>
  The page over the text of the \<open>'user_drawings'\<close> entry. Two facts about the states
  the page reaches connect \<open>System\<close> with \<open>Json_Text\<close>. Every drawing the page holds
  has distinct property keys (\<open>world_keys_ok\<close>), so its JSON object is one a JavaScript
  object can be. The entry is what one of the two writers would write for \<open>drawData\<close>
  (\<open>entry_encodes\<close>): the adapter's \<open>storeDrawings\<close> or the controller's
  \<open>setItem\<close> of \<open>JSON.stringify\<close>. Together with the round trip of \<open>Json_Text\<close>
  they give that the entry's text reads back as the list. The controller's initialiser
  (\<open>initial_drawData_text\<close>) and the map's load handler (\<open>onLoad_text\<close>) over the
  text: both throw on an entry cut short (C23).
\<close>

section \<open>The two invariants\<close>

definition keys_ok :: "feature list \<Rightarrow> bool" where
  "keys_ok fs \<longleftrightarrow> (\<forall>f\<in>set fs. distinct (map fst (properties f)))"

definition world_keys_ok :: "world \<Rightarrow> bool" where
  "world_keys_ok w \<longleftrightarrow>
     keys_ok (drawData w) \<and>
     (case mapRef w of
        None \<Rightarrow> True
      | Some m \<Rightarrow> (case draw m of None \<Rightarrow> True | Some ws \<Rightarrow> keys_ok ws))"

definition entry_encodes :: "world \<Rightarrow> bool" where
  "entry_encodes w \<longleftrightarrow>
     local_storage w = storeDrawings (drawData w) \<or>
     local_storage w = Some (encode_features (drawData w))"

text \<open>
  The initialiser of \<open>drawData\<close> (\<open>App.tsx\<close> lines 15-22) over the text of the entry:
  \<open>getItem\<close> gives no entry or its text; a falsy text (no entry, or the empty string)
  gives \<open>[]\<close>; a truthy text goes through \<open>JSON.parse\<close>, whose failure is the uncaught
  exception of the first render, and the parsed value is the state
  (\<open>App_Controller.initial_drawData\<close>).
\<close>

definition initial_drawData_text :: "string option \<Rightarrow> error + feature list" where
  "initial_drawData_text st =
     (case st of
        None \<Rightarrow> initial_drawData None
      | Some t \<Rightarrow>
          if t = [] then initial_drawData None
          else (case json_parse t of None \<Rightarrow> Inl MalformedStorage | Some j \<Rightarrow> initial_drawData (Some j)))"

text \<open>
  The map's \<open>load\<close> handler over the text of the entry (\<open>Map.tsx\<close> lines 133-137): the
  same truthiness test, then \<open>JSON.parse\<close>, whose failure is the uncaught exception.
\<close>

definition onLoad_text :: "ring_area \<Rightarrow> map_state \<Rightarrow> string option \<Rightarrow> error + map_out" where
  "onLoad_text ra s st =
     (case st of
        None \<Rightarrow> onLoad ra s None
      | Some t \<Rightarrow>
          if t = [] then onLoad ra s None
          else (case json_parse t of None \<Rightarrow> Inl MalformedStorage | Some j \<Rightarrow> onLoad ra s (Some j)))"

section \<open>Lemmas\<close>

subsection \<open>Property keys under the store operations\<close>

lemma keys_ok_Nil [simp]: "keys_ok []"
  by (simp add: keys_ok_def)

lemma keys_ok_append [simp]: "keys_ok (xs @ ys) \<longleftrightarrow> keys_ok xs \<and> keys_ok ys"
  by (auto simp: keys_ok_def)

lemma keys_ok_filter [intro]: "keys_ok xs \<Longrightarrow> keys_ok (filter P xs)"
  by (auto simp: keys_ok_def)

lemma keys_ok_setFeatureProperty [intro]:
  "keys_ok ws \<Longrightarrow> keys_ok (draw_setFeatureProperty i k v ws)"
  by (auto simp: keys_ok_def draw_setFeatureProperty_def distinct_update)

lemma keys_ok_apply_colors [intro]: "keys_ok ws \<Longrightarrow> keys_ok (apply_colors lc fc fs ws)"
  unfolding apply_colors_def by (induction fs arbitrary: ws) auto

lemma keys_ok_event [intro]:
  "keys_ok ws \<Longrightarrow>
   keys_ok (case e of DrawCreate fs \<Rightarrow> apply_colors lc fc fs ws | DrawDelete _ \<Rightarrow> ws | DrawUpdate _ \<Rightarrow> ws)"
  by (cases e) auto

lemma keys_ok_ui_update [intro]: "keys_ok ws \<Longrightarrow> keys_ok (ui_update i g ws)"
  by (auto simp: keys_ok_def ui_update_def)

lemma keys_ok_ui_create [intro]: "keys_ok ws \<Longrightarrow> properties f = [] \<Longrightarrow> keys_ok (ui_create f ws)"
  by (simp add: ui_create_def keys_ok_def)

lemma keys_ok_ui_trash [intro]: "keys_ok ws \<Longrightarrow> keys_ok (ui_trash ids ws)"
  by (auto simp: ui_trash_def)

subsection \<open>Each handler keeps them\<close>

lemma world_keys_interact:
  assumes "world_keys_ok w" and "\<And>ws. keys_ok ws \<Longrightarrow> keys_ok (change ws)"
  shows "world_keys_ok (interact ra change ev w)"
  using assms by (auto simp: interact_def world_keys_ok_def updateMap_Some split: option.splits)

lemma entry_interact: "entry_encodes w \<Longrightarrow> entry_encodes (interact ra change ev w)"
  by (auto simp: interact_def entry_encodes_def updateMap_Some split: option.splits)

lemma onLoad_result:
  assumes "onLoad ra m st = Inr r" and "stored_features st = Some dd"
  shows "out_storage r = st \<and> (out_emit r = None \<or> out_emit r = Some dd) \<and>
         (draw (out_map r) = draw m \<or> draw (out_map r) = map_option (\<lambda>_. dd) (draw m))"
  using assms
  by (cases st) (auto simp: onLoad_def quiet_def Let_def draw_set_def draw_getAll_def
                      stored_features_def split: option.splits if_splits)

lemma text_inv_load:
  assumes inv: "sys_inv ra w" and k: "world_keys_ok w" and st: "world_step ra MapLoad w = Inr w'"
  shows "world_keys_ok w' \<and> (entry_encodes w \<longrightarrow> entry_encodes w')"
proof (cases "mapRef w")
  case None with st k show ?thesis by auto
next
  case (Some m)
  with st obtain r where r: "onLoad ra m (local_storage w) = Inr r"
    and w': "w' = (deliver w r)\<lparr>map_loaded := True\<rparr>" by (auto split: sum.splits)
  from inv have "stored_features (local_storage w) = Some (drawData w)" by (simp add: sys_inv_def)
  from onLoad_result [OF r this] k Some w' show ?thesis
    by (auto simp: world_keys_ok_def entry_encodes_def split: option.splits)
qed

lemma text_inv_list_delete:
  "world_keys_ok w \<Longrightarrow> world_keys_ok (app_deleteDrawing ra i w) \<and> entry_encodes (app_deleteDrawing ra i w)"
  by (auto simp: world_keys_ok_def entry_encodes_def app_deleteDrawing_mapRef deleteDrawing_def
                 draw_getAll_def draw_delete_def Let_def quiet_def split: option.splits)

lemma text_inv_clear:
  "world_keys_ok w \<Longrightarrow> world_keys_ok (handleClearList w) \<and> entry_encodes (handleClearList w)"
  by (auto simp: world_keys_ok_def entry_encodes_def clearAll_def draw_deleteAll_def
                 storeDrawings_def split: option.splits)

lemma text_inv_on_map:
  "(\<And>m. draw (f m) = draw m) \<Longrightarrow> world_keys_ok (on_map f w) = world_keys_ok w \<and>
     entry_encodes (on_map f w) = entry_encodes w"
  by (auto simp: on_map_def world_keys_ok_def entry_encodes_def split: option.splits)

lemma text_inv_mount:
  "world_keys_ok w \<Longrightarrow> world_keys_ok (w\<lparr>mapRef := Some (mount c map_initial)\<rparr>)"
  by (simp add: world_keys_ok_def mount_def map_initial_def)

subsection \<open>Every step and every run keeps them\<close>

lemma text_inv_step:
  assumes inv: "sys_inv ra w" and k: "world_keys_ok w"
    and en: "enabled e w" and st: "world_step ra e w = Inr w'"
  shows "world_keys_ok w' \<and> (entry_encodes w \<longrightarrow> entry_encodes w')"
proof (cases e)
  case (Mount c)
  with k st show ?thesis by (auto intro: text_inv_mount simp: entry_encodes_def)
next
  case MapLoad
  from st MapLoad have "world_step ra MapLoad w = Inr w'" by simp
  with inv k show ?thesis by (rule text_inv_load)
next
  case (UserDraw f)
  with en have "properties f = []" by (simp split: option.splits)
  with UserDraw k st show ?thesis by (auto intro!: world_keys_interact entry_interact)
next
  case (UserEdit i g)
  with k st show ?thesis by (auto intro!: world_keys_interact entry_interact)
next
  case (UserTrash ids)
  with k st show ?thesis by (auto intro!: world_keys_interact entry_interact)
next
  case (LineColorInput c)
  with k st show ?thesis
    by (auto simp: text_inv_on_map handleLineColorChange_def sync_line_color_ref_def)
next
  case (FillColorInput c)
  with k st show ?thesis
    by (auto simp: text_inv_on_map handleFillColorChange_def sync_fill_color_ref_def)
next
  case (ListDelete i)
  with k st show ?thesis using text_inv_list_delete [OF k, of ra i] by auto
next
  case ListClear
  with k st show ?thesis using text_inv_clear [OF k] by auto
next
  case Unmount
  with k st show ?thesis by (auto simp: text_inv_on_map teardown_def)
qed

lemma text_inv_run:
  "sys_inv ra w \<Longrightarrow> world_keys_ok w \<Longrightarrow> run ra es w = Inr w' \<Longrightarrow>
   sys_inv ra w' \<and> world_keys_ok w' \<and> (entry_encodes w \<longrightarrow> entry_encodes w')"
proof (induction es arbitrary: w)
  case (Cons e es)
  show ?case
  proof (cases "enabled e w")
    case True
    with Cons.prems obtain w1 where w1: "world_step ra e w = Inr w1" and r: "run ra es w1 = Inr w'"
      by (auto split: sum.splits)
    from Cons.prems(1) True w1 have i1: "sys_inv ra w1" by (rule sys_inv_step)
    from text_inv_step [OF Cons.prems(1,2) True w1]
    have "world_keys_ok w1" and "entry_encodes w \<longrightarrow> entry_encodes w1" by simp_all
    with Cons.IH [OF i1 _ r] show ?thesis by blast
  next
    case False
    with Cons show ?thesis by simp
  qed
qed simp

lemma world_init_keys: "world_init st = Inr w \<Longrightarrow> keys_ok (drawData w) \<Longrightarrow> world_keys_ok w"
  by (simp add: world_init_Inr world_keys_ok_def)

text \<open>
  C23: An entry cut short by its last character (a write interrupted before the closing
  bracket) makes the first render of the controller throw, for every list of drawings the
  adapter can have written; the map's load handler throws on it too, so the page never
  gets past such an entry.
\<close>

theorem truncated_entry_throws:
  assumes "keys_ok fs"
  shows "initial_drawData_text (Some (butlast (print_json (encode_features fs)))) = Inl MalformedStorage \<and>
         onLoad_text ra s (Some (butlast (print_json (encode_features fs)))) = Inl MalformedStorage"
proof -
  have "json_parse (butlast (print_json (encode_features fs))) = None"
    using json_parse_unclosed assms by (simp add: keys_ok_def)
  moreover have "butlast (print_json (encode_features fs)) \<noteq> []"
    by (simp add: encode_features_def butlast_append)
  ultimately show ?thesis by (simp add: initial_drawData_text_def onLoad_text_def)
qed

theorem truncated_entry_throws_witness:
  "keys_ok [] \<and>
   initial_drawData_text (Some (butlast (print_json (encode_features [])))) = Inl MalformedStorage \<and>
   onLoad_text (\<lambda>_. 0) map_initial (Some (butlast (print_json (encode_features [])))) =
     Inl MalformedStorage"
  using truncated_entry_throws [of "[]" "\<lambda>_. 0" map_initial] by (simp add: keys_ok_def)

end
