(* ===== verification/Draw_Styles.thy ===== *)
theory Draw_Styles
  imports Map_Adapter
begin

text \<open>
  The custom draw styles, \<open>src/src/components/styles/mapboxStyles.ts\<close>: the four layers
  \<open>getCustomDrawStyles\<close> returns, each with its id, its kind, its filter and the colour
  expression of its paint. With \<open>userProperties: true\<close> (\<open>Map.tsx\<close> line 125) the
  drawing library exposes each property \<open>k\<close> of a feature to the styles as
  \<open>user_k\<close>; \<open>['coalesce', ['get', p], d]\<close> is the property's value when the feature
  has it, whatever string it is, and \<open>d\<close> otherwise. Since the expression is the value
  of a colour property (\<open>line-color\<close>, \<open>fill-color\<close>), the style specification
  coerces its result to a colour; a string that is no colour is an evaluation error,
  and the property takes its default, black. Widths, opacities and line caps are not
  modelled: only the colours.
\<close>

section \<open>Layers\<close>

text \<open>
  A layer's filter: features of one geometry type outside the static mode (the page never
  enters the static mode), or the vertex points the library draws while editing, which
  are not features of the collection.
\<close>

datatype layer_filter = GeomIs string | VertexPoints

datatype paint = CoalesceGet string string | ConstColor string

record style_layer =
  layer_id :: string
  layer_kind :: string
  layer_filter :: layer_filter
  layer_color :: paint

definition getCustomDrawStyles :: "style_layer list" where
  "getCustomDrawStyles =
     [\<lparr>layer_id = ''gl-draw-line'', layer_kind = ''line'', layer_filter = GeomIs ''LineString'',
       layer_color = CoalesceGet ''user_lineColor'' ''#000000''\<rparr>,
      \<lparr>layer_id = ''gl-draw-polygon-fill'', layer_kind = ''fill'', layer_filter = GeomIs ''Polygon'',
       layer_color = CoalesceGet ''user_fillColor'' ''#000000''\<rparr>,
      \<lparr>layer_id = ''gl-draw-polygon-stroke'', layer_kind = ''line'', layer_filter = GeomIs ''Polygon'',
       layer_color = CoalesceGet ''user_lineColor'' ''#000000''\<rparr>,
      \<lparr>layer_id = ''gl-draw-polygon-and-line-vertex-active'', layer_kind = ''circle'',
       layer_filter = VertexPoints, layer_color = ConstColor ''#FFF''\<rparr>]"

section \<open>Evaluation\<close>

text \<open>
  The coercion of an expression's value to a colour (the style specification's
  \<open>to-color\<close> with the paint property's default \<open>#000000\<close>, the default of
  \<open>line-color\<close>, \<open>fill-color\<close> and \<open>circle-color\<close> alike). The CSS colour parser is
  modelled for the hexadecimal notations \<open>#rgb\<close>, \<open>#rgba\<close>, \<open>#rrggbb\<close>,
  \<open>#rrggbbaa\<close>, in either case: the colours of the styles and every colour the page's
  pickers give. Colour names and functional notations (\<open>red\<close>, \<open>rgb(...)\<close>), which
  the page never writes, fall to the default here.
\<close>

definition coerce_color :: "string \<Rightarrow> string" where
  "coerce_color v =
     (case v of
        c # ds \<Rightarrow>
          if c = CHR ''#'' \<and> length ds \<in> {3, 4, 6, 8} \<and> list_all is_hex_digit ds then v
          else ''#000000''
      | [] \<Rightarrow> ''#000000'')"

definition user_properties :: "feature \<Rightarrow> (string \<times> string) list" where
  "user_properties f = map (\<lambda>(k, v). (''user_'' @ k, v)) (properties f)"

fun eval_paint :: "paint \<Rightarrow> (string \<times> string) list \<Rightarrow> string" where
  "eval_paint (CoalesceGet p d) props = coerce_color (case map_of props p of Some v \<Rightarrow> v | None \<Rightarrow> d)"
| "eval_paint (ConstColor c) props = coerce_color c"

fun layer_matches :: "layer_filter \<Rightarrow> feature \<Rightarrow> bool" where
  "layer_matches (GeomIs t) f = (geom_type (geometry f) = t)"
| "layer_matches VertexPoints f = False"

text \<open>The colour each layer that draws a feature paints it with, layer by layer.\<close>

definition feature_paint :: "feature \<Rightarrow> (string \<times> string) list" where
  "feature_paint f =
     map (\<lambda>l. (layer_id l, eval_paint (layer_color l) (user_properties f)))
         (filter (\<lambda>l. layer_matches (layer_filter l) f) getCustomDrawStyles)"

section \<open>Lemmas\<close>

lemma map_of_user_properties [simp]:
  "map_of (user_properties f) (''user_'' @ k) = map_of (properties f) k"
proof -
  have "map_of (map (\<lambda>(k, v). (''user_'' @ k, v)) ps) (''user_'' @ k) = map_of ps k" for ps
    by (induction ps) auto
  then show ?thesis by (simp add: user_properties_def)
qed

lemma coerce_color_empty [simp]: "coerce_color [] = ''#000000''"
  by (simp add: coerce_color_def)

lemma coerce_color_black [simp]: "coerce_color ''#000000'' = ''#000000''"
  by (simp add: coerce_color_def is_hex_digit_def)

lemma coerce_color_picker [simp]:
  assumes "picker_color c"
  shows "coerce_color c = c"
proof -
  from assms obtain ds where c: "c = CHR ''#'' # ds" and "length ds = 6"
    and "\<forall>h\<in>set ds. is_hex_digit h"
    by (cases c) (auto simp: picker_color_def valid_simple_color_def)
  then show ?thesis by (simp add: coerce_color_def list_all_iff)
qed

text \<open>The colour each layer paints a feature with, before the page's colours are known.\<close>

lemma feature_paint_coerce:
  "feature_paint f =
     (case geometry f of
        LineString _ \<Rightarrow>
          [(''gl-draw-line'',
            coerce_color (case map_of (properties f) ''lineColor'' of Some c \<Rightarrow> c | None \<Rightarrow> ''#000000''))]
      | Polygon _ \<Rightarrow>
          [(''gl-draw-polygon-fill'',
            coerce_color (case map_of (properties f) ''fillColor'' of Some c \<Rightarrow> c | None \<Rightarrow> ''#000000'')),
           (''gl-draw-polygon-stroke'',
            coerce_color (case map_of (properties f) ''lineColor'' of Some c \<Rightarrow> c | None \<Rightarrow> ''#000000''))])"
proof -
  have l: "map_of (user_properties f) ''user_lineColor'' = map_of (properties f) ''lineColor''"
    using map_of_user_properties [of f "''lineColor''"] by simp
  have p: "map_of (user_properties f) ''user_fillColor'' = map_of (properties f) ''fillColor''"
    using map_of_user_properties [of f "''fillColor''"] by simp
  show ?thesis
    by (cases "geometry f") (simp_all add: feature_paint_def getCustomDrawStyles_def geom_type_def l p)
qed

text \<open>The colour a page colour property is painted in: itself, or black when empty or absent.\<close>

lemma coerce_page_color:
  assumes "\<forall>c. v = Some c \<longrightarrow> c = [] \<or> picker_color c"
  shows "coerce_color (case v of Some c \<Rightarrow> c | None \<Rightarrow> ''#000000'') =
           (case v of Some c \<Rightarrow> if c = [] then ''#000000'' else c | None \<Rightarrow> ''#000000'')"
  using assms by (cases v) auto

text \<open>
  C13: A line is painted in its \<open>lineColor\<close> property, a polygon filled in its
  \<open>fillColor\<close> and stroked in its \<open>lineColor\<close>, when the property holds a colour the
  pickers give; black (the paint default) where the property is missing or holds the
  empty colour the page starts with.
\<close>

theorem feature_paint_colors:
  assumes "\<forall>c. map_of (properties f) ''lineColor'' = Some c \<longrightarrow> c = [] \<or> picker_color c"
    and "\<forall>c. map_of (properties f) ''fillColor'' = Some c \<longrightarrow> c = [] \<or> picker_color c"
  shows "feature_paint f =
     (case geometry f of
        LineString _ \<Rightarrow>
          [(''gl-draw-line'',
            case map_of (properties f) ''lineColor'' of
              Some c \<Rightarrow> if c = [] then ''#000000'' else c | None \<Rightarrow> ''#000000'')]
      | Polygon _ \<Rightarrow>
          [(''gl-draw-polygon-fill'',
            case map_of (properties f) ''fillColor'' of
              Some c \<Rightarrow> if c = [] then ''#000000'' else c | None \<Rightarrow> ''#000000''),
           (''gl-draw-polygon-stroke'',
            case map_of (properties f) ''lineColor'' of
              Some c \<Rightarrow> if c = [] then ''#000000'' else c | None \<Rightarrow> ''#000000'')])"
  by (simp only: feature_paint_coerce coerce_page_color [OF assms(1)] coerce_page_color [OF assms(2)])

theorem feature_paint_colors_witness:
  "feature_paint \<lparr>feature_id = ''a'', geometry = Polygon [[]],
                  properties = [(''lineColor'', ''#ff0000''), (''fillColor'', '''')]\<rparr> =
   [(''gl-draw-polygon-fill'', ''#000000''), (''gl-draw-polygon-stroke'', ''#ff0000'')]"
  using feature_paint_colors [of "\<lparr>feature_id = ''a'', geometry = Polygon [[]],
                  properties = [(''lineColor'', ''#ff0000''), (''fillColor'', '''')]\<rparr>"]
  by (simp add: picker_defs)

end
