(* ===== verification/Adapter_Contract.thy ===== *)
theory Adapter_Contract
  imports Map_Adapter
begin

text \<open>
  The adapter's contract as the specification states it (section 4.1), written over the
  collection alone: for each operation, the drawings it leaves in the store, the area it
  shows, the list it reports upward, what it does to the persisted entry and whether it
  prompts. \<open>implements\<close> relates a handler's outcome in \<open>Map_Adapter\<close> to a contract
  outcome. The refinement lemma shows which operations of \<open>Map.tsx\<close> meet their
  contract. The ones that do not are the subject of C3 and C7.
\<close>

section \<open>The contract\<close>

datatype persist = Keep | Remove | Write "feature list"

record contract_out =
  c_store :: "feature list"
  c_area :: real
  c_emit :: "feature list option"
  c_persist :: persist
  c_prompt :: bool

definition persisted :: "storage \<Rightarrow> persist \<Rightarrow> storage" where
  "persisted st p = (case p of Keep \<Rightarrow> st | Remove \<Rightarrow> None | Write fs \<Rightarrow> Some (encode_features fs))"

definition persist_of :: "feature list \<Rightarrow> persist" where
  "persist_of ws = (if ws = [] then Remove else Write ws)"

definition contract_area :: "ring_area \<Rightarrow> feature list \<Rightarrow> real" where
  "contract_area ra ws = (if ws = [] then 0 else round2 (turf_area ra ws))"

text \<open>
  \<open>deleteFeature(id)\<close>: remove the feature, recompute the area over the rest (zero if
  empty), report and persist the rest. \<open>clearAll()\<close>: remove everything, area zero,
  report the empty collection, leave persistence to the controller. A change of the
  drawing widget (steps 1-5): colour the created features, recompute the area, report
  and persist the result, prompt when it is empty unless the change was a deletion.
  Loading a persisted collection: put it in the store, recompute the area, report it.
\<close>

definition spec_deleteFeature :: "ring_area \<Rightarrow> feature_id \<Rightarrow> feature list \<Rightarrow> contract_out" where
  "spec_deleteFeature ra i ws =
     (let ws' = filter (\<lambda>f. feature_id f \<noteq> i) ws
      in \<lparr>c_store = ws', c_area = contract_area ra ws', c_emit = Some ws',
          c_persist = persist_of ws', c_prompt = False\<rparr>)"

definition spec_clearAll :: contract_out where
  "spec_clearAll = \<lparr>c_store = [], c_area = 0, c_emit = Some [], c_persist = Keep, c_prompt = False\<rparr>"

definition spec_onChange ::
  "ring_area \<Rightarrow> color \<Rightarrow> color \<Rightarrow> draw_event \<Rightarrow> feature list \<Rightarrow> contract_out" where
  "spec_onChange ra lc fc e ws =
     (let ws1 = (case e of DrawCreate fs \<Rightarrow> colour_features lc fc (map feature_id fs) ws | _ \<Rightarrow> ws)
      in \<lparr>c_store = ws1, c_area = contract_area ra ws1, c_emit = Some ws1,
          c_persist = persist_of ws1, c_prompt = (ws1 = [] \<and> \<not> is_delete e)\<rparr>)"

definition spec_load :: "ring_area \<Rightarrow> feature list \<Rightarrow> contract_out" where
  "spec_load ra fs =
     \<lparr>c_store = fs, c_area = contract_area ra fs, c_emit = Some fs, c_persist = Keep, c_prompt = False\<rparr>"

definition implements :: "map_out \<Rightarrow> storage \<Rightarrow> contract_out \<Rightarrow> bool" where
  "implements r st c \<longleftrightarrow>
     draw (out_map r) = Some (c_store c) \<and> rounded_area (out_map r) = Some (c_area c) \<and>
     out_emit r = c_emit c \<and> out_storage r = persisted st (c_persist c) \<and>
     (out_alerts r \<noteq> []) = c_prompt c"

section \<open>Lemmas\<close>

lemma round2_area_empty [simp]: "round2 (turf_area ra []) = 0"
  by (simp add: turf_area_Nil)

lemma contract_area_eq: "contract_area ra ws = round2 (turf_area ra ws)"
  by (simp add: contract_area_def)

lemma persisted_persist_of [simp]: "persisted st (persist_of ws) = storeDrawings ws"
  by (simp add: persisted_def persist_of_def storeDrawings_def)

text \<open>
  C22: The adapter refines its contract for every operation but the colouring of a
  created drawing. \<open>deleteDrawing\<close> implements \<open>deleteFeature\<close>. \<open>updateMap\<close> implements
  the change algorithm for updates and deletions. The load handler implements loading
  for a non-empty saved collection. \<open>clearAll\<close> leaves the store and the area as the
  contract says, though it reports nothing (the controller clears its own list).
\<close>

theorem adapter_meets_contract:
  assumes "draw s = Some ws" and "\<forall>fs. e \<noteq> DrawCreate fs"
    and "st = Some j" and "decode_features j = Some fs" and "fs \<noteq> []"
  shows "implements (deleteDrawing ra i s st) st (spec_deleteFeature ra i ws) \<and>
         implements (updateMap ra e s st) st (spec_onChange ra (line_color_ref s) (fill_color_ref s) e ws) \<and>
         (\<exists>r. onLoad ra s st = Inr r \<and> implements r st (spec_load ra fs)) \<and>
         draw (clearAll s) = Some (c_store spec_clearAll) \<and>
         rounded_area (clearAll s) = Some (c_area spec_clearAll)"
proof (intro conjI)
  show "implements (deleteDrawing ra i s st) st (spec_deleteFeature ra i ws)"
    using assms(1) by (simp add: deleteDrawing_Some implements_def spec_deleteFeature_def
                                  contract_area_eq draw_delete_def Let_def)
  have e: "(case e of DrawCreate fs \<Rightarrow> apply_colors lc fc fs ws | DrawDelete _ \<Rightarrow> ws | DrawUpdate _ \<Rightarrow> ws) = ws"
    "(case e of DrawCreate fs \<Rightarrow> colour_features lc fc (map feature_id fs) ws | DrawDelete _ \<Rightarrow> ws
       | DrawUpdate _ \<Rightarrow> ws) = ws" for lc fc
    using assms(2) by (cases e; simp)+
  show "implements (updateMap ra e s st) st (spec_onChange ra (line_color_ref s) (fill_color_ref s) e ws)"
    using assms(1) by (simp add: updateMap_Some implements_def spec_onChange_def contract_area_eq e Let_def)
  show "\<exists>r. onLoad ra s st = Inr r \<and> implements r st (spec_load ra fs)"
    using assms(1,3-5)
    by (simp add: onLoad_def draw_set_def draw_getAll_def implements_def spec_load_def
                  persisted_def contract_area_def)
qed (simp_all add: clearAll_Some [OF assms(1)] spec_clearAll_def)

theorem adapter_meets_contract_witness:
  "implements (deleteDrawing (\<lambda>_. 0) ''x'' (map_initial\<lparr>draw := Some []\<rparr>) (Some (encode_features [\<lparr>feature_id = ''x'', geometry = LineString [], properties = []\<rparr>])))
     (Some (encode_features [\<lparr>feature_id = ''x'', geometry = LineString [], properties = []\<rparr>]))
     (spec_deleteFeature (\<lambda>_. 0) ''x'' []) \<and>
   implements (updateMap (\<lambda>_. 0) (DrawUpdate []) (map_initial\<lparr>draw := Some []\<rparr>) (Some (encode_features [\<lparr>feature_id = ''x'', geometry = LineString [], properties = []\<rparr>])))
     (Some (encode_features [\<lparr>feature_id = ''x'', geometry = LineString [], properties = []\<rparr>]))
     (spec_onChange (\<lambda>_. 0) (line_color_ref (map_initial\<lparr>draw := Some []\<rparr>)) (fill_color_ref (map_initial\<lparr>draw := Some []\<rparr>)) (DrawUpdate []) []) \<and>
   (\<exists>r. onLoad (\<lambda>_. 0) (map_initial\<lparr>draw := Some []\<rparr>)
           (Some (encode_features [\<lparr>feature_id = ''x'', geometry = LineString [], properties = []\<rparr>])) = Inr r \<and>
         implements r (Some (encode_features [\<lparr>feature_id = ''x'', geometry = LineString [], properties = []\<rparr>]))
           (spec_load (\<lambda>_. 0) [\<lparr>feature_id = ''x'', geometry = LineString [], properties = []\<rparr>])) \<and>
   draw (clearAll (map_initial\<lparr>draw := Some []\<rparr>)) = Some (c_store spec_clearAll) \<and>
   rounded_area (clearAll (map_initial\<lparr>draw := Some []\<rparr>)) = Some (c_area spec_clearAll)"
  by (rule adapter_meets_contract [where ws = "[]" and j = "encode_features [\<lparr>feature_id = ''x'', geometry = LineString [], properties = []\<rparr>]"])
     simp_all

end
