(* ===== verification/Draw_Modes.thy ===== *)
theory Draw_Modes
  imports System
begin

text \<open>
  The draw control of \<open>Map.tsx\<close> (lines 118-128) and the modes of mapbox-gl-draw that the
  user drives through it. The store here is the library's: it holds the drawing in
  progress as a feature from the moment a drawing mode starts, and \<open>getAll\<close> returns it
  with the others (the store \<open>System\<close> works with is the one without it).
  \<open>widget_step\<close> is one user input: a click on the map (which ends the drawing when it
  falls on the last vertex, or on the first vertex of a polygon), the end of a drawing
  (Enter or a double click), Escape, a control button or the Delete key, a click on a
  feature, a drag that gives a feature a new geometry. It returns the event the library
  fires, if any. The adapter's calls on the store (\<open>set\<close>, \<open>delete\<close>,
  \<open>deleteAll\<close>, \<open>setFeatureProperty\<close>) are \<open>w_api\<close>: the store becomes the list the
  call leaves, and the selection forgets deleted features. The library is modelled from
  its documented behaviour; the position of the pointer between clicks, the selection of
  single vertices and the dragging of several features at once are not modelled; a click
  on a vertex is a click at its position. The claims compose the widget with the draw
  control \<open>Map.tsx\<close> configures, with the adapter's load handler and with the
  controller's list commands.
\<close>

section \<open>The draw control's options\<close>

datatype control =
    PointControl | LineStringControl | PolygonControl | TrashControl
  | CombineControl | UncombineControl

record draw_options =
  displayControlsDefault :: bool
  controls :: "control \<Rightarrow> bool option"
  defaultMode :: string

text \<open>The options \<open>new MapboxDraw({...})\<close> receives (\<open>Map.tsx\<close> lines 118-128).\<close>

definition map_draw_options :: draw_options where
  "map_draw_options =
     \<lparr>displayControlsDefault = False,
      controls = (\<lambda>c. case c of
                        LineStringControl \<Rightarrow> Some True
                      | PolygonControl \<Rightarrow> Some True
                      | TrashControl \<Rightarrow> Some True
                      | _ \<Rightarrow> None),
      defaultMode = ''draw_line_string''\<rparr>"

text \<open>
  A control is shown when the options set it, and otherwise when
  \<open>displayControlsDefault\<close> holds; the Delete key trashes only when the trash control is on.
\<close>

definition shown :: "draw_options \<Rightarrow> control \<Rightarrow> bool" where
  "shown opts c = (case controls opts c of Some b \<Rightarrow> b | None \<Rightarrow> displayControlsDefault opts)"

section \<open>Modes and the widget\<close>

text \<open>
  \<open>DrawLineString i vs\<close>: a line with id \<open>i\<close> is being drawn and \<open>vs\<close> are the vertices
  clicked so far; likewise for polygons. \<open>SimpleSelect sel\<close> with the selected ids in the
  order they were selected; \<open>DirectSelect i\<close> edits the vertices of \<open>i\<close>.
\<close>

datatype draw_mode =
    SimpleSelect "feature_id list"
  | DirectSelect feature_id
  | DrawLineString feature_id "position list"
  | DrawPolygon feature_id "position list"

record widget =
  wstore :: draw_store
  wmode :: draw_mode

datatype ui_input =
    ClickMap position
  | FinishDrawing
  | EscapeKey
  | DeleteKey
  | PressControl control feature_id
  | ClickFeature feature_id
  | DragFeature feature_id geom

fun drawing_id :: "draw_mode \<Rightarrow> feature_id option" where
  "drawing_id (DrawLineString i _) = Some i"
| "drawing_id (DrawPolygon i _) = Some i"
| "drawing_id _ = None"

text \<open>
  A new feature has empty properties (\<open>userProperties\<close> only changes how they are
  rendered). After a click the pointer vertex sits on the last vertex clicked; a polygon's
  ring is closed when it is read.
\<close>

definition new_feature :: "feature_id \<Rightarrow> geom \<Rightarrow> feature" where
  "new_feature i g = \<lparr>feature_id = i, geometry = g, properties = []\<rparr>"

definition with_pointer :: "position list \<Rightarrow> position list" where
  "with_pointer vs = (if vs = [] then [] else vs @ [last vs])"

definition close_ring :: "position list \<Rightarrow> position list" where
  "close_ring vs = (if vs = [] then [] else vs @ [hd vs])"

fun progress_geom :: "draw_mode \<Rightarrow> geom" where
  "progress_geom (DrawPolygon _ vs) = Polygon [close_ring (with_pointer vs)]"
| "progress_geom (DrawLineString _ vs) = LineString (with_pointer vs)"
| "progress_geom _ = LineString []"

text \<open>
  \<open>onStop\<close> of a drawing mode: a feature already gone from the store is left alone; a
  valid one (two vertices for a line, three for a polygon) loses its pointer vertex and is
  announced by \<open>draw.create\<close>; an invalid one is deleted silently.
\<close>

definition finish_drawing :: "feature_id \<Rightarrow> geom \<Rightarrow> bool \<Rightarrow> draw_store \<Rightarrow> draw_store \<times> draw_event option" where
  "finish_drawing i g valid ws =
     (if i \<notin> feature_id ` set ws then (ws, None)
      else if valid then
        (let ws' = ui_update i g ws in (ws', Some (DrawCreate (filter (\<lambda>f. feature_id f = i) ws'))))
      else (draw_delete i ws, None))"

fun stop_mode :: "draw_mode \<Rightarrow> draw_store \<Rightarrow> draw_store \<times> draw_event option" where
  "stop_mode (DrawLineString i vs) ws = finish_drawing i (LineString vs) (2 \<le> length vs) ws"
| "stop_mode (DrawPolygon i vs) ws = finish_drawing i (Polygon [close_ring vs]) (3 \<le> length vs) ws"
| "stop_mode _ ws = (ws, None)"

text \<open>
  The selection only holds features of the store, and \<open>direct_select\<close> of a deleted feature
  falls back to \<open>simple_select\<close>.
\<close>

fun prune :: "draw_store \<Rightarrow> draw_mode \<Rightarrow> draw_mode" where
  "prune ws (SimpleSelect sel) = SimpleSelect (filter (\<lambda>j. j \<in> feature_id ` set ws) sel)"
| "prune ws (DirectSelect i) = (if i \<in> feature_id ` set ws then DirectSelect i else SimpleSelect [])"
| "prune ws m = m"

text \<open>\<open>onSetup\<close> of a mode: a drawing mode adds its new feature to the store.\<close>

fun start_mode :: "draw_mode \<Rightarrow> draw_store \<Rightarrow> draw_store" where
  "start_mode (DrawLineString i vs) ws = ws @ [new_feature i (progress_geom (DrawLineString i vs))]"
| "start_mode (DrawPolygon i vs) ws = ws @ [new_feature i (progress_geom (DrawPolygon i vs))]"
| "start_mode _ ws = ws"

text \<open>\<open>changeMode\<close>: stop the current mode, then set up the next one.\<close>

definition change_mode :: "draw_mode \<Rightarrow> widget \<Rightarrow> widget \<times> draw_event option" where
  "change_mode m wd =
     (case stop_mode (wmode wd) (wstore wd) of
        (ws, e) \<Rightarrow> (\<lparr>wstore = start_mode m ws, wmode = prune (start_mode m ws) m\<rparr>, e))"

text \<open>Escape and the trash of a drawing mode delete the drawing silently.\<close>

definition discard :: "feature_id \<Rightarrow> widget \<Rightarrow> widget \<times> draw_event option" where
  "discard i wd = (\<lparr>wstore = draw_delete i (wstore wd), wmode = SimpleSelect []\<rparr>, None)"

text \<open>A drag gives feature \<open>j\<close> a new geometry and fires \<open>draw.update\<close> with it.\<close>

definition drag :: "feature_id \<Rightarrow> geom \<Rightarrow> widget \<Rightarrow> widget \<times> draw_event option" where
  "drag j g wd =
     (let ws' = ui_update j g (wstore wd)
      in (wd\<lparr>wstore := ws'\<rparr>, Some (DrawUpdate (filter (\<lambda>f. feature_id f = j) ws'))))"

text \<open>
  \<open>onTrash\<close> of each mode: a drawing is discarded; the selected features are deleted and
  \<open>draw.delete\<close> fires with them in the order of the selection; \<open>direct_select\<close> with no
  vertex selected fires \<open>draw.update\<close> with its feature unchanged.
\<close>

fun trash :: "draw_mode \<Rightarrow> widget \<Rightarrow> widget \<times> draw_event option" where
  "trash (DrawLineString i _) wd = discard i wd"
| "trash (DrawPolygon i _) wd = discard i wd"
| "trash (SimpleSelect sel) wd =
     (if sel = [] then (wd, None)
      else (\<lparr>wstore = ui_trash sel (wstore wd), wmode = SimpleSelect []\<rparr>,
            Some (DrawDelete (concat (map (\<lambda>i. filter (\<lambda>f. feature_id f = i) (wstore wd)) sel)))))"
| "trash (DirectSelect i) wd = (wd, Some (DrawUpdate (filter (\<lambda>f. feature_id f = i) (wstore wd))))"

text \<open>
  A mode button starts its mode with the fresh id \<open>j\<close> the library generates; pressing
  the button of the active mode goes back to \<open>simple_select\<close>.
\<close>

fun press :: "control \<Rightarrow> feature_id \<Rightarrow> draw_mode \<Rightarrow> widget \<Rightarrow> widget \<times> draw_event option" where
  "press LineStringControl j (DrawLineString _ _) wd = change_mode (SimpleSelect []) wd"
| "press LineStringControl j _ wd = change_mode (DrawLineString j []) wd"
| "press PolygonControl j (DrawPolygon _ _) wd = change_mode (SimpleSelect []) wd"
| "press PolygonControl j _ wd = change_mode (DrawPolygon j []) wd"
| "press TrashControl j m wd = trash m wd"
| "press _ j m wd = (wd, None)"

text \<open>
  The mode handlers. In \<open>draw_line_string\<close> a click at the last vertex clicked
  (\<open>clickAnywhere\<close>'s test \<open>isEventAtCoordinates\<close>, or \<open>clickOnVertex\<close> on the vertex
  the mode renders there) finishes the line; in \<open>draw_polygon\<close> a click at the last
  vertex or on the first one finishes the polygon. Any other click adds a vertex.
\<close>

fun mode_step :: "draw_options \<Rightarrow> draw_mode \<Rightarrow> ui_input \<Rightarrow> widget \<Rightarrow> widget \<times> draw_event option" where
  "mode_step opts (DrawLineString i vs) (ClickMap p) wd =
     (if vs \<noteq> [] \<and> p = last vs then change_mode (SimpleSelect [i]) wd
      else let m = DrawLineString i (vs @ [p])
           in (\<lparr>wstore = ui_update i (progress_geom m) (wstore wd), wmode = m\<rparr>, None))"
| "mode_step opts (DrawPolygon i vs) (ClickMap p) wd =
     (if vs \<noteq> [] \<and> (p = last vs \<or> p = hd vs) then change_mode (SimpleSelect [i]) wd
      else let m = DrawPolygon i (vs @ [p])
           in (\<lparr>wstore = ui_update i (progress_geom m) (wstore wd), wmode = m\<rparr>, None))"
| "mode_step opts (DrawLineString i vs) FinishDrawing wd = change_mode (SimpleSelect [i]) wd"
| "mode_step opts (DrawPolygon i vs) FinishDrawing wd = change_mode (SimpleSelect [i]) wd"
| "mode_step opts (DrawLineString i vs) EscapeKey wd = discard i wd"
| "mode_step opts (DrawPolygon i vs) EscapeKey wd = discard i wd"
| "mode_step opts (SimpleSelect sel) (ClickMap p) wd = (wd\<lparr>wmode := SimpleSelect []\<rparr>, None)"
| "mode_step opts (SimpleSelect sel) (ClickFeature j) wd =
     (if j \<notin> feature_id ` set (wstore wd) then (wd, None)
      else if j \<in> set sel then (wd\<lparr>wmode := DirectSelect j\<rparr>, None)
      else (wd\<lparr>wmode := SimpleSelect [j]\<rparr>, None))"
| "mode_step opts (SimpleSelect sel) (DragFeature j g) wd =
     (if sel = [j] then drag j g wd else (wd, None))"
| "mode_step opts (DirectSelect i) (DragFeature j g) wd = (if j = i then drag i g wd else (wd, None))"
| "mode_step opts (DirectSelect i) (ClickMap p) wd = change_mode (SimpleSelect []) wd"
| "mode_step opts (DirectSelect i) (ClickFeature j) wd =
     (if j = i then (wd, None) else change_mode (SimpleSelect []) wd)"
| "mode_step opts m DeleteKey wd = (if shown opts TrashControl then trash m wd else (wd, None))"
| "mode_step opts m (PressControl c j) wd = (if shown opts c then press c j m wd else (wd, None))"
| "mode_step opts m inp wd = (wd, None)"

definition widget_step :: "draw_options \<Rightarrow> ui_input \<Rightarrow> widget \<Rightarrow> widget \<times> draw_event option" where
  "widget_step opts inp wd = mode_step opts (wmode wd) inp wd"

text \<open>
  The draw control connects when the map loads: an empty store in the default mode, set
  up with the fresh id \<open>k\<close>.
\<close>

definition mode_of_name :: "string \<Rightarrow> feature_id \<Rightarrow> draw_mode" where
  "mode_of_name n k =
     (if n = ''draw_line_string'' then DrawLineString k []
      else if n = ''draw_polygon'' then DrawPolygon k []
      else if n = ''direct_select'' then DirectSelect k
      else SimpleSelect [])"

definition w_connect :: "draw_options \<Rightarrow> feature_id \<Rightarrow> widget" where
  "w_connect opts k =
     (let m = mode_of_name (defaultMode opts) k
      in \<lparr>wstore = start_mode m [], wmode = prune (start_mode m []) m\<rparr>)"

text \<open>
  A call of the adapter on the store (\<open>set\<close>, \<open>delete\<close>, \<open>deleteAll\<close>,
  \<open>setFeatureProperty\<close>) replaces the store by the list it leaves; the mode keeps drawing
  even when its feature was deleted.
\<close>

definition w_api :: "draw_store \<Rightarrow> widget \<Rightarrow> widget" where
  "w_api ws' wd = \<lparr>wstore = ws', wmode = prune ws' (wmode wd)\<rparr>"

section \<open>The invariant\<close>

text \<open>
  Ids are distinct; the selection is distinct and in the store; \<open>direct_select\<close> edits a
  feature of the store; a drawing in progress is either gone from the store (deleted by
  the adapter) or its last feature, as the mode shows it.
\<close>

fun mode_ok :: "draw_store \<Rightarrow> draw_mode \<Rightarrow> bool" where
  "mode_ok ws (SimpleSelect sel) = (distinct sel \<and> set sel \<subseteq> feature_id ` set ws)"
| "mode_ok ws (DirectSelect i) = (i \<in> feature_id ` set ws)"
| "mode_ok ws (DrawLineString i vs) =
     (i \<in> feature_id ` set ws \<longrightarrow> ws \<noteq> [] \<and> last ws = new_feature i (progress_geom (DrawLineString i vs)))"
| "mode_ok ws (DrawPolygon i vs) =
     (i \<in> feature_id ` set ws \<longrightarrow> ws \<noteq> [] \<and> last ws = new_feature i (progress_geom (DrawPolygon i vs)))"

definition widget_inv :: "widget \<Rightarrow> bool" where
  "widget_inv wd \<longleftrightarrow> distinct (map feature_id (wstore wd)) \<and> mode_ok (wstore wd) (wmode wd)"

text \<open>A sequence of inputs, with the event each fires.\<close>

fun widget_run :: "draw_options \<Rightarrow> ui_input list \<Rightarrow> widget \<Rightarrow> widget \<times> draw_event option list" where
  "widget_run opts [] wd = (wd, [])"
| "widget_run opts (inp # inps) wd =
     (case widget_step opts inp wd of
        (wd1, e) \<Rightarrow> (case widget_run opts inps wd1 of (wd2, es) \<Rightarrow> (wd2, e # es)))"

section \<open>Concrete data for the witnesses\<close>

text \<open>
  Two positions, a completed line \<open>''a''\<close>, a line \<open>''k''\<close> being drawn through both
  positions after it, and a page whose live store holds nothing.
\<close>

definition dm_p1 :: position where "dm_p1 = (Dec 1 0, Dec 2 0)"

definition dm_p2 :: position where "dm_p2 = (Dec 3 0, Dec 4 0)"

definition dm_line :: feature where
  "dm_line = new_feature ''a'' (LineString [dm_p1, dm_p2])"

definition dm_drawing :: widget where
  "dm_drawing =
     \<lparr>wstore = [dm_line, new_feature ''k'' (LineString (with_pointer [dm_p1, dm_p2]))],
      wmode = DrawLineString ''k'' [dm_p1, dm_p2]\<rparr>"

definition dm_page :: world where
  "dm_page =
     \<lparr>drawData = [dm_line], mapRef = Some (map_initial\<lparr>map_alive := True, draw := Some (wstore dm_drawing)\<rparr>),
      local_storage = Some (encode_features [dm_line]), alerts = [], map_loaded = True\<rparr>"

section \<open>Lemmas\<close>

subsection \<open>Store operations\<close>

lemma ids_ui_update [simp]: "map feature_id (ui_update i g ws) = map feature_id ws"
  by (induction ws) (simp_all add: ui_update_def)

lemma set_ids_ui_update [simp]: "feature_id ` set (ui_update i g ws) = feature_id ` set ws"
  by (metis ids_ui_update set_map)

lemma ui_update_append [simp]: "ui_update i g (xs @ ys) = ui_update i g xs @ ui_update i g ys"
  by (simp add: ui_update_def)

lemma ui_update_absent: "i \<notin> feature_id ` set ws \<Longrightarrow> ui_update i g ws = ws"
  by (induction ws) (auto simp: ui_update_def)

lemma ui_update_new_feature [simp]:
  "ui_update i g [new_feature i g'] = [new_feature i g]"
  by (simp add: ui_update_def new_feature_def)

lemma new_feature_simps [simp]:
  "feature_id (new_feature i g) = i" "properties (new_feature i g) = []"
  "geometry (new_feature i g) = g"
  by (simp_all add: new_feature_def)

lemma filter_absent_id [simp]:
  "i \<notin> feature_id ` set ws \<Longrightarrow> filter (\<lambda>f. feature_id f \<noteq> i) ws = ws"
  "i \<notin> feature_id ` set ws \<Longrightarrow> filter (\<lambda>f. feature_id f = i) ws = []"
  by (induction ws) auto

subsection \<open>The drawing in progress\<close>

lemma drawing_split:
  assumes "mode_ok ws m" and "drawing_id m = Some i" and "i \<in> feature_id ` set ws"
    and "distinct (map feature_id ws)"
  obtains ws0 where "ws = ws0 @ [new_feature i (progress_geom m)]" and "i \<notin> feature_id ` set ws0"
proof -
  have "ws \<noteq> [] \<and> last ws = new_feature i (progress_geom m)"
    using assms(1-3) by (cases m) auto
  then have ws: "ws = butlast ws @ [new_feature i (progress_geom m)]"
    by (metis append_butlast_last_id)
  moreover have "i \<notin> feature_id ` set (butlast ws)"
  proof -
    have "distinct (map feature_id (butlast ws @ [new_feature i (progress_geom m)]))"
      using assms(4) ws by metis
    then show ?thesis by auto
  qed
  ultimately show thesis using that by blast
qed

subsection \<open>Runs of inputs\<close>

lemma widget_run_append:
  "widget_run opts (xs @ ys) wd =
     (case widget_run opts xs wd of
        (wd1, es) \<Rightarrow> (case widget_run opts ys wd1 of (wd2, es') \<Rightarrow> (wd2, es @ es')))"
  by (induction xs arbitrary: wd) (auto split: prod.split)

lemma select_clicks:
  "widget_run opts (map ClickMap ps @ [FinishDrawing]) \<lparr>wstore = ws, wmode = SimpleSelect []\<rparr> =
     (\<lparr>wstore = ws, wmode = SimpleSelect []\<rparr>, replicate (Suc (length ps)) None)"
  by (induction ps) (simp_all add: widget_step_def)

text \<open>
  Clicks of a drawing mode whose feature is gone from the store, then Enter: whether a
  click falls on the last vertex and ends the mode early or not, nothing fires and the
  store stays as it is.
\<close>

lemma clicks_detached:
  "i \<notin> feature_id ` set ws \<Longrightarrow>
   widget_run opts (map ClickMap ps @ [FinishDrawing]) \<lparr>wstore = ws, wmode = DrawLineString i vs\<rparr> =
     (\<lparr>wstore = ws, wmode = SimpleSelect []\<rparr>, replicate (Suc (length ps)) None)"
proof (induction ps arbitrary: vs)
  case Nil
  then show ?case by (simp add: widget_step_def change_mode_def finish_drawing_def)
next
  case (Cons p ps)
  show ?case
  proof (cases "vs \<noteq> [] \<and> p = last vs")
    case True
    with Cons.prems show ?thesis
      by (simp add: widget_step_def change_mode_def finish_drawing_def select_clicks)
  next
    case False
    with Cons show ?thesis by (auto simp add: widget_step_def ui_update_absent)
  qed
qed

text \<open>Clicks at new positions while a line is drawn add them as vertices.\<close>

lemma clicks_drawing:
  "i \<notin> feature_id ` set ws0 \<Longrightarrow> distinct (vs @ ps) \<Longrightarrow>
   widget_run opts (map ClickMap ps)
     \<lparr>wstore = ws0 @ [new_feature i (LineString (with_pointer vs))], wmode = DrawLineString i vs\<rparr> =
     (\<lparr>wstore = ws0 @ [new_feature i (LineString (with_pointer (vs @ ps)))], wmode = DrawLineString i (vs @ ps)\<rparr>,
      replicate (length ps) None)"
proof (induction ps arbitrary: vs)
  case (Cons p ps)
  then have "\<not> (vs \<noteq> [] \<and> p = last vs)" by auto
  with Cons show ?case by (auto simp add: widget_step_def ui_update_absent)
qed simp

text \<open>A click at the last vertex of a line ends it as Enter does.\<close>

lemma click_last_vertex:
  "vs \<noteq> [] \<Longrightarrow>
   widget_step opts (ClickMap (last vs)) \<lparr>wstore = ws, wmode = DrawLineString i vs\<rparr> =
   widget_step opts FinishDrawing \<lparr>wstore = ws, wmode = DrawLineString i vs\<rparr>"
  by (simp add: widget_step_def)

lemma w_connect_map: "w_connect map_draw_options k =
  \<lparr>wstore = [new_feature k (LineString [])], wmode = DrawLineString k []\<rparr>"
  by (simp add: w_connect_def map_draw_options_def mode_of_name_def with_pointer_def)

lemma onLoad_set_store:
  assumes "decode_features j = Some fs"
  shows "\<exists>r. onLoad ra (s\<lparr>draw := Some ws\<rparr>) (Some j) = Inr r \<and> draw (out_map r) = Some fs"
  using assms by (simp add: onLoad_def Let_def draw_set_def draw_getAll_def quiet_def)

lemma dm_drawing_ok: "widget_inv dm_drawing"
  by (simp add: widget_inv_def dm_drawing_def dm_line_def new_feature_def with_pointer_def)

section \<open>Properties\<close>

text \<open>
  C24: On a page loaded with saved drawings, the load handler's draw.set removes the line
  the default mode draw_line_string started, so the user's first clicks and Enter draw
  nothing: no event fires and the store keeps only the saved drawings.
\<close>

theorem reload_loses_first_line:
  assumes "decode_features j = Some fs" and "k \<notin> feature_id ` set fs"
  shows "(\<exists>r. onLoad ra (s\<lparr>draw := Some (wstore (w_connect map_draw_options k))\<rparr>) (Some j) = Inr r \<and>
              draw (out_map r) = Some fs) \<and>
         widget_run map_draw_options (map ClickMap ps @ [FinishDrawing]) (w_api fs (w_connect map_draw_options k)) =
           (\<lparr>wstore = fs, wmode = SimpleSelect []\<rparr>, replicate (Suc (length ps)) None)"
proof -
  have "w_api fs (w_connect map_draw_options k) = \<lparr>wstore = fs, wmode = DrawLineString k []\<rparr>"
    by (simp add: w_connect_map w_api_def)
  then show ?thesis
    using onLoad_set_store [OF assms(1)] clicks_detached [OF assms(2), of map_draw_options ps "[]"]
    by simp
qed

text \<open>
  C25: On a page without saved drawings, two clicks or more at distinct positions in the
  default mode, ended by Enter or by a click on the last vertex, create the line through
  the clicked positions and fire draw.create with it.
\<close>

theorem fresh_page_draws_first_line:
  assumes "2 \<le> length ps" and "distinct ps"
  shows "widget_run map_draw_options (map ClickMap ps @ [FinishDrawing]) (w_connect map_draw_options k) =
           (\<lparr>wstore = [new_feature k (LineString ps)], wmode = SimpleSelect [k]\<rparr>,
            replicate (length ps) None @ [Some (DrawCreate [new_feature k (LineString ps)])]) \<and>
         widget_run map_draw_options (map ClickMap ps @ [ClickMap (last ps)]) (w_connect map_draw_options k) =
           (\<lparr>wstore = [new_feature k (LineString ps)], wmode = SimpleSelect [k]\<rparr>,
            replicate (length ps) None @ [Some (DrawCreate [new_feature k (LineString ps)])])"
proof -
  let ?wd = "\<lparr>wstore = [new_feature k (LineString (with_pointer ps))], wmode = DrawLineString k ps\<rparr>"
  have clicks: "widget_run map_draw_options (map ClickMap ps) (w_connect map_draw_options k) =
                  (?wd, replicate (length ps) None)"
    using clicks_drawing [of k "[]" "[]" ps map_draw_options] assms(2)
    by (simp add: w_connect_map with_pointer_def)
  have fin: "widget_step map_draw_options FinishDrawing ?wd =
               (\<lparr>wstore = [new_feature k (LineString ps)], wmode = SimpleSelect [k]\<rparr>,
                Some (DrawCreate [new_feature k (LineString ps)]))"
    using assms(1)
    by (simp add: widget_step_def change_mode_def finish_drawing_def ui_update_def new_feature_def Let_def)
  have "ps \<noteq> []" using assms(1) by auto
  then have "widget_step map_draw_options (ClickMap (last ps)) ?wd =
               widget_step map_draw_options FinishDrawing ?wd"
    by (rule click_last_vertex)
  with clicks fin show ?thesis by (simp add: widget_run_append)
qed

text \<open>
  C26: Deleting a drawing from the list while a line is being drawn makes the adapter's
  deleteDrawing report the unfinished line to the controller and write it to localStorage,
  because getAll returns the drawing in progress.
\<close>

theorem delete_during_drawing_reports_unfinished:
  assumes "widget_inv wd" and "wmode wd = DrawLineString k vs" and "k \<in> feature_id ` set (wstore wd)"
    and "i \<noteq> k" and "draw s = Some (wstore wd)"
  shows "\<exists>fs. out_emit (deleteDrawing ra i s st) = Some fs \<and>
              new_feature k (LineString (with_pointer vs)) \<in> set fs \<and>
              out_storage (deleteDrawing ra i s st) = Some (encode_features fs)"
proof -
  obtain ws0 where ws0: "wstore wd = ws0 @ [new_feature k (progress_geom (wmode wd))]"
    using drawing_split [of "wstore wd" "wmode wd" k] assms(1-3) by (auto simp: widget_inv_def)
  let ?fs = "draw_delete i (wstore wd)"
  have "new_feature k (LineString (with_pointer vs)) \<in> set ?fs"
    using ws0 assms(2,4) by (simp add: draw_delete_def)
  then show ?thesis
    using assms(5) by (auto simp: deleteDrawing_def Let_def draw_getAll_def storeDrawings_def)
qed

theorem reload_loses_first_line_witness:
  "decode_features (encode_features [dm_line]) = Some [dm_line] \<and> ''k'' \<notin> feature_id ` set [dm_line] \<and>
   (\<exists>r. onLoad (\<lambda>_. 0) (map_initial\<lparr>draw := Some (wstore (w_connect map_draw_options ''k''))\<rparr>)
          (Some (encode_features [dm_line])) = Inr r \<and> draw (out_map r) = Some [dm_line]) \<and>
   widget_run map_draw_options (map ClickMap [dm_p1, dm_p2] @ [FinishDrawing])
     (w_api [dm_line] (w_connect map_draw_options ''k'')) =
     (\<lparr>wstore = [dm_line], wmode = SimpleSelect []\<rparr>, [None, None, None])"
proof -
  have h: "decode_features (encode_features [dm_line]) = Some [dm_line]" "''k'' \<notin> feature_id ` set [dm_line]"
    by (simp_all add: dm_line_def new_feature_def)
  show ?thesis
    using reload_loses_first_line [OF h, of "\<lambda>_. 0" map_initial "[dm_p1, dm_p2]"] h
    by (simp add: numeral_3_eq_3)
qed

theorem fresh_page_draws_first_line_witness:
  "2 \<le> length [dm_p1, dm_p2] \<and> distinct [dm_p1, dm_p2] \<and>
   widget_run map_draw_options (map ClickMap [dm_p1, dm_p2] @ [FinishDrawing]) (w_connect map_draw_options ''k'') =
     (\<lparr>wstore = [new_feature ''k'' (LineString [dm_p1, dm_p2])], wmode = SimpleSelect [''k'']\<rparr>,
      [None, None, Some (DrawCreate [new_feature ''k'' (LineString [dm_p1, dm_p2])])]) \<and>
   widget_run map_draw_options (map ClickMap [dm_p1, dm_p2] @ [ClickMap dm_p2]) (w_connect map_draw_options ''k'') =
     (\<lparr>wstore = [new_feature ''k'' (LineString [dm_p1, dm_p2])], wmode = SimpleSelect [''k'']\<rparr>,
      [None, None, Some (DrawCreate [new_feature ''k'' (LineString [dm_p1, dm_p2])])])"
proof -
  have d: "distinct [dm_p1, dm_p2]" by (simp add: dm_p1_def dm_p2_def)
  show ?thesis using fresh_page_draws_first_line [of "[dm_p1, dm_p2]" "''k''"] d by simp
qed

theorem delete_during_drawing_reports_unfinished_witness:
  "widget_inv dm_drawing \<and> wmode dm_drawing = DrawLineString ''k'' [dm_p1, dm_p2] \<and>
   ''k'' \<in> feature_id ` set (wstore dm_drawing) \<and> ''a'' \<noteq> ''k'' \<and>
   draw (map_initial\<lparr>draw := Some (wstore dm_drawing)\<rparr>) = Some (wstore dm_drawing) \<and>
   (\<exists>fs. out_emit (deleteDrawing (\<lambda>_. 0) ''a'' (map_initial\<lparr>draw := Some (wstore dm_drawing)\<rparr>) None) = Some fs \<and>
         new_feature ''k'' (LineString (with_pointer [dm_p1, dm_p2])) \<in> set fs \<and>
         out_storage (deleteDrawing (\<lambda>_. 0) ''a'' (map_initial\<lparr>draw := Some (wstore dm_drawing)\<rparr>) None) =
           Some (encode_features fs))"
proof -
  have h: "wmode dm_drawing = DrawLineString ''k'' [dm_p1, dm_p2]" "''k'' \<in> feature_id ` set (wstore dm_drawing)"
    by (simp_all add: dm_drawing_def new_feature_def)
  have d: "''a'' \<noteq> ''k''" "draw (map_initial\<lparr>draw := Some (wstore dm_drawing)\<rparr>) = Some (wstore dm_drawing)"
    by simp_all
  show ?thesis
    using delete_during_drawing_reports_unfinished [OF dm_drawing_ok(1) h d, of "\<lambda>_. 0" None]
      dm_drawing_ok(1) h d
    by simp
qed

text \<open>
  C27: The list commands of the page during a drawing. A list delete leaves drawData and
  the entry without the unfinished line, because the controller's own setDrawData and
  setItem of its filtered list replace what the adapter reported and wrote, while the
  store keeps the line. Clear list deletes the line from the store with everything else,
  so the drawing mode goes on without its feature: the user's next clicks and Enter fire
  no event and the store stays empty.
\<close>

theorem list_commands_during_drawing:
  assumes "widget_inv wd" and "wmode wd = DrawLineString k vs" and "k \<in> feature_id ` set (wstore wd)"
    and "i \<noteq> k" and "mapRef w = Some m" and "draw m = Some (wstore wd)"
    and "k \<notin> feature_id ` set (drawData w)"
  shows "k \<notin> feature_id ` set (drawData (app_deleteDrawing ra i w)) \<and>
         local_storage (app_deleteDrawing ra i w) =
           Some (encode_features (filter (\<lambda>d. feature_id d \<noteq> i) (drawData w))) \<and>
         new_feature k (LineString (with_pointer vs)) \<in>
           set (the (draw (the (mapRef (app_deleteDrawing ra i w))))) \<and>
         mapRef (handleClearList w) = Some (clearAll m) \<and> draw (clearAll m) = Some [] \<and>
         widget_run map_draw_options (map ClickMap ps @ [FinishDrawing]) (w_api [] wd) =
           (\<lparr>wstore = [], wmode = SimpleSelect []\<rparr>, replicate (Suc (length ps)) None)"
proof -
  obtain ws0 where ws0: "wstore wd = ws0 @ [new_feature k (progress_geom (wmode wd))]"
    using drawing_split [of "wstore wd" "wmode wd" k] assms(1-3) by (auto simp: widget_inv_def)
  have kept: "new_feature k (LineString (with_pointer vs)) \<in> set (draw_delete i (wstore wd))"
    using ws0 assms(2,4) by (simp add: draw_delete_def)
  have store: "draw (the (mapRef (app_deleteDrawing ra i w))) = Some (draw_delete i (wstore wd))"
    using assms(5,6)
    by (simp add: app_deleteDrawing_def deliver_def deleteDrawing_def Let_def handleDataChange_def
        split: option.split)
  have run: "widget_run map_draw_options (map ClickMap ps @ [FinishDrawing]) (w_api [] wd) =
               (\<lparr>wstore = [], wmode = SimpleSelect []\<rparr>, replicate (Suc (length ps)) None)"
  proof -
    have "w_api [] wd = \<lparr>wstore = [], wmode = DrawLineString k vs\<rparr>" using assms(2) by (simp add: w_api_def)
    then show ?thesis using clicks_detached [of k "[]" map_draw_options ps vs] by simp
  qed
  show ?thesis
    using assms(5,6,7) kept store run
    by (auto simp: app_deleteDrawing_def handleClearList_def clearAll_def draw_deleteAll_def Let_def)
qed

theorem list_commands_during_drawing_witness:
  "widget_inv dm_drawing \<and> wmode dm_drawing = DrawLineString ''k'' [dm_p1, dm_p2] \<and>
   ''k'' \<in> feature_id ` set (wstore dm_drawing) \<and> ''a'' \<noteq> ''k'' \<and>
   mapRef dm_page = Some (map_initial\<lparr>map_alive := True, draw := Some (wstore dm_drawing)\<rparr>) \<and>
   draw (map_initial\<lparr>map_alive := True, draw := Some (wstore dm_drawing)\<rparr>) = Some (wstore dm_drawing) \<and>
   ''k'' \<notin> feature_id ` set (drawData dm_page) \<and>
   ''k'' \<notin> feature_id ` set (drawData (app_deleteDrawing (\<lambda>_. 0) ''a'' dm_page)) \<and>
   local_storage (app_deleteDrawing (\<lambda>_. 0) ''a'' dm_page) =
     Some (encode_features (filter (\<lambda>d. feature_id d \<noteq> ''a'') (drawData dm_page))) \<and>
   new_feature ''k'' (LineString (with_pointer [dm_p1, dm_p2])) \<in>
     set (the (draw (the (mapRef (app_deleteDrawing (\<lambda>_. 0) ''a'' dm_page))))) \<and>
   mapRef (handleClearList dm_page) =
     Some (clearAll (map_initial\<lparr>map_alive := True, draw := Some (wstore dm_drawing)\<rparr>)) \<and>
   draw (clearAll (map_initial\<lparr>map_alive := True, draw := Some (wstore dm_drawing)\<rparr>)) = Some [] \<and>
   widget_run map_draw_options (map ClickMap [dm_p1] @ [FinishDrawing]) (w_api [] dm_drawing) =
     (\<lparr>wstore = [], wmode = SimpleSelect []\<rparr>, [None, None])"
proof -
  have h: "wmode dm_drawing = DrawLineString ''k'' [dm_p1, dm_p2]" "''k'' \<in> feature_id ` set (wstore dm_drawing)"
    "''a'' \<noteq> ''k''"
    "mapRef dm_page = Some (map_initial\<lparr>map_alive := True, draw := Some (wstore dm_drawing)\<rparr>)"
    "draw (map_initial\<lparr>map_alive := True, draw := Some (wstore dm_drawing)\<rparr>) = Some (wstore dm_drawing)"
    "''k'' \<notin> feature_id ` set (drawData dm_page)"
    by (simp_all add: dm_drawing_def dm_page_def dm_line_def new_feature_def)
  show ?thesis
    using list_commands_during_drawing [OF dm_drawing_ok(1) h, of "\<lambda>_. 0" "[dm_p1]"] dm_drawing_ok(1) h
    by simp
qed

end
