(* ===== verification/Spec2Isabelle.thy ===== *)
theory Spec2Isabelle
  imports Entry_Text Draw_Styles Adapter_Contract Draw_Modes
begin

text \<open>
  \<^bold>\<open>A verification library for the map annotation tool\<close> (\<open>src/src/App.tsx\<close>,
  \<open>src/src/components/Map.tsx\<close>, \<open>src/src/components/styles/mapboxStyles.ts\<close>).

  \<^bold>\<open>The program.\<close> A React page in which the user draws lines and polygons on a map,
  picks their colours and sees their area. Two components share one feature collection.
  The drawing-surface adapter \<open>Map\<close> owns the mapbox-gl-draw store, listens to its
  create/update/delete events (\<open>updateMap\<close>) and reports the collection to its parent
  through the callback \<open>mapDrawings\<close>. The controller \<open>App\<close> keeps that report as
  \<open>drawData\<close>, renders it as a list, and calls back into the adapter through
  \<open>mapRef\<close> (\<open>deleteDrawing\<close>, \<open>clearAll\<close>). Both components write the
  \<open>'user_drawings'\<close> entry of localStorage, and both read it at start-up. The
  collection therefore lives in three mirrors: the store, \<open>drawData\<close> and localStorage.

  \<^bold>\<open>Theories.\<close>
  \<^item> \<open>Prelude\<close>: type names, the collections \<open>store_simps\<close> and \<open>handler_defs\<close>, and
    generic lemmas on projections of lists, folds, \<open>those\<close> and association lists.
  \<^item> \<open>Geo\<close>: GeoJSON features (a record of id, geometry and properties, the properties an
    ordered association list), the mapbox-gl-draw store operations \<open>Map.tsx\<close> calls
    (\<open>draw_getAll\<close>, \<open>draw_set\<close>, \<open>draw_delete\<close>, \<open>draw_deleteAll\<close>,
    \<open>draw_setFeatureProperty\<close>) and the three user interactions (\<open>ui_create\<close>,
    \<open>ui_update\<close>, \<open>ui_trash\<close>). Also turf's area (\<open>turf_area\<close>, with turf's
    \<open>ringArea\<close> left as a parameter \<open>ra\<close>) and \<open>round2\<close>, the code's
    \<open>Math.round(area * 100) / 100\<close>. Lemmas: shapes (id and geometry) are kept by
    property updates and by deletion, the area reads shapes only, and rounding is within
    \<open>1/200\<close> (C8).
  \<^item> \<open>Json_Codec\<close>: the JSON value of a feature array as \<open>JSON.stringify\<close> writes it and
    its reading back as a feature list of the model; \<open>decode_encode_features\<close> is the
    round trip.
  \<^item> \<open>Map_Adapter\<close>: \<open>Map.tsx\<close>. Its refs and state form the record \<open>map_state\<close>. Each
    handler is one definition: \<open>handleLineColorChange\<close>, \<open>handleFillColorChange\<close>, the
    effects \<open>sync_line_color_ref\<close> and \<open>sync_fill_color_ref\<close>, \<open>storeDrawings\<close>,
    \<open>clearAll\<close>, \<open>deleteDrawing\<close>, \<open>mount\<close> (the mount effect), \<open>onLoad\<close> (the map's
    \<open>load\<close> handler), \<open>updateMap\<close> with \<open>apply_colors\<close> (its \<open>forEach\<close>), and
    \<open>teardown\<close>. A handler returns a \<open>map_out\<close>: its new state, the new localStorage
    entry, the list it passed to \<open>mapDrawings\<close> (if any) and the alerts it raised. The
    \<open>error\<close> of an \<open>error + _\<close> result is either the uncaught exception of
    \<open>JSON.parse\<close> (\<open>MalformedStorage\<close>) or the boundary of the model
    (\<open>UnrepresentedEntry\<close>: parsed JSON that is not a feature list the model represents,
    on which the program goes on in ways the model leaves out). The JSX below the map is
    \<open>render_panel\<close>: the area and the two colour inputs, whose displayed value is the
    colour state after HTML's value sanitization (\<open>color_input_value\<close>). Lemmas: one
    equation per handler, covering all of its branches; C3 (a created feature is reported
    and persisted without its colours); C19 (the \<open>forEach\<close> of \<open>setFeatureProperty\<close>
    calls equals one pass, \<open>colour_features\<close>).
  \<^item> \<open>App_Controller\<close>: \<open>App.tsx\<close>. The record \<open>world\<close> holds \<open>drawData\<close>, the adapter
    instance behind \<open>mapRef\<close>, localStorage, the alerts so far and whether the map has
    loaded. Definitions: \<open>initial_drawData\<close>/\<open>world_init\<close> (the state initialiser),
    \<open>handleDataChange\<close>, \<open>deliver\<close> (an adapter outcome reaching the page, its report
    going to \<open>handleDataChange\<close>), \<open>app_deleteDrawing\<close> (the source's \<open>deleteDrawing\<close>),
    \<open>handleClearList\<close> and \<open>render_list\<close>. React applies the state updates of one
    handler in order, the last winning; the model applies them in that order, and a closure
    reads the state of the render that created it (\<open>drawData w\<close> in
    \<open>app_deleteDrawing\<close>). C12: the list's numbering.
  \<^item> \<open>System\<close>: the page. The events are the datatype \<open>event\<close>, \<open>world_step\<close> runs the
    handler each event triggers, \<open>enabled\<close> says which events the environment can deliver
    in a state (a colour input only with a colour the picker yields that differs from the
    one shown, since the browser reports no other), \<open>run\<close> applies a sequence of
    events, and \<open>reachable\<close> is the inductive set of states reachable from any
    localStorage entry the model represents. The store of \<open>System\<close> holds the completed
    drawings: the line the default mode starts, and any drawing in progress, are the
    subject of \<open>Draw_Modes\<close>. The invariant \<open>sys_inv\<close> has three parts. (1) The entry
    reads back as \<open>drawData\<close>. (2) Before the map's \<open>load\<close> the store is empty; after it,
    the store and \<open>drawData\<close> agree on ids and geometries in order. (3) The displayed
    area is the rounded area of the store of completed drawings, a helper of the proofs:
    in the program \<open>deleteDrawing\<close> computes the area over \<open>getAll\<close>, which includes a
    drawing in progress (C26). One lemma per event shows the event keeps the invariant
    (\<open>sys_inv_step\<close>), and rule induction lifts it to all reachable states
    (\<open>reachable_sys_inv\<close>). The abstract specification \<open>abs_step\<close> treats the
    collection as an ordered list of ids and geometries. \<open>list_refines_collection\<close>
    shows that each event changes \<open>drawData\<close> as \<open>abs_step\<close> changes the abstract list.
    From it, \<open>run_distinct\<close> shows that ids stay distinct along a run.
  \<^item> \<open>Draw_Styles\<close>: the layers of \<open>mapboxStyles.ts\<close> and the colour each paints a
    feature with: the \<open>coalesce\<close> of the colour property with \<open>#000000\<close>, coerced to a
    colour (\<open>coerce_color\<close>), a string that is no colour (the empty one among them)
    falling to the paint default \<open>#000000\<close> (C13).
  \<^item> \<open>Json_Text\<close>: the text of the entry. \<open>print_json\<close> is \<open>JSON.stringify\<close>: numbers
    as ECMAScript's \<open>Number::toString\<close> lays out their digits (\<open>print_number\<close>), strings
    as \<open>QuoteJSONString\<close> escapes them (\<open>print_string\<close>). \<open>json_parse\<close> is
    \<open>JSON.parse\<close>: a recursive descent (\<open>parse_value\<close>, \<open>parse_number\<close>,
    \<open>parse_chars\<close>) with whitespace between tokens, a repeated key replacing the earlier
    value in its place. \<open>read_entry_text\<close> is the reading of an entry's text as the
    feature list it denotes (the empty string counting as no entry), with which the round
    trips are stated. Lemmas: each printed number, string and value parses back (numbers
    in the form of a JavaScript number, \<open>canon_dec\<close>, of the same value), and the fuel
    \<open>json_parse\<close> gives suffices (\<open>jsize_le_print\<close>). Every parse that succeeds with some
    fuel succeeds with \<open>json_parse\<close>'s (\<open>parse_fuel_adequate\<close>, by induction on the fuel
    over the three mutually recursive parsers; \<open>json_parse_complete\<close>). So a parse's value
    and remainder do not depend on the fuel (\<open>parse_value_deterministic\<close>), and a printed
    collection without its closing bracket parses at no fuel (\<open>json_parse_unclosed\<close>).
  \<^item> \<open>Adapter_Contract\<close>: the adapter's contract of the specification (section 4.1)
    over the collection alone, one function per operation (\<open>spec_deleteFeature\<close>,
    \<open>spec_clearAll\<close>, \<open>spec_onChange\<close>, \<open>spec_load\<close>), and \<open>implements\<close>, which relates a
    handler's outcome to a contract outcome. C22 is the refinement: every operation but
    the colouring of a created drawing meets its contract.
  \<^item> \<open>Entry_Text\<close>: the page over the text of the entry. Two invariants of runs:
    property keys stay distinct in \<open>drawData\<close> and the store (\<open>world_keys_ok\<close>), and
    the entry is what one of the two writers would write for \<open>drawData\<close>
    (\<open>entry_encodes\<close>). One lemma per handler, a step lemma over all events, and
    \<open>text_inv_run\<close> over runs. \<open>initial_drawData_text\<close> is the controller's
    initialiser (\<open>App.tsx\<close> lines 15-22) and \<open>onLoad_text\<close> the map's load handler
    (\<open>Map.tsx\<close> lines 133-137) over the text of the entry: \<open>getItem\<close>, the truthiness
    test and \<open>JSON.parse\<close>, then the handlers on the parsed value; C23.
  \<^item> \<open>Draw_Modes\<close>: the draw control as \<open>Map.tsx\<close> builds it (\<open>map_draw_options\<close>,
    lines 118-128; \<open>w_connect\<close>, line 130) and mapbox-gl-draw's modes. The record
    \<open>widget\<close> holds the library's store, which includes the drawing in progress, and the
    mode (\<open>draw_mode\<close>: simple_select with its selection, direct_select, draw_line_string
    and draw_polygon with the vertices clicked). \<open>widget_step\<close> is one user input, with
    the event it fires: a click adds a vertex, or ends the drawing when it falls on the
    last vertex (or the first of a polygon), Enter ends it, Escape discards it. \<open>w_api\<close>
    is a call of the adapter on the store, and \<open>widget_inv\<close> says the drawing in progress
    is the last feature of the store or gone. C24-C27 compose the widget with the
    adapter's load handler and delete and with the controller's list commands.
  \<^item> This theory: properties that span components (C1, C2, C4-C7, C9-C11, C14-C18, C20,
    C21), stated over reachable states, runs, or any loaded page, with the helpers
    \<open>user_draw_step\<close> (a completed drawing on a loaded page) and \<open>reload_entry\<close>.

  \<^bold>\<open>Results.\<close> The mirrors agree at every reachable state: localStorage reads back as
  the list exactly (C1), and after loading the store holds the same drawings (C2). The
  list follows the abstract collection event by event (C16), and ids stay distinct (C17).
  A reload reproduces the list (C4). Colours, however, are not mirrored. \<open>updateMap\<close>
  reads the collection before it sets the colours of a created feature (C3). The
  controller's own write on delete replaces the adapter's write with its copy built from
  those reports, so the entry loses the colours of drawings made since (C11), and a line
  drawn in a picked colour comes back black after a reload (C14). A drawing completed
  before any colour is picked carries the empty colours, which the styles paint black
  (C15); a picked colour is applied to the next drawing (C10), and the styles paint a
  feature in its colours (C13). Deleting the last drawing from the list leaves an empty
  array in localStorage rather than removing the entry, which silences the start-up
  prompt (C7). Deleting an absent id changes nothing but the area (C5), clear-all empties
  everything (C6), deletions never alert (C9), and every listed drawing can be deleted
  from all three mirrors (C21). At the level of text, what the page writes reads back
  through \<open>JSON.parse\<close> as the same drawings (C18), and after every run from an entry the
  page could have written, the entry's text reads back as the list (C20). The readers do
  not guard \<open>JSON.parse\<close>: an entry that lost its last character makes every later
  first render and load throw (C23). Since the store holds the drawing in progress, the
  load handler's \<open>draw.set\<close> removes the line the default mode started, so after a
  reload with saved drawings the first line drawn is lost (C24), while on a fresh page
  clicks at distinct positions and Enter, or a click on the last vertex, create it (C25).
  The adapter's delete during a drawing reports and persists the unfinished line (C26),
  which the controller's own writes mask on the page, while Clear list during a drawing
  loses the line being drawn (C27).

  \<^bold>\<open>Modelling choices.\<close> JavaScript numbers are exact: the area is \<open>real\<close> and a
  coordinate a decimal, so floating-point rounding is not modelled. The program has no
  loops beyond the \<open>forEach\<close> over created features (a \<open>fold\<close>). The only fuel is
  that of \<open>JSON.parse\<close>, whose descent recurses on the output of its own calls: one
  unit per value, element and member, and \<open>json_parse\<close> gives one more unit than the
  text has characters. That is enough for every printed value, because \<open>jsize\<close>, the
  fuel a value needs, is at most the length of its text, and it never makes a parse
  fail that some fuel would let succeed (\<open>json_parse_complete\<close>). Every definition is
  total and executable, and concrete runs evaluate by \<open>simp\<close>. The libraries the
  program only calls are modelled from their documented behaviour: mapbox-gl-draw's
  store and modes, turf's area summation, Mapbox's colour coercion, and the runtime's
  JSON (ECMA-262).

  \<^bold>\<open>Not modelled.\<close> The mapbox-gl rendering engine (only whether the map exists), the
  geodesic ring area (a parameter), the layout and CSS of the JSX (its content is
  \<open>render_panel\<close> and \<open>render_list\<close>), the module imports and style constants, and the
  access token. Entries holding JSON that is not a feature list of the model, such as
  \<open>[{}]\<close> or a number, stop the model at \<open>UnrepresentedEntry\<close>: the controller would
  keep such a value as \<open>drawData\<close> and render it, while \<open>draw.set\<close> throws on most of
  them. The page's handlers work on the JSON value of the entry. Its text is the
  subject of \<open>Json_Text\<close>, \<open>Entry_Text\<close>, C18, C20 and C23, with characters of 8
  bits: code units beyond 255 are outside the model. Numbers beyond the range of doubles
  are printed exactly, not as \<open>Infinity\<close> or \<open>0\<close>. CSS colour names and functional
  notations are outside the colour parser (the page writes only hexadecimal colours).
  React's effects are part of the step of the event that caused them (a colour input and
  the effect copying it into its ref are one step), because React runs the effects of a
  discrete event before it handles the next one. Of mapbox-gl-draw's modes the model
  leaves out the pointer position between clicks (the pointer vertex sits on the last
  click), the click tolerance around a vertex (a click on a vertex is a click at its
  position), the selection of single vertices, the dragging of several features at once,
  and the point and combine controls, which \<open>Map.tsx\<close> does not show.

  \<^bold>\<open>What remains.\<close> Every statement of the three source files that changes state is a
  definition of the library; the lines the map leaves out are imports, the access token,
  CSS style constants and comments, none of which has behaviour to verify. \<open>System\<close>
  keeps the store of completed drawings; the page with a drawing in progress is covered
  by C24-C27 rather than by a second event loop over the widget.
\<close>

section \<open>Concrete data for the witnesses\<close>

text \<open>
  A ring-area function (the number of vertices, standing in for turf's geodesic
  \<open>ringArea\<close>), a triangle drawn as a polygon with both colours set, and the page after
  it was reloaded from an entry holding that triangle: mounted, loaded, the triangle in
  the store, in \<open>drawData\<close> and in localStorage.
\<close>

definition demo_ra :: ring_area where
  "demo_ra r = real (length r)"

definition demo_f1 :: feature where
  "demo_f1 =
     \<lparr>feature_id = ''a'',
      geometry = Polygon [[(Dec 0 0, Dec 0 0), (Dec 1 0, Dec 0 0), (Dec 0 0, Dec 1 0),
                           (Dec 0 0, Dec 0 0)]],
      properties = [(''lineColor'', ''#ff0000''), (''fillColor'', ''#00ff00'')]\<rparr>"

definition demo_session :: world where
  "demo_session =
     \<lparr>drawData = [demo_f1], mapRef = None, local_storage = Some (encode_features [demo_f1]),
      alerts = [], map_loaded = False\<rparr>"

definition demo_loaded :: world where
  "demo_loaded =
     \<lparr>drawData = [demo_f1],
      mapRef = Some (map_initial\<lparr>map_alive := True, draw := Some [demo_f1],
                                 rounded_area := Some (round2 (turf_area demo_ra [demo_f1]))\<rparr>),
      local_storage = Some (encode_features [demo_f1]), alerts = [], map_loaded = True\<rparr>"

text \<open>Two drawings as the user completes them: fresh ids, no properties yet.\<close>

definition demo_g1 :: feature where
  "demo_g1 = \<lparr>feature_id = ''g1'', geometry = LineString [(Dec 0 0, Dec 0 0), (Dec 1 0, Dec 1 0)],
              properties = []\<rparr>"

definition demo_g2 :: feature where
  "demo_g2 = \<lparr>feature_id = ''g2'', geometry = LineString [(Dec 2 0, Dec 2 0), (Dec 3 0, Dec 3 0)],
              properties = []\<rparr>"

definition demo_empty :: world where
  "demo_empty = \<lparr>drawData = [], mapRef = None, local_storage = None, alerts = [], map_loaded = False\<rparr>"

text \<open>The loaded page after the user picked red for lines and green for fills.\<close>

definition demo_picked :: world where
  "demo_picked =
     demo_loaded\<lparr>mapRef := map_option (\<lambda>m. m\<lparr>line_color := ''#ff0000'', fill_color := ''#00ff00'',
                                             line_color_ref := ''#ff0000'', fill_color_ref := ''#00ff00''\<rparr>)
                                (mapRef demo_loaded)\<rparr>"

section \<open>Properties of the whole page\<close>

lemma demo_session_init: "world_init (Some (encode_features [demo_f1])) = Inr demo_session"
  by (simp add: world_init_def initial_drawData_def encode_features_def demo_session_def)

lemma demo_reload_run: "run demo_ra [Mount True, MapLoad] demo_session = Inr demo_loaded"
  by (simp add: demo_session_def demo_loaded_def mount_def map_initial_def onLoad_def
                encode_features_def draw_set_def draw_getAll_def Let_def)

lemma demo_loaded_reachable: "reachable demo_ra demo_loaded"
  by (rule reachable_run [OF reachable.init [OF demo_session_init] demo_reload_run])

text \<open>
  A drawing completed on a loaded page: the store gets it with the colours of the refs,
  while the list and the entry get the collection \<open>updateMap\<close> read before colouring.
\<close>

lemma user_draw_step:
  assumes "live_store w = Some ws" and "mapRef w = Some m"
    and "feature_id f \<notin> feature_id ` set ws" and "properties f = []"
  shows "enabled (UserDraw f) w \<and>
         world_step ra (UserDraw f) w =
           Inr (w\<lparr>drawData := ws @ [f],
                  mapRef := Some (m\<lparr>draw := Some (ws @ [f\<lparr>properties := [(''lineColor'', line_color_ref m),
                                                                          (''fillColor'', fill_color_ref m)]\<rparr>]),
                                    rounded_area := Some (round2 (turf_area ra (ws @ [f])))\<rparr>),
                  local_storage := Some (encode_features (ws @ [f]))\<rparr>)"
proof -
  from assms(1,2) have "draw m = Some ws" by (simp add: live_store_def split: if_splits)
  with assms show ?thesis
    by (simp add: interact_def updateMap_Some ui_create_def apply_colors_new deliver_def
                  handleDataChange_def Let_def storeDrawings_def)
qed

text \<open>The page a reload builds from an entry holding \<open>fs\<close>.\<close>

lemma reload_entry:
  "\<exists>w0 w' m. world_init (Some (encode_features fs)) = Inr w0 \<and> run ra [Mount True, MapLoad] w0 = Inr w' \<and>
             mapRef w' = Some m \<and> draw m = Some fs"
proof -
  let ?w0 = "\<lparr>drawData = fs, mapRef = None, local_storage = Some (encode_features fs), alerts = [],
              map_loaded = False\<rparr>"
  have "world_init (Some (encode_features fs)) = Inr ?w0" by (simp add: world_init_Inr)
  moreover obtain w' m where "run ra [Mount True, MapLoad] ?w0 = Inr w'" "mapRef w' = Some m" "draw m = Some fs"
    using reload_run [of "Some (encode_features fs)" fs ra] by auto
  ultimately show ?thesis by blast
qed

text \<open>How the styles paint a line without properties, and one coloured by the page.\<close>

lemma paint_line_colours:
  assumes "geometry f = LineString ps"
  shows "feature_paint (f\<lparr>properties := []\<rparr>) = [(''gl-draw-line'', ''#000000'')]"
    and "picker_color lc \<Longrightarrow>
         feature_paint (f\<lparr>properties := [(''lineColor'', lc), (''fillColor'', fc)]\<rparr>) = [(''gl-draw-line'', lc)]"
  using assms by (simp_all add: feature_paint_coerce)

text \<open>
  C1: At every reachable state, the localStorage entry reads back as exactly the list the
  controller displays (\<open>drawData\<close>): no entry when the list is empty, or the JSON of the
  list, colours included.
\<close>

theorem storage_mirrors_list:
  "reachable ra w \<Longrightarrow> stored_features (local_storage w) = Some (drawData w)"
  by (drule reachable_sys_inv) (simp add: sys_inv_def)

theorem storage_mirrors_list_witness:
  "reachable demo_ra demo_loaded \<and>
   stored_features (local_storage demo_loaded) = Some (drawData demo_loaded)"
  using demo_loaded_reachable storage_mirrors_list [OF demo_loaded_reachable] by simp

text \<open>
  C2: Once the map has loaded, the drawing store and the controller's list hold the same
  drawings in the same order, each with the same id and geometry (their colour
  properties may differ).
\<close>

theorem store_agrees_with_list:
  "reachable ra w \<Longrightarrow> map_loaded w \<Longrightarrow> mapRef w = Some m \<Longrightarrow> draw m = Some ws \<Longrightarrow>
   map shape ws = map shape (drawData w)"
  by (drule reachable_sys_inv) (simp add: sys_inv_def store_ok_def)

theorem store_agrees_with_list_witness:
  "map shape [demo_f1] = map shape (drawData demo_loaded)"
  by (rule store_agrees_with_list [OF demo_loaded_reachable])
     (simp add: demo_loaded_def map_initial_def)+

text \<open>
  C4: Reloading the page reproduces the list: from the entry any reachable state left
  behind, a fresh page initialises, mounts and loads (the run returns), and then holds
  exactly the list the previous page displayed, in its store and in \<open>drawData\<close>.
\<close>

theorem reload_restores_list:
  assumes "reachable ra w"
  shows "\<exists>w0 w' m. world_init (local_storage w) = Inr w0 \<and>
           run ra [Mount True, MapLoad] w0 = Inr w' \<and>
           mapRef w' = Some m \<and> draw m = Some (drawData w) \<and> drawData w' = drawData w"
proof -
  from assms have sf: "stored_features (local_storage w) = Some (drawData w)"
    by (auto dest: reachable_sys_inv simp: sys_inv_def)
  let ?w0 = "\<lparr>drawData = drawData w, mapRef = None, local_storage = local_storage w, alerts = [],
              map_loaded = False\<rparr>"
  from sf have "world_init (local_storage w) = Inr ?w0" by (simp add: world_init_Inr)
  with reload_run [OF sf, of ra] show ?thesis by blast
qed

theorem reload_restores_list_witness:
  "\<exists>w0 w' m. world_init (local_storage demo_loaded) = Inr w0 \<and>
     run demo_ra [Mount True, MapLoad] w0 = Inr w' \<and>
     mapRef w' = Some m \<and> draw m = Some (drawData demo_loaded) \<and> drawData w' = drawData demo_loaded"
  by (rule reload_restores_list [OF demo_loaded_reachable])

text \<open>
  C5: Deleting, through the controller, an id that is not in the list changes neither the
  list, nor what the entry reads back as, nor the drawing store; the area becomes the
  rounded area of the unchanged store.
\<close>

theorem delete_absent_id_noop:
  assumes "reachable ra w" and "map_loaded w" and "mapRef w = Some m" and "draw m = Some ws"
    and "i \<notin> feature_id ` set (drawData w)"
  shows "drawData (app_deleteDrawing ra i w) = drawData w \<and>
         stored_features (local_storage (app_deleteDrawing ra i w)) = stored_features (local_storage w) \<and>
         mapRef (app_deleteDrawing ra i w) = Some (m\<lparr>rounded_area := Some (round2 (turf_area ra ws))\<rparr>)"
proof -
  from assms(1) have inv: "sys_inv ra w" by (rule reachable_sys_inv)
  with assms(2-4) have "map shape ws = map shape (drawData w)"
    by (simp add: sys_inv_def store_ok_def)
  then have "map feature_id ws = map feature_id (drawData w)" by (simp add: ids_shape)
  with assms(5) have ni: "i \<notin> feature_id ` set ws" by (metis list.set_map)
  have keep: "filter (\<lambda>d. feature_id d \<noteq> i) (drawData w) = drawData w"
    using assms(5) by (auto simp: filter_id_conv)
  from inv have "stored_features (local_storage w) = Some (drawData w)" by (simp add: sys_inv_def)
  with assms(3,4) ni keep show ?thesis
    by (simp add: app_deleteDrawing_mapRef deleteDrawing_Some draw_delete_absent)
qed

theorem delete_absent_id_noop_witness:
  "drawData (app_deleteDrawing demo_ra ''zz'' demo_loaded) = drawData demo_loaded"
  using delete_absent_id_noop [OF demo_loaded_reachable, of "the (mapRef demo_loaded)" "[demo_f1]" "''zz''"]
  by (simp add: demo_loaded_def map_initial_def demo_f1_def)

text \<open>
  C6: Clear-all empties the drawing store, sets the area to 0, empties the list and
  removes the entry; clearing again changes nothing.
\<close>

theorem clear_all_result:
  assumes "mapRef w = Some m" and "draw m = Some ws"
  shows "handleClearList w =
           w\<lparr>drawData := [], mapRef := Some (m\<lparr>draw := Some [], rounded_area := Some 0\<rparr>),
             local_storage := None\<rparr> \<and>
         handleClearList (handleClearList w) = handleClearList w"
  using assms by (simp add: handleClearList_def clearAll_def draw_deleteAll_def)

theorem clear_all_result_witness:
  "handleClearList (handleClearList demo_loaded) = handleClearList demo_loaded"
  by (rule conjunct2 [OF clear_all_result]) (simp add: demo_loaded_def map_initial_def)+

text \<open>
  C7: Deleting the last drawing from the list leaves the entry holding the empty array
  (the controller's \<open>setItem\<close> overrides the adapter's \<open>removeItem\<close>), so the next
  load prompts nothing; clearing the list removes the entry, and the next load prompts
  the user to choose colours.
\<close>

theorem delete_last_keeps_empty_entry:
  assumes "drawData w = [f]"
  shows "local_storage (app_deleteDrawing ra (feature_id f) w) = Some (JArr []) \<and>
         (\<exists>r. onLoad ra s (local_storage (app_deleteDrawing ra (feature_id f) w)) = Inr r \<and>
              out_alerts r = []) \<and>
         (\<exists>r. onLoad ra s (local_storage (handleClearList w)) = Inr r \<and>
              out_alerts r = [msg_choose_color])"
  using assms
  by (auto simp: encode_features_def onLoad_def quiet_def Let_def split: option.split)

theorem delete_last_keeps_empty_entry_witness:
  "local_storage (app_deleteDrawing demo_ra ''a'' demo_loaded) = Some (JArr [])"
  using delete_last_keeps_empty_entry [of demo_loaded demo_f1 demo_ra map_initial]
  by (simp add: demo_loaded_def demo_f1_def)

text \<open>
  C9: No deletion raises an alert: trashing drawings on the map, deleting one from the
  list and clearing the list leave the alerts as they were.
\<close>

theorem deletions_never_alert:
  assumes "e = UserTrash ids \<or> e = ListDelete i \<or> e = ListClear"
    and "enabled e w" and "world_step ra e w = Inr w'"
  shows "alerts w' = alerts w"
  using assms
  by (auto simp: interact_def updateMap_Some app_deleteDrawing_def deleteDrawing_def quiet_def Let_def
           split: option.splits)

theorem deletions_never_alert_witness:
  "alerts (app_deleteDrawing demo_ra ''a'' demo_loaded) = alerts demo_loaded"
  by (rule deletions_never_alert [of "ListDelete ''a''" _ "''a''"])
     (simp add: demo_loaded_def demo_f1_def)+


text \<open>
  C10: A colour chosen in the pickers is applied to the next drawing the user completes
  (through the refs the effects keep up to date), and to no drawing that already exists.
\<close>

theorem colour_choice_applies_to_next_drawing:
  assumes "live_store w = Some ws" and "feature_id f \<notin> feature_id ` set ws"
    and "properties f = []" and "mapRef w = Some m"
    and "picker_color c" and "c \<noteq> panel_line (render_panel m)"
    and "picker_color d" and "d \<noteq> panel_fill (render_panel m)"
  shows "\<exists>w' m'. run ra [LineColorInput c, FillColorInput d, UserDraw f] w = Inr w' \<and>
           mapRef w' = Some m' \<and>
           draw m' = Some (ws @ [f\<lparr>properties := [(''lineColor'', c), (''fillColor'', d)]\<rparr>])"
proof -
  from assms(1,4) have "map_loaded w" and "map_alive m" and ws: "draw m = Some ws"
    by (auto simp: live_store_def split: if_splits)
  with assms show ?thesis
    by (simp add: live_store_def on_map_def interact_def handleLineColorChange_def
                  sync_line_color_ref_def handleFillColorChange_def sync_fill_color_ref_def
                  updateMap_Some ui_create_def apply_colors_new render_panel_def)
qed

theorem colour_choice_applies_to_next_drawing_witness:
  "\<exists>w' m'. run demo_ra [LineColorInput ''#ff0000'', FillColorInput ''#00ff00'', UserDraw demo_g1]
             demo_loaded = Inr w' \<and> mapRef w' = Some m' \<and>
           draw m' = Some ([demo_f1] @ [demo_g1\<lparr>properties := [(''lineColor'', ''#ff0000''),
                                                             (''fillColor'', ''#00ff00'')]\<rparr>])"
  by (rule colour_choice_applies_to_next_drawing [where m = "the (mapRef demo_loaded)"])
     (simp add: live_store_def demo_loaded_def map_initial_def demo_f1_def demo_g1_def
                picker_defs)+

text \<open>
  C11: The controller's second write on delete loses colours the store keeps. On a loaded
  page, a drawing the user completes is coloured in the store with the refs' colours;
  when another drawing is then deleted from the list, the store holds the new drawing
  with both colours, but the entry, which the controller writes from its list built out
  of the reports made before colouring, reads back as the new drawing without colours
  (the other drawings as the store had them).
\<close>

theorem delete_overwrites_coloured_entry:
  assumes "live_store w = Some ws" and "mapRef w = Some m"
    and "feature_id f \<notin> feature_id ` set ws" and "properties f = []" and "i \<in> feature_id ` set ws"
  shows "\<exists>w2 m2. run ra [UserDraw f, ListDelete i] w = Inr w2 \<and> mapRef w2 = Some m2 \<and>
           draw m2 = Some (filter (\<lambda>d. feature_id d \<noteq> i) ws @
                           [f\<lparr>properties := [(''lineColor'', line_color_ref m),
                                            (''fillColor'', fill_color_ref m)]\<rparr>]) \<and>
           stored_features (local_storage w2) = Some (filter (\<lambda>d. feature_id d \<noteq> i) ws @ [f])"
proof -
  let ?f' = "f\<lparr>properties := [(''lineColor'', line_color_ref m), (''fillColor'', fill_color_ref m)]\<rparr>"
  from assms(3,5) have ne: "feature_id f \<noteq> i" by auto
  from user_draw_step [OF assms(1-4), of ra] assms(5) ne show ?thesis
    by (simp add: app_deleteDrawing_mapRef deleteDrawing_Some draw_delete_def)
qed

theorem delete_overwrites_coloured_entry_witness:
  "\<exists>w2 m2. run demo_ra [UserDraw demo_g1, ListDelete ''a''] demo_picked = Inr w2 \<and> mapRef w2 = Some m2 \<and>
     draw m2 = Some (filter (\<lambda>d. feature_id d \<noteq> ''a'') [demo_f1] @
                     [demo_g1\<lparr>properties := [(''lineColor'', ''#ff0000''), (''fillColor'', ''#00ff00'')]\<rparr>]) \<and>
     stored_features (local_storage w2) = Some (filter (\<lambda>d. feature_id d \<noteq> ''a'') [demo_f1] @ [demo_g1])"
  using delete_overwrites_coloured_entry
          [of demo_picked "[demo_f1]" "the (mapRef demo_picked)" demo_g1 "''a''" demo_ra]
  by (simp add: live_store_def demo_picked_def demo_loaded_def map_initial_def demo_f1_def demo_g1_def)

text \<open>
  C14: A drawing coloured on the page comes back black after a reload. On a loaded page
  with a colour picked for lines, a line the user completes is painted in that colour;
  the entry the page then holds reloads (the reload returns) into a page whose store
  paints the line in black, the styles' default, and every other drawing as before.
\<close>

theorem reload_loses_colours:
  assumes "live_store w = Some ws" and "mapRef w = Some m"
    and "feature_id f \<notin> feature_id ` set ws" and "properties f = []" and "geometry f = LineString ps"
    and "picker_color (line_color_ref m)"
  shows "\<exists>w1 m1 w0 w' m'. world_step ra (UserDraw f) w = Inr w1 \<and> mapRef w1 = Some m1 \<and>
           map_option (map feature_paint) (draw m1) =
             Some (map feature_paint ws @ [[(''gl-draw-line'', line_color_ref m)]]) \<and>
           world_init (local_storage w1) = Inr w0 \<and> run ra [Mount True, MapLoad] w0 = Inr w' \<and>
           mapRef w' = Some m' \<and>
           map_option (map feature_paint) (draw m') =
             Some (map feature_paint ws @ [[(''gl-draw-line'', ''#000000'')]])"
proof -
  have f: "f\<lparr>properties := []\<rparr> = f" using assms(4) by simp
  obtain w0 w' m' where r: "world_init (Some (encode_features (ws @ [f]))) = Inr w0"
    "run ra [Mount True, MapLoad] w0 = Inr w'" "mapRef w' = Some m'" "draw m' = Some (ws @ [f])"
    using reload_entry by blast
  show ?thesis
    using user_draw_step [OF assms(1-4), of ra] r paint_line_colours [OF assms(5)] assms(6) f
    by (simp del: feature_paint_def)
qed

theorem reload_loses_colours_witness:
  "\<exists>w1 m1 w0 w' m'. world_step demo_ra (UserDraw demo_g1) demo_picked = Inr w1 \<and> mapRef w1 = Some m1 \<and>
     map_option (map feature_paint) (draw m1) =
       Some (map feature_paint [demo_f1] @ [[(''gl-draw-line'', ''#ff0000'')]]) \<and>
     world_init (local_storage w1) = Inr w0 \<and> run demo_ra [Mount True, MapLoad] w0 = Inr w' \<and>
     mapRef w' = Some m' \<and>
     map_option (map feature_paint) (draw m') = Some (map feature_paint [demo_f1] @ [[(''gl-draw-line'', ''#000000'')]])"
  using reload_loses_colours
          [of demo_picked "[demo_f1]" "the (mapRef demo_picked)" demo_g1
              "[(Dec 0 0, Dec 0 0), (Dec 1 0, Dec 1 0)]" demo_ra]
  by (simp add: live_store_def demo_picked_def demo_loaded_def map_initial_def demo_f1_def demo_g1_def
                picker_defs)

text \<open>
  C15: A drawing completed before any colour was picked is stored with the refs' initial
  empty colours as its properties; the styles coerce the empty string to their default,
  so it is painted black, exactly as the same drawing without colour properties.
\<close>

theorem unpicked_colour_paints_black:
  assumes "live_store w = Some ws" and "mapRef w = Some m"
    and "feature_id f \<notin> feature_id ` set ws" and "properties f = []"
    and "line_color_ref m = []" and "fill_color_ref m = []"
  shows "\<exists>w1 m1. world_step ra (UserDraw f) w = Inr w1 \<and> mapRef w1 = Some m1 \<and>
           draw m1 = Some (ws @ [f\<lparr>properties := [(''lineColor'', ''''), (''fillColor'', '''')]\<rparr>]) \<and>
           feature_paint (f\<lparr>properties := [(''lineColor'', ''''), (''fillColor'', '''')]\<rparr>) = feature_paint f \<and>
           list_all (\<lambda>l. snd l = ''#000000'') (feature_paint f)"
proof -
  have "feature_paint (f\<lparr>properties := [(''lineColor'', ''''), (''fillColor'', '''')]\<rparr>) = feature_paint f \<and>
        list_all (\<lambda>l. snd l = ''#000000'') (feature_paint f)"
    using assms(4) by (cases "geometry f") (simp_all add: feature_paint_coerce)
  with user_draw_step [OF assms(1-4), of ra] assms(5,6) show ?thesis by simp
qed

theorem unpicked_colour_paints_black_witness:
  "\<exists>w1 m1. world_step demo_ra (UserDraw demo_g1) demo_loaded = Inr w1 \<and> mapRef w1 = Some m1 \<and>
     draw m1 = Some ([demo_f1] @ [demo_g1\<lparr>properties := [(''lineColor'', ''''), (''fillColor'', '''')]\<rparr>]) \<and>
     feature_paint (demo_g1\<lparr>properties := [(''lineColor'', ''''), (''fillColor'', '''')]\<rparr>) = feature_paint demo_g1 \<and>
     list_all (\<lambda>l. snd l = ''#000000'') (feature_paint demo_g1)"
  using unpicked_colour_paints_black [of demo_loaded "[demo_f1]" "the (mapRef demo_loaded)" demo_g1 demo_ra]
  by (simp add: live_store_def demo_loaded_def map_initial_def demo_f1_def demo_g1_def)

text \<open>
  C16: The controller's list refines the abstract collection: at every reachable state,
  each event changes the ids and geometries of \<open>drawData\<close> exactly as the abstract
  operation changes the collection (append a completed drawing, replace an edited
  geometry, remove trashed or deleted ids, empty on clear-all, nothing otherwise).
\<close>

theorem list_follows_collection:
  "reachable ra w \<Longrightarrow> enabled e w \<Longrightarrow> world_step ra e w = Inr w' \<Longrightarrow>
   map shape (drawData w') = abs_step e (map shape (drawData w))"
  by (rule list_refines_collection [OF reachable_sys_inv])

theorem list_follows_collection_witness:
  "map shape (drawData (interact demo_ra (ui_create demo_g1) (\<lambda>_. DrawCreate [demo_g1]) demo_loaded)) =
   abs_step (UserDraw demo_g1) (map shape (drawData demo_loaded))"
  by (rule list_follows_collection [OF demo_loaded_reachable])
     (simp add: live_store_def demo_loaded_def map_initial_def demo_f1_def demo_g1_def)+

text \<open>
  C17: Ids stay distinct. On a page started from an entry whose drawings have distinct
  ids, every run keeps the ids of the list, and of the drawing store, distinct.
\<close>

theorem ids_stay_distinct:
  assumes "world_init st = Inr w0" and "distinct (map feature_id (drawData w0))"
    and "run ra es w0 = Inr w"
  shows "distinct (map feature_id (drawData w)) \<and>
         (case mapRef w of
            None \<Rightarrow> True
          | Some m \<Rightarrow> (case draw m of None \<Rightarrow> True | Some ws \<Rightarrow> distinct (map feature_id ws)))"
proof -
  from assms(1) have "sys_inv ra w0" by (rule sys_inv_init)
  with assms(2,3) have inv: "sys_inv ra w" and d: "distinct (map feature_id (drawData w))"
    by (auto dest: run_distinct)
  have "distinct (map feature_id ws)" if "mapRef w = Some m" and "draw m = Some ws" for m ws
  proof (cases "map_loaded w")
    case True
    with inv that have "map shape ws = map shape (drawData w)"
      by (simp add: sys_inv_def store_ok_def)
    then have "map feature_id ws = map feature_id (drawData w)" by (simp add: ids_shape)
    with d show ?thesis by simp
  next
    case False
    with inv that show ?thesis by (simp add: sys_inv_def store_ok_def)
  qed
  with d show ?thesis by (simp split: option.split)
qed

theorem ids_stay_distinct_witness:
  "distinct (map feature_id (drawData demo_loaded)) \<and>
   (case mapRef demo_loaded of
      None \<Rightarrow> True
    | Some m \<Rightarrow> (case draw m of None \<Rightarrow> True | Some ws \<Rightarrow> distinct (map feature_id ws)))"
  by (rule ids_stay_distinct [OF demo_session_init _ demo_reload_run])
     (simp add: demo_session_def)

text \<open>
  C18: The text the page writes to the entry, by the adapter's \<open>storeDrawings\<close> and by
  the controller's \<open>deleteDrawing\<close>, reads back through \<open>JSON.parse\<close> as the drawings it
  was written from: the same ids and properties, and every coordinate the same number
  (written in the form \<open>JSON.stringify\<close> gives it).
\<close>

theorem entry_text_roundtrip:
  assumes "\<forall>f\<in>set fs. distinct (map fst (properties f))"
  shows "read_entry_text (map_option print_json (storeDrawings fs)) = Some (map canon_feature fs) \<and>
         read_entry_text (Some (print_json (encode_features fs))) = Some (map canon_feature fs) \<and>
         map feature_view (map canon_feature fs) = map feature_view fs"
proof (intro conjI)
  show "read_entry_text (map_option print_json (storeDrawings fs)) = Some (map canon_feature fs)"
    using read_entry_encode [OF assms]
    by (cases "fs = []") (simp_all add: storeDrawings_def read_entry_text_def)
qed (simp_all add: read_entry_encode [OF assms])

theorem entry_text_roundtrip_witness:
  "read_entry_text (map_option print_json (storeDrawings [demo_f1])) = Some (map canon_feature [demo_f1]) \<and>
   read_entry_text (Some (print_json (encode_features [demo_f1]))) = Some (map canon_feature [demo_f1]) \<and>
   map feature_view (map canon_feature [demo_f1]) = map feature_view [demo_f1]"
  using entry_text_roundtrip [of "[demo_f1]"] by (simp add: demo_f1_def)

text \<open>
  C20: On a page started from an entry either writer could have written, with distinct
  property keys, after every run the text of the entry reads back through
  \<open>JSON.parse\<close> as \<open>drawData\<close>, each coordinate in JavaScript's notation. The
  mirror of C1 holds at the level of the text localStorage keeps.
\<close>

theorem entry_text_mirrors_list:
  assumes "world_init st = Inr w0" and "keys_ok (drawData w0)" and "entry_encodes w0"
    and "run ra es w0 = Inr w"
  shows "read_entry_text (map_option print_json (local_storage w)) = Some (map canon_feature (drawData w))"
proof -
  from text_inv_run [OF sys_inv_init [OF assms(1)] world_init_keys [OF assms(1,2)] assms(4)] assms(3)
  have k: "keys_ok (drawData w)" and e: "entry_encodes w" by (simp_all add: world_keys_ok_def)
  from k have r: "read_entry_text (Some (print_json (encode_features (drawData w)))) =
                  Some (map canon_feature (drawData w))"
    by (intro read_entry_encode) (simp add: keys_ok_def)
  from e show ?thesis
  proof (unfold entry_encodes_def, elim disjE)
    assume "local_storage w = storeDrawings (drawData w)"
    with r show ?thesis by (cases "drawData w = []") (simp_all add: storeDrawings_def read_entry_text_def)
  next
    assume "local_storage w = Some (encode_features (drawData w))"
    with r show ?thesis by simp
  qed
qed

theorem entry_text_mirrors_list_witness:
  "read_entry_text (map_option print_json (local_storage demo_loaded)) =
     Some (map canon_feature (drawData demo_loaded))"
  by (rule entry_text_mirrors_list [OF demo_session_init _ _ demo_reload_run])
     (simp_all add: demo_session_def demo_f1_def keys_ok_def entry_encodes_def)

text \<open>
  C21: Every drawing the list shows can be deleted. Its card's button is an event the page
  accepts in every state, and it leaves the drawing in none of the three mirrors: not in
  \<open>drawData\<close>, not in what the entry reads back as (which is \<open>drawData\<close>), and not in the
  store.
\<close>

theorem every_drawing_deletable:
  assumes "i \<in> feature_id ` set (drawData w)"
  shows "enabled (ListDelete i) w \<and>
         (\<exists>w'. world_step ra (ListDelete i) w = Inr w' \<and>
               i \<notin> feature_id ` set (drawData w') \<and>
               stored_features (local_storage w') = Some (drawData w') \<and>
               (case mapRef w' of
                  None \<Rightarrow> True
                | Some m \<Rightarrow> (case draw m of None \<Rightarrow> True | Some ws \<Rightarrow> i \<notin> feature_id ` set ws)))"
  using assms
  by (auto simp: app_deleteDrawing_mapRef deleteDrawing_def draw_getAll_def draw_delete_def
                 Let_def quiet_def split: option.splits)

theorem every_drawing_deletable_witness:
  "enabled (ListDelete ''a'') demo_loaded \<and>
   (\<exists>w'. world_step demo_ra (ListDelete ''a'') demo_loaded = Inr w' \<and>
         ''a'' \<notin> feature_id ` set (drawData w') \<and>
         stored_features (local_storage w') = Some (drawData w') \<and>
         (case mapRef w' of
            None \<Rightarrow> True
          | Some m \<Rightarrow> (case draw m of None \<Rightarrow> True | Some ws \<Rightarrow> ''a'' \<notin> feature_id ` set ws)))"
  by (rule every_drawing_deletable) (simp add: demo_loaded_def demo_f1_def)

end
